(* ===== verification/Prelude.thy ===== *)
theory Prelude
  imports Main "HOL-Library.Word" "HOL-Library.Monad_Syntax"
begin

unbundle bit_operations_syntax

text \<open>
  Shared vocabulary of the development: the machine integer types of the C++ sources, spans
  as byte lists, the cursor through which the packet builders write \<open>out[head++] = byte\<close>,
  the big-endian splitting and joining of integers, and the lemmas about them that the
  component theories rely on.

  \<^bold>\<open>Results.\<close> A C++ function of type \<open>std::expected<T, std::error_code>\<close> becomes a
  HOL function into \<open>(error_code + 'a) option\<close> (or a pair of it with the new state). The inner
  sum is the \<open>std::expected\<close>: \<open>Inl\<close> is \<open>std::unexpected\<close>, \<open>Inr\<close> the value.
  The outer \<open>option\<close> records whether the call has a result at all: \<open>None\<close> is every way
  in which the C++ program leaves its defined behaviour (a failed \<open>assert\<close>, a span accessed
  out of range, signed overflow, an exception that escapes a \<open>noexcept\<close> function) and, for
  the loops defined with \<^theory_text>\<open>partial_function\<close>, not returning.
\<close>

type_synonym u8 = "8 word"
type_synonym u16 = "16 word"
type_synonym u32 = "32 word"
type_synonym u64 = "64 word"
type_synonym bytes = "u8 list"

named_theorems cursor_simps \<open>symbolic execution of the write cursor\<close>
named_theorems byte_simps \<open>splitting integers into bytes and joining them again\<close>
named_theorems trap_simps \<open>when a checked span access is defined\<close>

lemma bind_SomeE:
  assumes "Option.bind m f = Some y"
  obtains x where "m = Some x" "f x = Some y"
  using assms by (cases m) auto

section \<open>Spans\<close>

text \<open>\<open>span[i]\<close>, \<open>span.subspan(offset, count)\<close>, \<open>span.subspan(offset)\<close> and
  \<open>span.first(count)\<close>: undefined (\<open>None\<close>) outside the span.\<close>

definition span_at :: "'a list \<Rightarrow> nat \<Rightarrow> 'a option" where
  "span_at xs i = (if i < length xs then Some (xs ! i) else None)"

definition subspan :: "'a list \<Rightarrow> nat \<Rightarrow> nat \<Rightarrow> 'a list option" where
  "subspan xs offset count =
     (if offset + count \<le> length xs then Some (take count (drop offset xs)) else None)"

definition subspan_from :: "'a list \<Rightarrow> nat \<Rightarrow> 'a list option" where
  "subspan_from xs offset = (if offset \<le> length xs then Some (drop offset xs) else None)"

definition span_first :: "'a list \<Rightarrow> nat \<Rightarrow> 'a list option" where
  "span_first xs count = (if count \<le> length xs then Some (take count xs) else None)"

text \<open>\<open>packet[head++]\<close>: the byte and the advanced head.\<close>

definition span_next :: "'a list \<Rightarrow> nat \<Rightarrow> ('a \<times> nat) option" where
  "span_next xs h = (if h < length xs then Some (xs ! h, Suc h) else None)"

lemma span_at_Some [simp]: "i < length xs \<Longrightarrow> span_at xs i = Some (xs ! i)"
  by (simp add: span_at_def)

lemma span_at_None_iff [simp]: "span_at xs i = None \<longleftrightarrow> length xs \<le> i"
  by (auto simp: span_at_def)

lemma span_next_Some [simp]: "h < length xs \<Longrightarrow> span_next xs h = Some (xs ! h, Suc h)"
  by (simp add: span_next_def)

lemma subspan_Some [simp]:
  "offset + count \<le> length xs \<Longrightarrow> subspan xs offset count = Some (take count (drop offset xs))"
  by (simp add: subspan_def)

lemma subspan_from_Some [simp]:
  "offset \<le> length xs \<Longrightarrow> subspan_from xs offset = Some (drop offset xs)"
  by (simp add: subspan_from_def)

lemma span_first_Some [simp]:
  "count \<le> length xs \<Longrightarrow> span_first xs count = Some (take count xs)"
  by (simp add: span_first_def)

text \<open>\<open>span[i] = v\<close>, undefined outside the span.\<close>

definition store :: "nat \<Rightarrow> 'a \<Rightarrow> 'a list \<Rightarrow> 'a list option" where
  "store i v xs = (if i < length xs then Some (xs[i := v]) else None)"

lemma store_Some [simp]: "i < length xs \<Longrightarrow> store i v xs = Some (xs[i := v])"
  by (simp add: store_def)

text \<open>\<open>span[i] = v0; span[i + 1] = v1; ...\<close>\<close>

fun store_from :: "nat \<Rightarrow> 'a list \<Rightarrow> 'a list \<Rightarrow> 'a list option" where
  "store_from i [] xs = Some xs"
| "store_from i (v # vs) xs = do { xs \<leftarrow> store i v xs; store_from (Suc i) vs xs }"

lemma store_from_eq:
  "i + length vs \<le> length xs \<Longrightarrow>
   store_from i vs xs = Some (take i xs @ vs @ drop (i + length vs) xs)"
proof (induction vs arbitrary: i xs)
  case (Cons v vs)
  then have "store_from (Suc i) vs (xs[i := v]) =
      Some (take (Suc i) (xs[i := v]) @ vs @ drop (Suc i + length vs) (xs[i := v]))"
    by (intro Cons.IH) simp
  moreover have "take (Suc i) (xs[i := v]) = take i xs @ [v]"
    using Cons.prems by (simp add: take_Suc_conv_app_nth)
  ultimately show ?case using Cons.prems by simp
qed simp

text \<open>
  \<open>vector.resize(n)\<close>: new elements are zero; beyond \<open>max_size()\<close> it throws, which
  in the \<open>noexcept\<close> functions of the sources ends the program. A failing allocation below that
  bound is not modelled.
\<close>

definition VECTOR_MAX_SIZE :: nat where "VECTOR_MAX_SIZE = 2 ^ 63 - 1"

definition vector_resize :: "nat \<Rightarrow> bytes \<Rightarrow> bytes option" where
  "vector_resize n xs =
     (if n \<le> VECTOR_MAX_SIZE then Some (take n xs @ replicate (n - length xs) 0) else None)"

lemma vector_resize_Some [simp]:
  "n \<le> VECTOR_MAX_SIZE \<Longrightarrow> vector_resize n xs = Some (take n xs @ replicate (n - length xs) 0)"
  by (simp add: vector_resize_def)

lemma vector_resize_length: "vector_resize n xs = Some ys \<Longrightarrow> length ys = n"
  by (auto simp: vector_resize_def split: if_splits)

text \<open>Addition of \<open>size_t\<close>.\<close>

definition size_add :: "nat \<Rightarrow> nat \<Rightarrow> nat" where
  "size_add a b = (a + b) mod 2 ^ 64"

section \<open>The write cursor of the packet builders\<close>

text \<open>
  Every builder keeps \<open>auto head = 0\<close>, an \<open>int\<close>, and stores with \<open>out[head++] = byte\<close>.
  The cursor is the pair of \<open>head\<close> and the contents of \<open>out\<close>. A store past the end of
  \<open>out\<close> is undefined, and so is incrementing \<open>head\<close> beyond the largest \<open>int\<close>.
\<close>

definition INT_MAX :: nat where "INT_MAX = 2147483647"

type_synonym cursor = "nat \<times> bytes"

definition put :: "u8 \<Rightarrow> cursor \<Rightarrow> cursor option" where
  "put b c = (case c of (h, out) \<Rightarrow>
     if h < length out \<and> h < INT_MAX then Some (Suc h, out[h := b]) else None)"

text \<open>\<open>for (const auto& byte : bytes) out[head++] = byte;\<close>\<close>

fun put_all :: "bytes \<Rightarrow> cursor \<Rightarrow> cursor option" where
  "put_all [] c = Some c"
| "put_all (b # bs) c = do { c \<leftarrow> put b c; put_all bs c }"

text \<open>
  The abstract view of a cursor: the bytes written so far and the untouched rest of the buffer.
\<close>

definition cur :: "bytes \<Rightarrow> bytes \<Rightarrow> cursor" where
  "cur pre rest = (length pre, pre @ rest)"

lemma cur_start: "(0, out) = cur [] out"
  by (simp add: cur_def)

lemma fst_cur [cursor_simps]: "fst (cur pre rest) = length pre"
  and snd_cur [cursor_simps]: "snd (cur pre rest) = pre @ rest"
  by (simp_all add: cur_def)

lemma put_cur [cursor_simps]:
  assumes "0 < length rest" and "length pre < INT_MAX"
  shows "put b (cur pre rest) = Some (cur (pre @ [b]) (drop 1 rest))"
proof (cases rest)
  case Nil
  with assms show ?thesis by simp
next
  case (Cons r rest')
  with assms show ?thesis by (simp add: put_def cur_def)
qed

lemma put_all_cur [cursor_simps]:
  "length bs \<le> length rest \<Longrightarrow> length pre + length bs \<le> INT_MAX \<Longrightarrow>
   put_all bs (cur pre rest) = Some (cur (pre @ bs) (drop (length bs) rest))"
proof (induction bs arbitrary: pre rest)
  case Nil
  then show ?case by simp
next
  case (Cons b bs)
  then have "put b (cur pre rest) = Some (cur (pre @ [b]) (drop 1 rest))"
    by (intro put_cur) auto
  moreover have "put_all bs (cur (pre @ [b]) (drop 1 rest)) =
      Some (cur ((pre @ [b]) @ bs) (drop (length bs) (drop 1 rest)))"
    using Cons.prems by (intro Cons.IH) auto
  ultimately show ?case by simp
qed

lemma subspan_written:
  "subspan (pre @ mid @ rest) (length pre) (length mid) = Some mid"
  by (simp add: subspan_def)

lemma drop_index_cong: "m = n \<Longrightarrow> drop m xs = drop n xs"
  by simp

section \<open>Integers as big-endian byte sequences\<close>

text \<open>
  \<open>static_cast<uint8_t>((x >> k) & 0xFF)\<close> on the way out and \<open>x |= (byte << k)\<close> on the way
  in. In the latter the byte is promoted to a 32-bit \<open>int\<close>, shifted, and the result narrowed
  to the type of \<open>x\<close>.
\<close>

definition byte_of :: "nat \<Rightarrow> 'a::len word \<Rightarrow> u8" where
  "byte_of k x = ucast (drop_bit k x AND 0xFF)"

definition or_shl :: "'a::len word \<Rightarrow> u8 \<Rightarrow> nat \<Rightarrow> 'a word" where
  "or_shl x b k = x OR ucast (push_bit k (ucast b :: u32))"

definition be16 :: "u16 \<Rightarrow> bytes" where
  "be16 x = [ucast (drop_bit 8 x), ucast (x AND 0xFF)]"

definition be24 :: "'a::len word \<Rightarrow> bytes" where
  "be24 x = [byte_of 16 x, byte_of 8 x, byte_of 0 x]"

definition be32 :: "u32 \<Rightarrow> bytes" where
  "be32 x = [byte_of 24 x, byte_of 16 x, byte_of 8 x, byte_of 0 x]"

definition be64 :: "u64 \<Rightarrow> bytes" where
  "be64 x = [byte_of 56 x, byte_of 48 x, byte_of 40 x, byte_of 32 x,
             byte_of 24 x, byte_of 16 x, byte_of 8 x, byte_of 0 x]"

lemma length_be [simp]:
  "length (be16 a) = 2" "length (be24 b) = 3" "length (be32 c) = 4" "length (be64 d) = 8"
  by (simp_all add: be16_def be24_def be32_def be64_def)

lemma mask_0xFF: "(0xFF :: 'a::len word) = mask 8"
  by (simp add: mask_eq_exp_minus_1)

lemma bit_byte_of: "bit (byte_of k x) n \<longleftrightarrow> n < 8 \<and> bit x (k + n)"
  unfolding byte_of_def mask_0xFF
  by (auto simp: bit_simps dest: bit_imp_le_length)

lemma bit_or_shl:
  "bit (or_shl x b k) n \<longleftrightarrow> bit x n \<or> (n < LENGTH('a) \<and> n < 32 \<and> k \<le> n \<and> bit b (n - k))"
  for x :: "'a::len word"
  unfolding or_shl_def by (auto simp: bit_simps dest: bit_imp_le_length)

lemma bit_or_shl_byte_of:
  "bit (or_shl x (byte_of k y) k) n \<longleftrightarrow>
     bit x n \<or> (n < LENGTH('a) \<and> n < 32 \<and> k \<le> n \<and> n < k + 8 \<and> bit y n)"
  for x :: "'a::len word"
  by (auto simp: bit_or_shl bit_byte_of)

lemma or_shl_be16 [byte_simps]:
  "or_shl (or_shl 0 (ucast (drop_bit 8 x)) 8) (ucast (x AND 0xFF)) 0 = (x :: u16)"
  by (rule bit_word_eqI) (auto simp: bit_or_shl mask_0xFF bit_simps)

lemma or_shl_be32 [byte_simps]:
  "or_shl (or_shl (or_shl (or_shl 0 (byte_of 24 x) 24) (byte_of 16 x) 16) (byte_of 8 x) 8)
     (byte_of 0 x) 0 = (x :: u32)"
  by (rule bit_word_eqI) (auto simp: bit_or_shl_byte_of)

lemma or_shl_be24 [byte_simps]:
  "or_shl (or_shl (or_shl 0 (byte_of 16 x) 16) (byte_of 8 x) 8) (byte_of 0 x) 0 =
     (ucast (take_bit 24 x) :: u32)"
  for x :: "'a::len word"
  by (rule bit_word_eqI) (auto simp: bit_or_shl_byte_of bit_simps dest: bit_imp_le_length)

lemma bit_u8_high [simp]: "8 \<le> m \<Longrightarrow> \<not> bit (b :: u8) m"
  using bit_imp_le_length [of b m] by auto

lemma be16_or_shl [byte_simps]:
  "be16 (or_shl (or_shl 0 a 8) b 0) = [a, b]"
  unfolding be16_def mask_0xFF
  by (auto intro!: bit_word_eqI simp: bit_or_shl bit_simps dest: bit_imp_le_length)

lemma byte_of_or_shl_same:
  fixes x :: "'a::len word"
  assumes "k + 8 \<le> LENGTH('a)" "k + 8 \<le> 32" "\<And>n. n < 8 \<Longrightarrow> \<not> bit x (k + n)"
  shows "byte_of k (or_shl x b k) = b"
  using assms by (intro bit_word_eqI) (auto simp: bit_byte_of bit_or_shl dest: bit_imp_le_length)

lemma byte_of_or_shl_below:
  fixes x :: "'a::len word"
  assumes "j + 8 \<le> k \<or> k + 8 \<le> j"
  shows "byte_of k (or_shl x b j) = byte_of k x"
proof (rule bit_word_eqI)
  fix n assume n: "n < LENGTH(8)"
  show "bit (byte_of k (or_shl x b j)) n = bit (byte_of k x) n"
    using assms n by (auto simp: bit_byte_of bit_or_shl)
qed

lemma byte_of_0 [simp]: "byte_of k 0 = 0"
  by (simp add: byte_of_def)

lemma be24_or_shl [byte_simps]:
  "be24 (or_shl (or_shl (or_shl 0 a 16) b 8) c 0 :: u32) = [a, b, c]"
  by (simp add: be24_def byte_of_or_shl_same byte_of_or_shl_below bit_or_shl) 

lemma be32_or_shl [byte_simps]:
  "be32 (or_shl (or_shl (or_shl (or_shl 0 a 24) b 16) c 8) d 0) = [a, b, c, d]"
  by (simp add: be32_def byte_of_or_shl_same byte_of_or_shl_below bit_or_shl)


text \<open>The integers standing at a position of a byte list.\<close>

definition join16 :: "bytes \<Rightarrow> nat \<Rightarrow> u16" where
  "join16 p h = or_shl (or_shl 0 (p ! h) 8) (p ! Suc h) 0"

definition join24 :: "bytes \<Rightarrow> nat \<Rightarrow> u32" where
  "join24 p h = or_shl (or_shl (or_shl 0 (p ! h) 16) (p ! Suc h) 8) (p ! Suc (Suc h)) 0"

definition join32 :: "bytes \<Rightarrow> nat \<Rightarrow> u32" where
  "join32 p h = or_shl (or_shl (or_shl (or_shl 0 (p ! h) 24) (p ! Suc h) 16)
     (p ! Suc (Suc h)) 8) (p ! Suc (Suc (Suc h))) 0"

lemmas join_defs = join16_def join24_def join32_def

lemma drop_ConsD: "drop h p = x # xs \<Longrightarrow> p ! h = x \<and> drop (Suc h) p = xs"
  by (metis drop_Suc list.sel(3) nth_via_drop tl_drop)

lemma join16_at:
  assumes "drop h p = be16 x @ rest"
  shows "join16 p h = x"
  using assms unfolding be16_def join16_def by (auto dest!: drop_ConsD simp: byte_simps)

lemma join24_at:
  assumes "drop h p = be24 x @ rest"
  shows "join24 p h = ucast (take_bit 24 x)"
  using assms unfolding be24_def join24_def by (auto dest!: drop_ConsD simp: byte_simps)

lemma join32_at:
  assumes "drop h p = be32 x @ rest"
  shows "join32 p h = x"
  using assms unfolding be32_def join32_def by (auto dest!: drop_ConsD simp: byte_simps)

section \<open>Cancellation for exclusive or\<close>

lemma xor_eq_0_iff: "x XOR y = 0 \<longleftrightarrow> x = y" for x y :: "'a::len word"
proof
  assume "x XOR y = 0"
  then have "\<not> bit (x XOR y) n" for n by simp
  then show "x = y" by (intro bit_word_eqI) (auto simp: bit_simps)
qed simp

lemma xor_left_cancel: "x XOR y = x XOR z \<longleftrightarrow> y = z" for x y z :: "'a::len word"
proof
  assume "x XOR y = x XOR z"
  then have "(x XOR y) XOR (x XOR z) = 0" by (simp only: xor_self_eq)
  then have "y XOR z = 0" by (simp add: ac_simps)
  then show "y = z" by (simp only: xor_eq_0_iff)
qed simp

lemma xor_right_cancel: "y XOR x = z XOR x \<longleftrightarrow> y = z" for x y z :: "'a::len word"
  by (simp only: xor.commute [of _ x] xor_left_cancel)

end
