(* ===== verification/Rmap_Types.thy ===== *)
theory Rmap_Types
  imports Prelude
begin

unbundle bit_operations_syntax

text \<open>
  The constants and enumerations of \<open>include/spw_rmap/rmap_packet_type.hh\<close> and
  \<open>packet_parser.hh\<close>, the error codes of \<open>error_code.hh\<close> and of the standard library
  that the sources return, and the target nodes of \<open>target_node.hh\<close>.
\<close>

section \<open>Packet types and command codes\<close>

definition RMAPProtocolIdentifier :: u8 where
  "RMAPProtocolIdentifier = 0x01"

datatype RMAPPacketType = RPT_Command | RPT_Reply

fun RMAPPacketType_underlying :: "RMAPPacketType \<Rightarrow> u8" where
  "RMAPPacketType_underlying RPT_Command = 0b01000000"
| "RMAPPacketType_underlying RPT_Reply = 0b00000000"

datatype RMAPCommandCode = CC_Write | CC_VerifyDataBeforeWrite | CC_Reply | CC_IncrementAddress

fun RMAPCommandCode_underlying :: "RMAPCommandCode \<Rightarrow> u8" where
  "RMAPCommandCode_underlying CC_Write = 0b00100000"
| "RMAPCommandCode_underlying CC_VerifyDataBeforeWrite = 0b00010000"
| "RMAPCommandCode_underlying CC_Reply = 0b00001000"
| "RMAPCommandCode_underlying CC_IncrementAddress = 0b00000100"

datatype PacketType = PT_Undefined | PT_Read | PT_Write | PT_ReadReply | PT_WriteReply

datatype PacketStatusCode =
    CommandExecutedSuccessfully | GeneralErrorCode | UnusedRMAPPacketTypeOrCommandCode
  | InvalidKey | InvalidDataCRC | EarlyEOP | TooMuchData | EEP | VerifyBufferOverrun
  | RMAPCommandNotImplementedOrNotAuthorised | RMWDataLengthError | InvalidTargetLogicalAddress

fun PacketStatusCode_underlying :: "PacketStatusCode \<Rightarrow> u8" where
  "PacketStatusCode_underlying CommandExecutedSuccessfully = 0"
| "PacketStatusCode_underlying GeneralErrorCode = 1"
| "PacketStatusCode_underlying UnusedRMAPPacketTypeOrCommandCode = 2"
| "PacketStatusCode_underlying InvalidKey = 3"
| "PacketStatusCode_underlying InvalidDataCRC = 4"
| "PacketStatusCode_underlying EarlyEOP = 5"
| "PacketStatusCode_underlying TooMuchData = 6"
| "PacketStatusCode_underlying EEP = 7"
| "PacketStatusCode_underlying VerifyBufferOverrun = 9"
| "PacketStatusCode_underlying RMAPCommandNotImplementedOrNotAuthorised = 10"
| "PacketStatusCode_underlying RMWDataLengthError = 11"
| "PacketStatusCode_underlying InvalidTargetLogicalAddress = 12"

section \<open>Parser status and error codes\<close>

datatype Status =
    Success | InvalidPacket | HeaderCRCError | DataCRCError | IncompletePacket
  | NotReplyPacket | PacketStatusError | UnknownProtocolIdentifier

fun Status_underlying :: "Status \<Rightarrow> int" where
  "Status_underlying Success = 0"
| "Status_underlying InvalidPacket = 2"
| "Status_underlying HeaderCRCError = 3"
| "Status_underlying DataCRCError = 4"
| "Status_underlying IncompletePacket = 5"
| "Status_underlying NotReplyPacket = 6"
| "Status_underlying PacketStatusError = 7"
| "Status_underlying UnknownProtocolIdentifier = 8"

text \<open>The members of \<open>std::errc\<close> that the sources make error codes of.\<close>

datatype errc =
    invalid_argument | no_buffer_space | not_connected | already_connected | bad_message
  | timed_out | operation_canceled | resource_unavailable_try_again | connection_aborted
  | io_error | bad_file_descriptor

text \<open>
  A \<open>std::error_code\<close> is a value and a category: \<open>std::make_error_code(std::errc)\<close>,
  an \<open>errno\<close> in the system or the generic category, a \<open>getaddrinfo\<close> code, or a parser
  status as an integer in \<open>StatusCodeCategory\<close>.
\<close>

datatype error_code =
    Generic errc
  | System_errno int
  | Generic_errno int
  | Gai_code int
  | StatusCode int

text \<open>\<open>make_error_code(PacketParser::Status)\<close> and \<open>StatusCodeCategory::message\<close>.\<close>

definition make_error_code :: "Status \<Rightarrow> error_code" where
  "make_error_code e = StatusCode (Status_underlying e)"

definition StatusCodeCategory_message :: "int \<Rightarrow> string" where
  "StatusCodeCategory_message ev =
    (if ev = Status_underlying Success then ''Success''
     else if ev = Status_underlying InvalidPacket then ''Invalid packet''
     else if ev = Status_underlying HeaderCRCError then ''Header CRC error''
     else if ev = Status_underlying DataCRCError then ''Data CRC error''
     else if ev = Status_underlying IncompletePacket then ''Incomplete packet''
     else if ev = Status_underlying NotReplyPacket then ''Not a reply packet''
     else if ev = Status_underlying PacketStatusError then ''Packet status error''
     else if ev = Status_underlying UnknownProtocolIdentifier then ''Unknown protocol identifier''
     else ''Unknown status code'')"

lemma StatusCodeCategory_message_inj:
  "StatusCodeCategory_message (Status_underlying s) = StatusCodeCategory_message (Status_underlying t)
   \<longleftrightarrow> s = t"
  by (cases s; cases t) (simp_all add: StatusCodeCategory_message_def)

lemma make_error_code_inj [simp]: "make_error_code s = make_error_code t \<longleftrightarrow> s = t"
  by (cases s; cases t) (simp_all add: make_error_code_def)

section \<open>Target nodes\<close>

text \<open>
  \<open>TargetNodeBase\<close> with its two implementations. \<open>TargetNodeFixed\<close> holds arrays of
  a length fixed at compile time, \<open>TargetNodeDynamic\<close> vectors; both hand out spans of them.
\<close>

datatype target_node =
    TargetNodeFixed (tn_logical_address: u8) (tn_target_spacewire_address: bytes) (tn_reply_address: bytes)
  | TargetNodeDynamic (tn_logical_address: u8) (tn_target_spacewire_address: bytes) (tn_reply_address: bytes)

definition getTargetLogicalAddress :: "target_node \<Rightarrow> u8" where
  "getTargetLogicalAddress t = tn_logical_address t"

definition getTargetSpaceWireAddress :: "target_node \<Rightarrow> bytes" where
  "getTargetSpaceWireAddress t = tn_target_spacewire_address t"

definition getReplyAddress :: "target_node \<Rightarrow> bytes" where
  "getReplyAddress t = tn_reply_address t"

end
