(* ===== verification/Tcp_Backend.thy ===== *)
theory Tcp_Backend
  imports Rmap_Types
begin

text \<open>
  The concept \<open>TcpBackend\<close> of \<open>internal/spw_rmap_tcp_node_impl.hh\<close>: what the node
  template requires of its \<open>Backend\<close> argument. A backend over the state \<open>'b\<close> is a record of
  its operations, which every definition of the node takes as an argument, as the class template
  takes the type. \<open>recvSome(inbuf)\<close> is given the size of \<open>inbuf\<close> and returns the bytes
  stored at its front; their number is the returned \<open>size_t\<close>. The operations return
  \<open>None\<close> when the call does not return.
\<close>

record 'b backend =
  be_getIpAddress :: "'b \<Rightarrow> string"
  be_setIpAddress :: "string \<Rightarrow> 'b \<Rightarrow> 'b"
  be_getPort :: "'b \<Rightarrow> string"
  be_setPort :: "string \<Rightarrow> 'b \<Rightarrow> 'b"
  be_recvSome :: "nat \<Rightarrow> 'b \<Rightarrow> ((error_code + bytes) \<times> 'b) option"
  be_sendAll :: "bytes \<Rightarrow> 'b \<Rightarrow> ((error_code + unit) \<times> 'b) option"
  be_setSendTimeout :: "int \<Rightarrow> 'b \<Rightarrow> ((error_code + unit) \<times> 'b) option"

text \<open>
  What the node relies on: \<open>recvSome\<close> never stores more than the buffer holds, and
  on a connection that still has bytes it stores at least one, in order. \<open>pending\<close> is the
  stream still to be received, \<open>live\<close> the states of a connection that fails no call, \<open>sent\<close>
  the stream sent so far.
\<close>

locale tcp_backend =
  fixes B :: "'b backend"
  assumes recv_bounded: "be_recvSome B n b = Some (Inr bs, b') \<Longrightarrow> length bs \<le> n"

locale tcp_stream = tcp_backend B for B :: "'b backend" +
  fixes live :: "'b \<Rightarrow> bool" and pending :: "'b \<Rightarrow> bytes" and sent :: "'b \<Rightarrow> bytes"
  assumes recv_pending: "live b \<Longrightarrow> 0 < n \<Longrightarrow> pending b \<noteq> [] \<Longrightarrow>
      \<exists>bs b'. be_recvSome B n b = Some (Inr bs, b') \<and> bs \<noteq> [] \<and> pending b = bs @ pending b' \<and>
        live b' \<and> sent b' = sent b"
    and send_all: "live b \<Longrightarrow>
      \<exists>b'. be_sendAll B data b = Some (Inr (), b') \<and> sent b' = sent b @ data \<and> live b' \<and>
        pending b' = pending b"
begin

lemma recv_step:
  assumes "live b" "0 < n" "pending b \<noteq> []"
  obtains bs b' where "be_recvSome B n b = Some (Inr bs, b')" "bs \<noteq> []" "length bs \<le> n"
    "pending b = bs @ pending b'" "live b'" "sent b' = sent b"
  using recv_pending [OF assms] recv_bounded by blast

end

text \<open>A backend that reports the end of the stream as a read of zero bytes.\<close>

locale tcp_stream_eof = tcp_stream B live pending sent for B :: "'b backend" and live pending sent +
  assumes recv_eof: "live b \<Longrightarrow> 0 < n \<Longrightarrow> pending b = [] \<Longrightarrow> be_recvSome B n b = Some (Inr [], b)"

end
