(* ===== verification/Crc.thy ===== *)
theory Crc
  imports Prelude
begin

unbundle bit_operations_syntax

text \<open>
  The RMAP CRC of \<open>src/src/crc.cc\<close>: the 256-entry table and the table-driven loop
  \<open>calcCRC\<close>. The reference definition is the bit-serial shift register for the polynomial
  \<open>x^8 + x^2 + x + 1\<close> in its reflected form (\<open>0xE0\<close>), least significant bit first. The theory
  shows that the table is that register run for eight steps, that the checksum is linear, that a
  message followed by its own checksum has residue zero and by no other byte, and that two
  messages of the same length that differ in one byte have different checksums.
\<close>

section \<open>Definitions\<close>

definition CRC_LOOKUP_TABLE :: "u8 list" where
  "CRC_LOOKUP_TABLE = [
    0x00, 0x91, 0xe3, 0x72, 0x07, 0x96, 0xe4, 0x75,
    0x0e, 0x9f, 0xed, 0x7c, 0x09, 0x98, 0xea, 0x7b,
    0x1c, 0x8d, 0xff, 0x6e, 0x1b, 0x8a, 0xf8, 0x69,
    0x12, 0x83, 0xf1, 0x60, 0x15, 0x84, 0xf6, 0x67,
    0x38, 0xa9, 0xdb, 0x4a, 0x3f, 0xae, 0xdc, 0x4d,
    0x36, 0xa7, 0xd5, 0x44, 0x31, 0xa0, 0xd2, 0x43,
    0x24, 0xb5, 0xc7, 0x56, 0x23, 0xb2, 0xc0, 0x51,
    0x2a, 0xbb, 0xc9, 0x58, 0x2d, 0xbc, 0xce, 0x5f,
    0x70, 0xe1, 0x93, 0x02, 0x77, 0xe6, 0x94, 0x05,
    0x7e, 0xef, 0x9d, 0x0c, 0x79, 0xe8, 0x9a, 0x0b,
    0x6c, 0xfd, 0x8f, 0x1e, 0x6b, 0xfa, 0x88, 0x19,
    0x62, 0xf3, 0x81, 0x10, 0x65, 0xf4, 0x86, 0x17,
    0x48, 0xd9, 0xab, 0x3a, 0x4f, 0xde, 0xac, 0x3d,
    0x46, 0xd7, 0xa5, 0x34, 0x41, 0xd0, 0xa2, 0x33,
    0x54, 0xc5, 0xb7, 0x26, 0x53, 0xc2, 0xb0, 0x21,
    0x5a, 0xcb, 0xb9, 0x28, 0x5d, 0xcc, 0xbe, 0x2f,
    0xe0, 0x71, 0x03, 0x92, 0xe7, 0x76, 0x04, 0x95,
    0xee, 0x7f, 0x0d, 0x9c, 0xe9, 0x78, 0x0a, 0x9b,
    0xfc, 0x6d, 0x1f, 0x8e, 0xfb, 0x6a, 0x18, 0x89,
    0xf2, 0x63, 0x11, 0x80, 0xf5, 0x64, 0x16, 0x87,
    0xd8, 0x49, 0x3b, 0xaa, 0xdf, 0x4e, 0x3c, 0xad,
    0xd6, 0x47, 0x35, 0xa4, 0xd1, 0x40, 0x32, 0xa3,
    0xc4, 0x55, 0x27, 0xb6, 0xc3, 0x52, 0x20, 0xb1,
    0xca, 0x5b, 0x29, 0xb8, 0xcd, 0x5c, 0x2e, 0xbf,
    0x90, 0x01, 0x73, 0xe2, 0x97, 0x06, 0x74, 0xe5,
    0x9e, 0x0f, 0x7d, 0xec, 0x99, 0x08, 0x7a, 0xeb,
    0x8c, 0x1d, 0x6f, 0xfe, 0x8b, 0x1a, 0x68, 0xf9,
    0x82, 0x13, 0x61, 0xf0, 0x85, 0x14, 0x66, 0xf7,
    0xa8, 0x39, 0x4b, 0xda, 0xaf, 0x3e, 0x4c, 0xdd,
    0xa6, 0x37, 0x45, 0xd4, 0xa1, 0x30, 0x42, 0xd3,
    0xb4, 0x25, 0x57, 0xc6, 0xb3, 0x22, 0x50, 0xc1,
    0xba, 0x2b, 0x59, 0xc8, 0xbd, 0x2c, 0x5e, 0xcf
   ]"

text \<open>The loop of \<open>calcCRC\<close>: \<open>crc = CRC_LOOKUP_TABLE[crc ^ byte]\<close> for every byte.\<close>

fun calcCRC :: "bytes \<Rightarrow> u8 \<Rightarrow> u8" where
  "calcCRC [] crc = crc"
| "calcCRC (byte # data) crc = calcCRC data (CRC_LOOKUP_TABLE ! unat (crc XOR byte))"

text \<open>\<open>calcCRC(data)\<close> with the default initial value \<open>0x00\<close>.\<close>

abbreviation crc0 :: "bytes \<Rightarrow> u8" where
  "crc0 data \<equiv> calcCRC data 0"

text \<open>Reference: one step of the shift register, and eight of them for a byte.\<close>

definition crc_bit :: "u8 \<Rightarrow> u8" where
  "crc_bit x = (if bit x 0 then drop_bit 1 x XOR 0xE0 else drop_bit 1 x)"

definition crc_byte :: "u8 \<Rightarrow> u8" where
  "crc_byte x = (crc_bit ^^ 8) x"

fun crc_spec :: "bytes \<Rightarrow> u8 \<Rightarrow> u8" where
  "crc_spec [] crc = crc"
| "crc_spec (byte # data) crc = crc_spec data (crc_byte (crc XOR byte))"

section \<open>The table is the shift register\<close>

lemma length_table [simp]: "length CRC_LOOKUP_TABLE = 256"
  by (simp add: CRC_LOOKUP_TABLE_def)

lemma crc_byte_unfold:
  "crc_byte x =
     crc_bit (crc_bit (crc_bit (crc_bit (crc_bit (crc_bit (crc_bit (crc_bit x)))))))"
  by (simp add: crc_byte_def eval_nat_numeral)

lemma table_map: "map crc_byte (map word_of_nat [0..<256]) = CRC_LOOKUP_TABLE"
  by (simp add: CRC_LOOKUP_TABLE_def upt_conv_Cons crc_byte_unfold crc_bit_def)

lemma table_crc_byte: "CRC_LOOKUP_TABLE ! unat x = crc_byte x"
proof -
  have "unat x < 256" using unsigned_less [of x] by simp
  then show ?thesis by (subst table_map [symmetric]) simp
qed

lemma calcCRC_eq_spec: "calcCRC data crc = crc_spec data crc"
  by (induction data arbitrary: crc) (simp_all add: table_crc_byte)

section \<open>The register step is linear and injective\<close>

lemma bit_crc_bit:
  "bit (crc_bit x) n \<longleftrightarrow> (n < 7 \<and> bit x (Suc n)) \<noteq> (bit x 0 \<and> bit (0xE0 :: u8) n)"
  by (auto simp: crc_bit_def bit_simps dest: bit_imp_le_length)

lemma crc_bit_xor: "crc_bit (x XOR y) = crc_bit x XOR crc_bit y"
  by (rule bit_word_eqI) (auto simp: bit_crc_bit bit_simps)

lemma crc_bit_0 [simp]: "crc_bit 0 = 0"
  by (simp add: crc_bit_def)

lemma crc_bit_eq_0: "crc_bit x = 0 \<Longrightarrow> x = 0"
proof (rule bit_word_eqI)
  fix n assume "crc_bit x = 0" and n: "n < LENGTH(8)"
  then have z: "\<not> bit (crc_bit x) m" for m by simp
  have b0: "\<not> bit x 0"
    using z [of 7] by (simp add: bit_crc_bit)
  show "bit x n \<longleftrightarrow> bit (0 :: u8) n"
    using z [of "n - 1"] b0 n by (cases n) (auto simp: bit_crc_bit)
qed

lemma crc_byte_xor: "crc_byte (x XOR y) = crc_byte x XOR crc_byte y"
proof -
  have "(crc_bit ^^ n) (x XOR y) = (crc_bit ^^ n) x XOR (crc_bit ^^ n) y" for n
    by (induction n) (simp_all add: crc_bit_xor)
  then show ?thesis by (simp add: crc_byte_def)
qed

lemma crc_byte_0 [simp]: "crc_byte 0 = 0"
proof -
  have "(crc_bit ^^ n) 0 = 0" for n by (induction n) simp_all
  then show ?thesis by (simp add: crc_byte_def)
qed

lemma crc_byte_eq_0 [simp]: "crc_byte x = 0 \<longleftrightarrow> x = 0"
proof
  have "(crc_bit ^^ n) x = 0 \<Longrightarrow> x = 0" for n
    by (induction n) (auto dest: crc_bit_eq_0)
  then show "crc_byte x = 0 \<Longrightarrow> x = 0" by (simp add: crc_byte_def)
qed simp

lemma crc_byte_inj [simp]: "crc_byte x = crc_byte y \<longleftrightarrow> x = y"
proof -
  have "crc_byte x = crc_byte y \<longleftrightarrow> crc_byte (x XOR y) = 0"
    by (simp add: crc_byte_xor xor_eq_0_iff)
  then show ?thesis by (simp add: xor_eq_0_iff)
qed

section \<open>Checksums of messages\<close>

lemma calcCRC_Cons: "calcCRC (b # bs) c = calcCRC bs (crc_byte (c XOR b))"
  by (simp add: table_crc_byte)

declare calcCRC.simps(2) [simp del]

lemma calcCRC_append [simp]: "calcCRC (xs @ ys) c = calcCRC ys (calcCRC xs c)"
  by (induction xs arbitrary: c) (simp_all add: calcCRC_Cons)

lemma calcCRC_snoc_eq_0: "calcCRC (xs @ [b]) c = 0 \<longleftrightarrow> b = calcCRC xs c"
  by (auto simp: calcCRC_Cons xor_eq_0_iff)

lemma calcCRC_init_inj [simp]: "calcCRC xs c = calcCRC xs d \<longleftrightarrow> c = d"
proof (induction xs arbitrary: c d)
  case (Cons x xs)
  then show ?case by (simp add: calcCRC_Cons xor_right_cancel)
qed simp

lemma calcCRC_xor:
  "length xs = length ys \<Longrightarrow>
   calcCRC (map2 (XOR) xs ys) (c XOR d) = calcCRC xs c XOR calcCRC ys d"
proof (induction xs ys arbitrary: c d rule: list_induct2)
  case (Cons x xs y ys)
  have "(c XOR d) XOR (x XOR y) = (c XOR x) XOR (d XOR y)"
    by (simp add: ac_simps)
  then have "crc_byte ((c XOR d) XOR (x XOR y)) = crc_byte (c XOR x) XOR crc_byte (d XOR y)"
    by (simp add: crc_byte_xor)
  with Cons.IH show ?case by (simp add: calcCRC_Cons)
qed simp

text \<open>
  Bursts. The line carries each byte least significant bit first, so an error burst of at most
  eight bits is a pattern \<open>e\<close> shifted by \<open>k\<close> over two neighbouring bytes. Feeding it
  to the register is the same as running the register on \<open>e\<close> for \<open>8 - k\<close> steps.
\<close>

lemma crc_bits_low_zero: "take_bit n x = 0 \<Longrightarrow> (crc_bit ^^ n) x = drop_bit n x"
proof (induction n arbitrary: x)
  case (Suc n)
  have z: "\<not> bit x m" if "m \<le> n" for m
    using Suc.prems that by (metis bit_0_eq bit_take_bit_iff bot_apply less_Suc_eq_le bot_bool_def)
  have one: "crc_bit x = drop_bit 1 x"
    using z [of 0] by (simp add: crc_bit_def)
  have "take_bit n (drop_bit 1 x) = 0"
    by (rule bit_word_eqI) (auto simp: bit_simps z)
  then have "(crc_bit ^^ n) (drop_bit 1 x) = drop_bit n (drop_bit 1 x)"
    by (rule Suc.IH)
  then show ?case
    by (simp add: funpow_swap1 one drop_bit_drop_bit del: funpow.simps) (simp add: funpow_swap1 one)
qed simp

lemma crc_bits_xor: "(crc_bit ^^ n) (x XOR y) = (crc_bit ^^ n) x XOR (crc_bit ^^ n) y"
  by (induction n) (simp_all add: crc_bit_xor)

lemma crc_bits_eq_0 [simp]: "(crc_bit ^^ n) x = 0 \<longleftrightarrow> x = 0"
proof
  show "(crc_bit ^^ n) x = 0 \<Longrightarrow> x = 0" by (induction n) (auto dest: crc_bit_eq_0)
  show "x = 0 \<Longrightarrow> (crc_bit ^^ n) x = 0" by (induction n arbitrary: x) simp_all
qed

lemma crc_byte_burst:
  assumes "k \<le> 8"
  shows "crc_byte (push_bit k e) XOR drop_bit (8 - k) e = (crc_bit ^^ (8 - k)) e"
proof -
  define m where "m = 8 - k"
  have m: "8 = m + k" using assms by (simp add: m_def)
  have low: "(crc_bit ^^ k) (push_bit k e) = take_bit m e"
    using assms
    by (subst crc_bits_low_zero) (auto intro!: bit_word_eqI simp: bit_simps m_def)
  have len: "bit e (m + n) \<Longrightarrow> m + n < 8" for n
    using bit_imp_le_length [of e "m + n"] by simp
  have high: "(crc_bit ^^ m) (push_bit m (drop_bit m e)) = drop_bit m e"
    by (subst crc_bits_low_zero) (auto intro!: bit_word_eqI simp: bit_simps dest: len)
  have split: "e = take_bit m e XOR push_bit m (drop_bit m e)"
    by (rule bit_word_eqI) (auto simp: bit_simps)
  have "crc_byte (push_bit k e) = (crc_bit ^^ m) (take_bit m e)"
    unfolding crc_byte_def m funpow_add by (simp add: low)
  also have "\<dots> XOR drop_bit m e = (crc_bit ^^ m) e"
    by (subst (3) split) (simp add: crc_bits_xor high)
  finally show ?thesis by (simp add: m_def)
qed

lemma calcCRC_burst_inj:
  assumes "k \<le> 8"
  shows "calcCRC (xs @ (a XOR push_bit k e) # (b XOR drop_bit (8 - k) e) # ys) c =
         calcCRC (xs @ a # b # ys) c \<longleftrightarrow> e = 0"
proof -
  define d where "d = calcCRC xs c XOR a"
  define f where "f = push_bit k e"
  define g where "g = drop_bit (8 - k) e"
  have "crc_byte (d XOR f) XOR (b XOR g) = (crc_byte d XOR b) XOR (crc_byte f XOR g)"
    by (simp add: crc_byte_xor ac_simps)
  then have "crc_byte (d XOR f) XOR (b XOR g) = crc_byte d XOR b \<longleftrightarrow> crc_byte f XOR g = 0"
    using xor_left_cancel [of "crc_byte d XOR b" "crc_byte f XOR g" 0] by simp
  moreover have "calcCRC (xs @ (a XOR f) # (b XOR g) # ys) c = calcCRC (xs @ a # b # ys) c \<longleftrightarrow>
      crc_byte (d XOR f) XOR (b XOR g) = crc_byte d XOR b"
    by (simp only: calcCRC_append calcCRC_Cons d_def xor.assoc calcCRC_init_inj crc_byte_inj)
  ultimately show ?thesis
    using crc_byte_burst [OF assms, of e] by (simp add: f_def g_def)
qed

lemma calcCRC_update_inj:
  assumes "i < length data"
  shows "calcCRC (data[i := b]) c = calcCRC data c \<longleftrightarrow> b = data ! i"
proof -
  have "calcCRC (data[i := b]) c = calcCRC (take i data @ b # drop (Suc i) data) c"
    using assms by (simp add: upd_conv_take_nth_drop)
  moreover have "calcCRC data c = calcCRC (take i data @ data ! i # drop (Suc i) data) c"
    using assms by (simp only: id_take_nth_drop [symmetric])
  ultimately show ?thesis
    by (simp only: calcCRC_append calcCRC_Cons calcCRC_init_inj crc_byte_inj xor_left_cancel)
qed

section \<open>Properties\<close>

text \<open>C28. The table-driven checksum is the bitwise definition of the RMAP CRC, for every
  sequence of bytes and every initial value.\<close>

theorem calcCRC_correct: "calcCRC data crc = crc_spec data crc"
  by (simp add: calcCRC_eq_spec)

text \<open>C29. An error burst of at most eight bits, wherever it starts and across a byte boundary
  too, changes the checksum.\<close>

theorem calcCRC_detects_bursts:
  assumes "k \<le> 8" and "e \<noteq> 0"
  shows "calcCRC (xs @ (a XOR push_bit k e) # (b XOR drop_bit (8 - k) e) # ys) c \<noteq>
         calcCRC (xs @ a # b # ys) c"
  unfolding calcCRC_burst_inj [OF assms(1)] by (rule assms(2))

theorem calcCRC_detects_bursts_witness:
  "calcCRC ([1] @ (2 XOR push_bit 5 0x83) # (3 XOR drop_bit (8 - 5) 0x83) # [4]) 0 \<noteq>
   calcCRC ([1] @ 2 # 3 # [4]) 0"
  by (rule calcCRC_detects_bursts) simp_all

end
