(* ===== verification/Packet_Builder.thy ===== *)
theory Packet_Builder
  imports Crc Rmap_Types
begin

unbundle bit_operations_syntax

text \<open>
  The four packet builders of \<open>src/src/packet_builder.cc\<close> with their configuration structs
  of \<open>include/spw_rmap/packet_builder.hh\<close>. Each \<open>build\<close> is the sequence of stores of the
  source, through the write cursor of \<open>Prelude\<close>; it returns the number of bytes written (or the
  error) and the buffer. The theory defines the packet formats as plain byte lists and shows
  that every builder writes exactly its format, followed by the untouched rest of the buffer.
\<close>

section \<open>Configurations\<close>

record ReadPacketConfig =
  rd_targetSpaceWireAddress :: bytes
  rd_replyAddress :: bytes
  rd_targetLogicalAddress :: u8
  rd_initiatorLogicalAddress :: u8
  rd_transactionID :: u16
  rd_extendedAddress :: u8
  rd_address :: u32
  rd_dataLength :: u32
  rd_key :: u8
  rd_incrementMode :: bool

record WritePacketConfig =
  wr_targetSpaceWireAddress :: bytes
  wr_replyAddress :: bytes
  wr_targetLogicalAddress :: u8
  wr_initiatorLogicalAddress :: u8
  wr_transactionID :: u16
  wr_key :: u8
  wr_extendedAddress :: u8
  wr_address :: u32
  wr_incrementMode :: bool
  wr_reply :: bool
  wr_verifyMode :: bool
  wr_data :: bytes

record ReadReplyPacketConfig =
  rrp_replyAddress :: bytes
  rrp_initiatorLogicalAddress :: u8
  rrp_status :: u8
  rrp_targetLogicalAddress :: u8
  rrp_transactionID :: u16
  rrp_data :: bytes
  rrp_incrementMode :: bool

record WriteReplyPacketConfig =
  wrp_replyAddress :: bytes
  wrp_initiatorLogicalAddress :: u8
  wrp_status :: u8
  wrp_targetLogicalAddress :: u8
  wrp_transactionID :: u16
  wrp_incrementMode :: bool
  wrp_verifyMode :: bool

section \<open>Pieces shared by the builders\<close>

text \<open>
  \<open>replyAddressSize = ((replyAddressSize - 1) & 0x0C) + 0x04\<close>, after
  \<open>assert(replyAddressSize <= 12)\<close>; \<open>instruction |= (replyAddressSize >> 2)\<close>.
\<close>

definition reply_address_words :: "nat \<Rightarrow> nat" where
  "reply_address_words n = ((n - 1) AND 0x0C) + 0x04"

definition encode_reply_size :: "nat \<Rightarrow> u8 \<Rightarrow> (nat \<times> u8) option" where
  "encode_reply_size replyAddressSize instruction =
     (if replyAddressSize \<noteq> 0 then
        (if replyAddressSize \<le> 12 then
           (let replyAddressSize = reply_address_words replyAddressSize
            in Some (replyAddressSize, instruction OR word_of_nat (drop_bit 2 replyAddressSize)))
         else None)
      else Some (replyAddressSize, instruction))"

text \<open>The zero padding in front of the reply address, then the reply address.\<close>

definition put_reply_address :: "nat \<Rightarrow> bytes \<Rightarrow> cursor \<Rightarrow> cursor option" where
  "put_reply_address replyAddressSize replyAddress c = do {
     c \<leftarrow> (if replyAddressSize \<noteq> 0
           then put_all (replicate (replyAddressSize - length replyAddress) 0x00) c
           else Some c);
     put_all replyAddress c
   }"

text \<open>Header CRC over \<open>out.subspan(offset, head - offset)\<close>, stored at \<open>head\<close>.\<close>

definition put_crc_from :: "nat \<Rightarrow> cursor \<Rightarrow> cursor option" where
  "put_crc_from offset c = do {
     header \<leftarrow> subspan (snd c) offset (fst c - offset);
     put (calcCRC header 0) c
   }"

section \<open>Read command\<close>

definition ReadPacketBuilder_getTotalSize :: "ReadPacketConfig \<Rightarrow> nat" where
  "ReadPacketBuilder_getTotalSize config =
     length (rd_targetSpaceWireAddress config) + 4 +
     (length (rd_replyAddress config) + 3) div 4 * 4 + 12"

definition ReadPacketBuilder_build ::
    "ReadPacketConfig \<Rightarrow> bytes \<Rightarrow> ((error_code + nat) \<times> bytes) option" where
  "ReadPacketBuilder_build config out =
    (if length out < ReadPacketBuilder_getTotalSize config
     then Some (Inl (Generic no_buffer_space), out)
     else do {
       c \<leftarrow> put_all (rd_targetSpaceWireAddress config) (0, out);
       c \<leftarrow> put (rd_targetLogicalAddress config) c;
       c \<leftarrow> put RMAPProtocolIdentifier c;
       let instruction = 0 OR RMAPPacketType_underlying RPT_Command;
       let instruction = instruction OR RMAPCommandCode_underlying CC_Reply;
       let instruction = (if rd_incrementMode config
                          then instruction OR RMAPCommandCode_underlying CC_IncrementAddress
                          else instruction);
       (replyAddressSize, instruction) \<leftarrow>
         encode_reply_size (length (rd_replyAddress config)) instruction;
       c \<leftarrow> put instruction c;
       c \<leftarrow> put (rd_key config) c;
       c \<leftarrow> put_reply_address replyAddressSize (rd_replyAddress config) c;
       c \<leftarrow> put (rd_initiatorLogicalAddress config) c;
       c \<leftarrow> put (ucast (drop_bit 8 (rd_transactionID config))) c;
       c \<leftarrow> put (ucast (rd_transactionID config AND 0xFF)) c;
       c \<leftarrow> put (rd_extendedAddress config) c;
       c \<leftarrow> put (byte_of 24 (rd_address config)) c;
       c \<leftarrow> put (byte_of 16 (rd_address config)) c;
       c \<leftarrow> put (byte_of 8 (rd_address config)) c;
       c \<leftarrow> put (byte_of 0 (rd_address config)) c;
       c \<leftarrow> put (byte_of 16 (rd_dataLength config)) c;
       c \<leftarrow> put (byte_of 8 (rd_dataLength config)) c;
       c \<leftarrow> put (byte_of 0 (rd_dataLength config)) c;
       c \<leftarrow> put_crc_from (length (rd_targetSpaceWireAddress config)) c;
       Some (Inr (fst c), snd c)
     })"

section \<open>Write command\<close>

definition WritePacketBuilder_getTotalSize :: "WritePacketConfig \<Rightarrow> nat" where
  "WritePacketBuilder_getTotalSize config =
     length (wr_targetSpaceWireAddress config) + 4 +
     (length (wr_replyAddress config) + 3) div 4 * 4 + 12 + length (wr_data config) + 1"

definition WritePacketBuilder_build ::
    "WritePacketConfig \<Rightarrow> bytes \<Rightarrow> ((error_code + nat) \<times> bytes) option" where
  "WritePacketBuilder_build config out =
    (if length out < WritePacketBuilder_getTotalSize config
     then Some (Inl (Generic no_buffer_space), out)
     else do {
       c \<leftarrow> put_all (wr_targetSpaceWireAddress config) (0, out);
       c \<leftarrow> put (wr_targetLogicalAddress config) c;
       c \<leftarrow> put RMAPProtocolIdentifier c;
       let instruction = 0 OR RMAPPacketType_underlying RPT_Command;
       let instruction = instruction OR RMAPCommandCode_underlying CC_Write;
       let instruction = (if wr_reply config
                          then instruction OR RMAPCommandCode_underlying CC_Reply
                          else instruction);
       let instruction = (if wr_verifyMode config
                          then instruction OR RMAPCommandCode_underlying CC_VerifyDataBeforeWrite
                          else instruction);
       let instruction = (if wr_incrementMode config
                          then instruction OR RMAPCommandCode_underlying CC_IncrementAddress
                          else instruction);
       (replyAddressSize, instruction) \<leftarrow>
         encode_reply_size (length (wr_replyAddress config)) instruction;
       c \<leftarrow> put instruction c;
       c \<leftarrow> put (wr_key config) c;
       c \<leftarrow> put_reply_address replyAddressSize (wr_replyAddress config) c;
       c \<leftarrow> put (wr_initiatorLogicalAddress config) c;
       c \<leftarrow> put (ucast (drop_bit 8 (wr_transactionID config))) c;
       c \<leftarrow> put (ucast (wr_transactionID config AND 0xFF)) c;
       c \<leftarrow> put (wr_extendedAddress config) c;
       c \<leftarrow> put (byte_of 24 (wr_address config)) c;
       c \<leftarrow> put (byte_of 16 (wr_address config)) c;
       c \<leftarrow> put (byte_of 8 (wr_address config)) c;
       c \<leftarrow> put (byte_of 0 (wr_address config)) c;
       let dataLength = (word_of_nat (length (wr_data config)) :: u64);
       c \<leftarrow> put (byte_of 16 dataLength) c;
       c \<leftarrow> put (byte_of 8 dataLength) c;
       c \<leftarrow> put (byte_of 0 dataLength) c;
       c \<leftarrow> put_crc_from (length (wr_targetSpaceWireAddress config)) c;
       c \<leftarrow> put_all (wr_data config) c;
       let data_crc = calcCRC (wr_data config) 0;
       c \<leftarrow> put data_crc c;
       Some (Inr (fst c), snd c)
     })"

section \<open>Write reply\<close>

definition WriteReplyPacketBuilder_getTotalSize :: "WriteReplyPacketConfig \<Rightarrow> nat" where
  "WriteReplyPacketBuilder_getTotalSize config = length (wrp_replyAddress config) + 8"

definition WriteReplyPacketBuilder_build ::
    "WriteReplyPacketConfig \<Rightarrow> bytes \<Rightarrow> ((error_code + nat) \<times> bytes) option" where
  "WriteReplyPacketBuilder_build config out =
    (if length out < WriteReplyPacketBuilder_getTotalSize config
     then Some (Inl (Generic no_buffer_space), out)
     else do {
       c \<leftarrow> put_all (wrp_replyAddress config) (0, out);
       c \<leftarrow> put (wrp_initiatorLogicalAddress config) c;
       c \<leftarrow> put 0x01 c;
       let instruction = 0 OR RMAPPacketType_underlying RPT_Reply;
       let instruction = instruction OR RMAPCommandCode_underlying CC_Write;
       let instruction = instruction OR RMAPCommandCode_underlying CC_Reply;
       let instruction = (if wrp_verifyMode config
                          then instruction OR RMAPCommandCode_underlying CC_VerifyDataBeforeWrite
                          else instruction);
       let instruction = (if wrp_incrementMode config
                          then instruction OR RMAPCommandCode_underlying CC_IncrementAddress
                          else instruction);
       c \<leftarrow> put instruction c;
       c \<leftarrow> put (wrp_status config) c;
       c \<leftarrow> put (wrp_targetLogicalAddress config) c;
       c \<leftarrow> put (ucast (drop_bit 8 (wrp_transactionID config))) c;
       c \<leftarrow> put (ucast (wrp_transactionID config AND 0xFF)) c;
       c \<leftarrow> put_crc_from (length (wrp_replyAddress config)) c;
       Some (Inr (fst c), snd c)
     })"

section \<open>Read reply\<close>

definition ReadReplyPacketBuilder_getTotalSize :: "ReadReplyPacketConfig \<Rightarrow> nat" where
  "ReadReplyPacketBuilder_getTotalSize config =
     length (rrp_replyAddress config) + 12 + length (rrp_data config) + 1"

definition ReadReplyPacketBuilder_build ::
    "ReadReplyPacketConfig \<Rightarrow> bytes \<Rightarrow> ((error_code + nat) \<times> bytes) option" where
  "ReadReplyPacketBuilder_build config out =
    (if length out < ReadReplyPacketBuilder_getTotalSize config
     then Some (Inl (Generic no_buffer_space), out)
     else do {
       c \<leftarrow> put_all (rrp_replyAddress config) (0, out);
       c \<leftarrow> put (rrp_initiatorLogicalAddress config) c;
       c \<leftarrow> put RMAPProtocolIdentifier c;
       let instruction = 0 OR RMAPPacketType_underlying RPT_Reply;
       let instruction = instruction OR RMAPCommandCode_underlying CC_Reply;
       let instruction = (if rrp_incrementMode config
                          then instruction OR RMAPCommandCode_underlying CC_IncrementAddress
                          else instruction);
       c \<leftarrow> put instruction c;
       c \<leftarrow> put (rrp_status config) c;
       c \<leftarrow> put (rrp_targetLogicalAddress config) c;
       c \<leftarrow> put (ucast (drop_bit 8 (rrp_transactionID config))) c;
       c \<leftarrow> put (ucast (rrp_transactionID config AND 0xFF)) c;
       c \<leftarrow> put 0x00 c;
       let dataLength = (word_of_nat (length (rrp_data config)) :: u64);
       c \<leftarrow> put (byte_of 16 dataLength) c;
       c \<leftarrow> put (byte_of 8 dataLength) c;
       c \<leftarrow> put (byte_of 0 dataLength) c;
       c \<leftarrow> put_crc_from (length (rrp_replyAddress config)) c;
       c \<leftarrow> put_all (rrp_data config) c;
       let data_crc = calcCRC (rrp_data config) 0;
       c \<leftarrow> put data_crc c;
       Some (Inr (fst c), snd c)
     })"

section \<open>Packet formats\<close>

text \<open>The formats as plain byte lists, independent of buffers and cursors.\<close>

definition with_crc :: "bytes \<Rightarrow> bytes" where
  "with_crc bs = bs @ [crc0 bs]"

definition pad_reply :: "bytes \<Rightarrow> bytes" where
  "pad_reply replyAddress =
     replicate ((length replyAddress + 3) div 4 * 4 - length replyAddress) 0 @ replyAddress"

definition command_header ::
    "u8 \<Rightarrow> u8 \<Rightarrow> u8 \<Rightarrow> bytes \<Rightarrow> u8 \<Rightarrow> u16 \<Rightarrow> u8 \<Rightarrow> u32 \<Rightarrow> 'a::len word \<Rightarrow> bytes" where
  "command_header target instruction key reply initiator tid ext addr len =
     [target, 1, instruction, key] @ reply @ [initiator] @ be16 tid @ [ext] @ be32 addr @ be24 len"

definition read_instruction :: "ReadPacketConfig \<Rightarrow> u8" where
  "read_instruction config =
     (0x48 OR (if rd_incrementMode config then 0x04 else 0)) OR
     word_of_nat ((length (rd_replyAddress config) + 3) div 4)"

definition read_packet :: "ReadPacketConfig \<Rightarrow> bytes" where
  "read_packet config =
     rd_targetSpaceWireAddress config @
     with_crc (command_header (rd_targetLogicalAddress config) (read_instruction config)
       (rd_key config) (pad_reply (rd_replyAddress config)) (rd_initiatorLogicalAddress config)
       (rd_transactionID config) (rd_extendedAddress config) (rd_address config)
       (rd_dataLength config))"

definition write_instruction :: "WritePacketConfig \<Rightarrow> u8" where
  "write_instruction config =
     (((0x60 OR (if wr_reply config then 0x08 else 0)) OR
       (if wr_verifyMode config then 0x10 else 0)) OR
       (if wr_incrementMode config then 0x04 else 0)) OR
     word_of_nat ((length (wr_replyAddress config) + 3) div 4)"

definition write_packet :: "WritePacketConfig \<Rightarrow> bytes" where
  "write_packet config =
     wr_targetSpaceWireAddress config @
     with_crc (command_header (wr_targetLogicalAddress config) (write_instruction config)
       (wr_key config) (pad_reply (wr_replyAddress config)) (wr_initiatorLogicalAddress config)
       (wr_transactionID config) (wr_extendedAddress config) (wr_address config)
       (word_of_nat (length (wr_data config)) :: u64)) @
     with_crc (wr_data config)"

definition write_reply_instruction :: "WriteReplyPacketConfig \<Rightarrow> u8" where
  "write_reply_instruction config =
     (0x28 OR (if wrp_verifyMode config then 0x10 else 0)) OR
     (if wrp_incrementMode config then 0x04 else 0)"

definition write_reply_packet :: "WriteReplyPacketConfig \<Rightarrow> bytes" where
  "write_reply_packet config =
     wrp_replyAddress config @
     with_crc ([wrp_initiatorLogicalAddress config, 1, write_reply_instruction config,
       wrp_status config, wrp_targetLogicalAddress config] @ be16 (wrp_transactionID config))"

definition read_reply_instruction :: "ReadReplyPacketConfig \<Rightarrow> u8" where
  "read_reply_instruction config = 0x08 OR (if rrp_incrementMode config then 0x04 else 0)"

definition read_reply_packet :: "ReadReplyPacketConfig \<Rightarrow> bytes" where
  "read_reply_packet config =
     rrp_replyAddress config @
     with_crc ([rrp_initiatorLogicalAddress config, 1, read_reply_instruction config,
       rrp_status config, rrp_targetLogicalAddress config] @ be16 (rrp_transactionID config) @
       [0] @ be24 (word_of_nat (length (rrp_data config)) :: u64)) @
     with_crc (rrp_data config)"

lemma length_with_crc [simp]: "length (with_crc bs) = Suc (length bs)"
  by (simp add: with_crc_def)

lemma length_pad_reply [simp]:
  "length (pad_reply r) = (length r + 3) div 4 * 4"
  unfolding pad_reply_def by simp

lemma length_command_header [simp]:
  "length (command_header t i k r s tid e a l) = 15 + length r"
  by (simp add: command_header_def)

lemma length_read_packet: "length (read_packet config) = ReadPacketBuilder_getTotalSize config"
  by (simp add: read_packet_def ReadPacketBuilder_getTotalSize_def)

lemma length_write_packet: "length (write_packet config) = WritePacketBuilder_getTotalSize config"
  by (simp add: write_packet_def WritePacketBuilder_getTotalSize_def)

lemma length_write_reply_packet:
  "length (write_reply_packet config) = WriteReplyPacketBuilder_getTotalSize config"
  by (simp add: write_reply_packet_def WriteReplyPacketBuilder_getTotalSize_def)

lemma length_read_reply_packet:
  "length (read_reply_packet config) = ReadReplyPacketBuilder_getTotalSize config"
  by (simp add: read_reply_packet_def ReadReplyPacketBuilder_getTotalSize_def)

section \<open>The builders write the formats\<close>

lemma encode_reply_size_ok [cursor_simps]:
  assumes "n \<le> 12"
  shows "encode_reply_size n i = Some ((n + 3) div 4 * 4, i OR word_of_nat ((n + 3) div 4))"
proof -
  have "list_all (\<lambda>m. encode_reply_size m i =
      Some ((m + 3) div 4 * 4, i OR word_of_nat ((m + 3) div 4))) [0..<13]"
    by (simp add: upt_conv_Cons encode_reply_size_def reply_address_words_def
        numeral_2_eq_2 [symmetric])
  then show ?thesis using assms by (simp add: list_all_iff)
qed

lemma encode_reply_size_trap: "12 < n \<Longrightarrow> encode_reply_size n i = None"
  by (simp add: encode_reply_size_def)

lemma put_reply_address_cur [cursor_simps]:
  assumes "(length r + 3) div 4 * 4 \<le> length rest"
    and "length pre + (length r + 3) div 4 * 4 \<le> INT_MAX"
  shows "put_reply_address ((length r + 3) div 4 * 4) r (cur pre rest) =
     Some (cur (pre @ pad_reply r) (drop ((length r + 3) div 4 * 4) rest))"
proof (cases "r = []")
  case True
  then show ?thesis by (simp add: put_reply_address_def pad_reply_def)
next
  case False
  define m where "m = (length r + 3) div 4 * 4"
  have "0 < length r" using False by simp
  then have m: "length r \<le> m" "m \<noteq> 0" unfolding m_def by presburger+
  with assms show ?thesis
    unfolding put_reply_address_def pad_reply_def m_def [symmetric]
    by (simp add: cursor_simps)
qed

lemma put_crc_from_cur [cursor_simps]:
  assumes "0 < length rest" and "length pre + length h < INT_MAX"
  shows "put_crc_from (length pre) (cur (pre @ h) rest) = Some (cur (pre @ with_crc h) (drop 1 rest))"
  using assms by (simp add: put_crc_from_def cursor_simps with_crc_def)

lemmas packet_format_defs =
  read_packet_def write_packet_def write_reply_packet_def read_reply_packet_def
  read_instruction_def write_instruction_def write_reply_instruction_def read_reply_instruction_def
  command_header_def be16_def be24_def be32_def RMAPProtocolIdentifier_def

lemma ReadPacketBuilder_build_ok:
  assumes "ReadPacketBuilder_getTotalSize config \<le> length out"
    and "ReadPacketBuilder_getTotalSize config \<le> INT_MAX"
    and "length (rd_replyAddress config) \<le> 12"
  shows "ReadPacketBuilder_build config out =
     Some (Inr (ReadPacketBuilder_getTotalSize config),
           read_packet config @ drop (ReadPacketBuilder_getTotalSize config) out)"
  using assms unfolding ReadPacketBuilder_build_def ReadPacketBuilder_getTotalSize_def cur_start
  by (simp add: cursor_simps Let_def packet_format_defs) (rule drop_index_cong, simp)

lemma WritePacketBuilder_build_ok:
  assumes "WritePacketBuilder_getTotalSize config \<le> length out"
    and "WritePacketBuilder_getTotalSize config \<le> INT_MAX"
    and "length (wr_replyAddress config) \<le> 12"
  shows "WritePacketBuilder_build config out =
     Some (Inr (WritePacketBuilder_getTotalSize config),
           write_packet config @ drop (WritePacketBuilder_getTotalSize config) out)"
  using assms unfolding WritePacketBuilder_build_def WritePacketBuilder_getTotalSize_def cur_start
  by (simp add: cursor_simps Let_def packet_format_defs with_crc_def [of "wr_data config"]) (rule drop_index_cong, simp)

lemma WriteReplyPacketBuilder_build_ok:
  assumes "WriteReplyPacketBuilder_getTotalSize config \<le> length out"
    and "WriteReplyPacketBuilder_getTotalSize config \<le> INT_MAX"
  shows "WriteReplyPacketBuilder_build config out =
     Some (Inr (WriteReplyPacketBuilder_getTotalSize config),
           write_reply_packet config @ drop (WriteReplyPacketBuilder_getTotalSize config) out)"
  using assms
  unfolding WriteReplyPacketBuilder_build_def WriteReplyPacketBuilder_getTotalSize_def cur_start
  by (simp add: cursor_simps Let_def packet_format_defs) (rule drop_index_cong, simp)

lemma ReadReplyPacketBuilder_build_ok:
  assumes "ReadReplyPacketBuilder_getTotalSize config \<le> length out"
    and "ReadReplyPacketBuilder_getTotalSize config \<le> INT_MAX"
  shows "ReadReplyPacketBuilder_build config out =
     Some (Inr (ReadReplyPacketBuilder_getTotalSize config),
           read_reply_packet config @ drop (ReadReplyPacketBuilder_getTotalSize config) out)"
  using assms
  unfolding ReadReplyPacketBuilder_build_def ReadReplyPacketBuilder_getTotalSize_def cur_start
  by (simp add: cursor_simps Let_def packet_format_defs with_crc_def [of "rrp_data config"]) (rule drop_index_cong, simp)

text \<open>The other two outcomes: a buffer that is too small, and a reply address over 12 bytes.\<close>

lemma build_no_buffer_space:
  "length out < ReadPacketBuilder_getTotalSize rd \<Longrightarrow>
     ReadPacketBuilder_build rd out = Some (Inl (Generic no_buffer_space), out)"
  "length out < WritePacketBuilder_getTotalSize wr \<Longrightarrow>
     WritePacketBuilder_build wr out = Some (Inl (Generic no_buffer_space), out)"
  "length out < WriteReplyPacketBuilder_getTotalSize wrp \<Longrightarrow>
     WriteReplyPacketBuilder_build wrp out = Some (Inl (Generic no_buffer_space), out)"
  "length out < ReadReplyPacketBuilder_getTotalSize rrp \<Longrightarrow>
     ReadReplyPacketBuilder_build rrp out = Some (Inl (Generic no_buffer_space), out)"
  by (simp_all add: ReadPacketBuilder_build_def WritePacketBuilder_build_def
      WriteReplyPacketBuilder_build_def ReadReplyPacketBuilder_build_def)

lemma bind_None [simp]: "Option.bind m (\<lambda>_. None) = None"
  by (cases m) simp_all

lemma build_reply_address_too_long:
  "12 < length (rd_replyAddress rd) \<Longrightarrow> ReadPacketBuilder_getTotalSize rd \<le> length out \<Longrightarrow>
     ReadPacketBuilder_build rd out = None"
  "12 < length (wr_replyAddress wr) \<Longrightarrow> WritePacketBuilder_getTotalSize wr \<le> length out \<Longrightarrow>
     WritePacketBuilder_build wr out = None"
  by (simp_all add: ReadPacketBuilder_build_def WritePacketBuilder_build_def
      encode_reply_size_trap Let_def)

section \<open>Properties\<close>

text \<open>Every outcome of building a read command: a buffer that is too small is reported and
  left alone, a reply address over twelve bytes fails the assertion, and otherwise exactly the
  packet format is written in front of the untouched rest of the buffer.\<close>

lemma read_build_outcome:
  assumes "ReadPacketBuilder_getTotalSize config \<le> INT_MAX"
  shows "ReadPacketBuilder_build config out =
     (let n = ReadPacketBuilder_getTotalSize config
      in if length out < n then Some (Inl (Generic no_buffer_space), out)
         else if 12 < length (rd_replyAddress config) then None
         else Some (Inr n, read_packet config @ drop n out))"
  using assms
  by (simp add: Let_def build_no_buffer_space build_reply_address_too_long
      ReadPacketBuilder_build_ok)

lemma read_build_outcome_witness:
  "ReadPacketBuilder_build \<lparr>rd_targetSpaceWireAddress = [], rd_replyAddress = [],
     rd_targetLogicalAddress = 0xFE, rd_initiatorLogicalAddress = 0x67, rd_transactionID = 0x20,
     rd_extendedAddress = 0, rd_address = 0x100, rd_dataLength = 4, rd_key = 0,
     rd_incrementMode = True\<rparr> (replicate 16 0) =
   Some (Inr 16, [0xFE, 1, 0x4C, 0, 0x67, 0, 0x20, 0, 0, 0, 1, 0, 0, 0, 4, 0x85])"
  by (subst read_build_outcome)
    (simp_all add: ReadPacketBuilder_getTotalSize_def INT_MAX_def read_packet_def with_crc_def
      command_header_def pad_reply_def read_instruction_def be16_def be24_def be32_def byte_of_def
      calcCRC.simps CRC_LOOKUP_TABLE_def)

text \<open>The same for a write command.\<close>

lemma write_build_outcome:
  assumes "WritePacketBuilder_getTotalSize config \<le> INT_MAX"
  shows "WritePacketBuilder_build config out =
     (let n = WritePacketBuilder_getTotalSize config
      in if length out < n then Some (Inl (Generic no_buffer_space), out)
         else if 12 < length (wr_replyAddress config) then None
         else Some (Inr n, write_packet config @ drop n out))"
  using assms
  by (simp add: Let_def build_no_buffer_space build_reply_address_too_long
      WritePacketBuilder_build_ok)

lemma write_build_outcome_witness:
  "WritePacketBuilder_build \<lparr>wr_targetSpaceWireAddress = [], wr_replyAddress = replicate 13 1,
     wr_targetLogicalAddress = 0xFE, wr_initiatorLogicalAddress = 0x67, wr_transactionID = 0x20,
     wr_key = 0, wr_extendedAddress = 0, wr_address = 0x100, wr_incrementMode = True,
     wr_reply = True, wr_verifyMode = True, wr_data = [7]\<rparr> (replicate 40 0) = None"
  by (subst write_build_outcome)
    (simp_all add: WritePacketBuilder_getTotalSize_def INT_MAX_def)

end
