(* ===== verification/Packet_Parser.thy ===== *)
theory Packet_Parser
  imports Packet_Builder
begin

unbundle bit_operations_syntax

text \<open>
  The packet parser of \<open>src/src/packet_parser.cc\<close>. The parser object keeps one \<open>Packet\<close>
  that the parse functions overwrite field by field, also on their way to an error; the model
  threads it. Spans into the input are modelled by the bytes they view. A field that a parse
  function does not assign keeps the value of an earlier parse.
\<close>

section \<open>Definitions\<close>

record packet =
  pk_targetSpaceWireAddress :: bytes
  pk_replyAddress :: bytes
  pk_initiatorLogicalAddress :: u8
  pk_instruction :: u8
  pk_key :: u8
  pk_status :: u8
  pk_targetLogicalAddress :: u8
  pk_transactionID :: u16
  pk_extendedAddress :: u8
  pk_address :: u32
  pk_dataLength :: u32
  pk_data :: bytes
  pk_type :: PacketType

definition empty_packet :: packet where
  "empty_packet = \<lparr>pk_targetSpaceWireAddress = [], pk_replyAddress = [],
     pk_initiatorLogicalAddress = 0, pk_instruction = 0, pk_key = 0, pk_status = 0,
     pk_targetLogicalAddress = 0, pk_transactionID = 0, pk_extendedAddress = 0, pk_address = 0,
     pk_dataLength = 0, pk_data = [], pk_type = PT_Undefined\<rparr>"

text \<open>
  The loop over the reply address field: \<open>i\<close> iterations are left, \<open>head\<close> is the next
  byte, \<open>first\<close> and \<open>actual\<close> are \<open>replyAddressFirstByte\<close> and
  \<open>replyAddressActualSize\<close>. Leading zeros are skipped; the first other byte ends the loop and
  moves \<open>head\<close> behind the field.
\<close>

fun scan_reply_address ::
    "bytes \<Rightarrow> nat \<Rightarrow> nat \<Rightarrow> nat \<Rightarrow> nat \<Rightarrow> (nat \<times> nat \<times> nat) option" where
  "scan_reply_address p 0 head first actual = Some (head, first, actual)"
| "scan_reply_address p (Suc i) head first actual = do {
     (b, head) \<leftarrow> span_next p head;
     if b = 0x00 then scan_reply_address p i head head (actual - 1)
     else Some (head + (actual - 1), first, actual)
   }"

definition parse_reply_address :: "bytes \<Rightarrow> nat \<Rightarrow> nat \<Rightarrow> (bytes \<times> nat) option" where
  "parse_reply_address p replyAddressSize head = do {
     (head, first, actual) \<leftarrow> scan_reply_address p replyAddressSize head head replyAddressSize;
     reply \<leftarrow> subspan p first actual;
     Some (reply, head)
   }"

text \<open>\<open>x = 0; x |= (packet[head++] << k1); ...\<close> for the shifts in the list.\<close>

fun read_be :: "bytes \<Rightarrow> nat list \<Rightarrow> 'a::len word \<Rightarrow> nat \<Rightarrow> ('a word \<times> nat) option" where
  "read_be p [] x head = Some (x, head)"
| "read_be p (k # ks) x head = do {
     (b, head) \<leftarrow> span_next p head;
     read_be p ks (or_shl x b k) head
   }"

definition parseReadPacket :: "packet \<Rightarrow> bytes \<Rightarrow> (Status \<times> packet) option" where
  "parseReadPacket pk p =
    (if length p < 4 then Some (IncompletePacket, pk)
     else do {
       instruction \<leftarrow> span_at p 2;
       let replyAddressSize = unat (instruction AND 0b00000011) * 4;
       if length p \<noteq> 16 + replyAddressSize then Some (IncompletePacket, pk)
       else do {
         header \<leftarrow> subspan p 0 (16 + replyAddressSize);
         if calcCRC header 0 \<noteq> 0x00 then Some (HeaderCRCError, pk)
         else do {
           (b, head) \<leftarrow> span_next p 0;
           let pk = pk\<lparr>pk_targetLogicalAddress := b\<rparr>;
           (b, head) \<leftarrow> span_next p head;
           if b \<noteq> 0x01 then Some (UnknownProtocolIdentifier, pk)
           else do {
             (b, head) \<leftarrow> span_next p head;
             let pk = pk\<lparr>pk_instruction := b\<rparr>;
             (b, head) \<leftarrow> span_next p head;
             let pk = pk\<lparr>pk_key := b\<rparr>;
             (reply, head) \<leftarrow> parse_reply_address p replyAddressSize head;
             let pk = pk\<lparr>pk_replyAddress := reply\<rparr>;
             (b, head) \<leftarrow> span_next p head;
             let pk = pk\<lparr>pk_initiatorLogicalAddress := b\<rparr>;
             (tid, head) \<leftarrow> read_be p [8, 0] 0 head;
             let pk = pk\<lparr>pk_transactionID := tid\<rparr>;
             (b, head) \<leftarrow> span_next p head;
             let pk = pk\<lparr>pk_extendedAddress := b\<rparr>;
             (addr, head) \<leftarrow> read_be p [24, 16, 8, 0] 0 head;
             let pk = pk\<lparr>pk_address := addr\<rparr>;
             (len, head) \<leftarrow> read_be p [16, 8, 0] 0 head;
             let pk = pk\<lparr>pk_dataLength := len\<rparr>;
             Some (Success, pk)
           }
         }
       }
     })"

definition parseReadReplyPacket :: "packet \<Rightarrow> bytes \<Rightarrow> (Status \<times> packet) option" where
  "parseReadReplyPacket pk p =
    (if length p < 12 then Some (IncompletePacket, pk)
     else do {
       header \<leftarrow> subspan p 0 12;
       if calcCRC header 0 \<noteq> 0x00 then Some (HeaderCRCError, pk)
       else do {
         (b, head) \<leftarrow> span_next p 0;
         let pk = pk\<lparr>pk_initiatorLogicalAddress := b\<rparr>;
         (b, head) \<leftarrow> span_next p head;
         if b \<noteq> 0x01 then Some (UnknownProtocolIdentifier, pk)
         else do {
           (b, head) \<leftarrow> span_next p head;
           let pk = pk\<lparr>pk_instruction := b\<rparr>;
           (b, head) \<leftarrow> span_next p head;
           let pk = pk\<lparr>pk_status := b\<rparr>;
           (b, head) \<leftarrow> span_next p head;
           let pk = pk\<lparr>pk_targetLogicalAddress := b\<rparr>;
           (tid, head) \<leftarrow> read_be p [8, 0] 0 head;
           let pk = pk\<lparr>pk_transactionID := tid\<rparr>;
           let head = head + 1;
           (len, head) \<leftarrow> read_be p [16, 8, 0] 0 head;
           let pk = pk\<lparr>pk_dataLength := len\<rparr>;
           if length p \<noteq> 12 + unat len + 1 then Some (IncompletePacket, pk)
           else do {
             body \<leftarrow> subspan p 12 (unat len + 1);
             if calcCRC body 0 \<noteq> 0x00 then Some (DataCRCError, pk)
             else do {
               let head = head + 1;
               content \<leftarrow> subspan p head (unat len);
               Some (Success, pk\<lparr>pk_data := content\<rparr>)
             }
           }
         }
       }
     })"

definition parseWritePacket :: "packet \<Rightarrow> bytes \<Rightarrow> (Status \<times> packet) option" where
  "parseWritePacket pk p =
    (if length p < 4 then Some (IncompletePacket, pk)
     else do {
       instruction \<leftarrow> span_at p 2;
       let replyAddressSize = unat (instruction AND 0b00000011) * 4;
       if length p \<le> 16 + replyAddressSize then Some (IncompletePacket, pk)
       else do {
         header \<leftarrow> subspan p 0 (16 + replyAddressSize);
         if calcCRC header 0 \<noteq> 0x00 then Some (HeaderCRCError, pk)
         else do {
           (b, head) \<leftarrow> span_next p 0;
           let pk = pk\<lparr>pk_targetLogicalAddress := b\<rparr>;
           (b, head) \<leftarrow> span_next p head;
           if b \<noteq> 0x01 then Some (UnknownProtocolIdentifier, pk)
           else do {
             (b, head) \<leftarrow> span_next p head;
             let pk = pk\<lparr>pk_instruction := b\<rparr>;
             (b, head) \<leftarrow> span_next p head;
             let pk = pk\<lparr>pk_key := b\<rparr>;
             (reply, head) \<leftarrow> parse_reply_address p replyAddressSize head;
             let pk = pk\<lparr>pk_replyAddress := reply\<rparr>;
             (b, head) \<leftarrow> span_next p head;
             let pk = pk\<lparr>pk_initiatorLogicalAddress := b\<rparr>;
             (tid, head) \<leftarrow> read_be p [8, 0] 0 head;
             let pk = pk\<lparr>pk_transactionID := tid\<rparr>;
             (b, head) \<leftarrow> span_next p head;
             let pk = pk\<lparr>pk_extendedAddress := b\<rparr>;
             (addr, head) \<leftarrow> read_be p [24, 16, 8, 0] 0 head;
             let pk = pk\<lparr>pk_address := addr\<rparr>;
             (len, head) \<leftarrow> read_be p [16, 8, 0] 0 head;
             let pk = pk\<lparr>pk_dataLength := len\<rparr>;
             if length p \<noteq> 16 + replyAddressSize + unat len + 1 then Some (IncompletePacket, pk)
             else do {
               body \<leftarrow> subspan p (16 + replyAddressSize) (unat len + 1);
               if calcCRC body 0 \<noteq> 0x00 then Some (DataCRCError, pk)
               else do {
                 let head = head + 1;
                 content \<leftarrow> subspan p head (unat len);
                 Some (Success, pk\<lparr>pk_data := content\<rparr>)
               }
             }
           }
         }
       }
     })"

definition parseWriteReplyPacket :: "packet \<Rightarrow> bytes \<Rightarrow> (Status \<times> packet) option" where
  "parseWriteReplyPacket pk p =
    (if length p \<noteq> 8 then Some (IncompletePacket, pk)
     else do {
       header \<leftarrow> subspan p 0 8;
       if calcCRC header 0 \<noteq> 0x00 then Some (HeaderCRCError, pk)
       else do {
         (b, head) \<leftarrow> span_next p 0;
         let pk = pk\<lparr>pk_initiatorLogicalAddress := b\<rparr>;
         (b, head) \<leftarrow> span_next p head;
         if b \<noteq> 0x01 then Some (UnknownProtocolIdentifier, pk)
         else do {
           (b, head) \<leftarrow> span_next p head;
           let pk = pk\<lparr>pk_instruction := b\<rparr>;
           (b, head) \<leftarrow> span_next p head;
           let pk = pk\<lparr>pk_status := b\<rparr>;
           (b, head) \<leftarrow> span_next p head;
           let pk = pk\<lparr>pk_targetLogicalAddress := b\<rparr>;
           (tid, head) \<leftarrow> read_be p [8, 0] 0 head;
           let pk = pk\<lparr>pk_transactionID := tid\<rparr>;
           Some (Success, pk)
         }
       }
     })"

text \<open>
  \<open>while (packet[head] < 0x20) { head++; if (head >= packet.size()) return IncompletePacket; }\<close>:
  the outer option is an access out of range (only \<open>packet[0]\<close> of an empty packet can be one),
  the inner \<open>None\<close> the early return.
\<close>

fun skip_path_aux :: "bytes \<Rightarrow> nat \<Rightarrow> nat option" where
  "skip_path_aux [] head = None"
| "skip_path_aux (b # bs) head = (if b < 0x20 then skip_path_aux bs (Suc head) else Some head)"

definition skip_path :: "bytes \<Rightarrow> nat option option" where
  "skip_path p = (if p = [] then None else Some (skip_path_aux p 0))"

definition parse :: "packet \<Rightarrow> bytes \<Rightarrow> (Status \<times> packet) option" where
  "parse pk p = do {
     skipped \<leftarrow> skip_path p;
     case skipped of
       None \<Rightarrow> Some (IncompletePacket, pk)
     | Some head \<Rightarrow>
         if length p - head < 4 then Some (IncompletePacket, pk)
         else do {
           instruction \<leftarrow> span_at p (head + 2);
           let pk = pk\<lparr>pk_instruction := instruction\<rparr>;
           let is_command = instruction AND 0b01000000 \<noteq> 0;
           let is_write = instruction AND RMAPCommandCode_underlying CC_Write \<noteq> 0;
           path \<leftarrow> subspan p 0 head;
           rest \<leftarrow> subspan_from p head;
           (case (is_command, is_write) of
              (False, False) \<Rightarrow>
                parseReadReplyPacket (pk\<lparr>pk_type := PT_ReadReply, pk_replyAddress := path\<rparr>) rest
            | (False, True) \<Rightarrow>
                parseWriteReplyPacket (pk\<lparr>pk_type := PT_WriteReply, pk_replyAddress := path\<rparr>) rest
            | (True, False) \<Rightarrow>
                parseReadPacket (pk\<lparr>pk_type := PT_Read, pk_targetSpaceWireAddress := path\<rparr>) rest
            | (True, True) \<Rightarrow>
                parseWritePacket (pk\<lparr>pk_type := PT_Write, pk_targetSpaceWireAddress := path\<rparr>) rest)
         }
   }"

section \<open>The reply address field\<close>

lemma take_Suc_drop:
  "head < length p \<Longrightarrow> take (Suc i) (drop head p) = p ! head # take i (drop (Suc head) p)"
  by (simp add: Cons_nth_drop_Suc [symmetric])

lemma scan_reply_address_eq:
  "head + i \<le> length p \<Longrightarrow>
   scan_reply_address p i head head i =
     (let k = length (takeWhile (\<lambda>b. b = 0) (take i (drop head p)))
      in Some (head + i, head + k, i - k))"
proof (induction i arbitrary: head)
  case (Suc i)
  then have h: "head < length p" by simp
  show ?case
  proof (cases "p ! head = 0")
    case True
    with Suc h show ?thesis by (simp add: take_Suc_drop Let_def)
  next
    case False
    with h show ?thesis by (simp add: take_Suc_drop)
  qed
qed simp

lemma parse_reply_address_eq [trap_simps]:
  assumes "head + n \<le> length p"
  shows "parse_reply_address p n head =
     Some (dropWhile (\<lambda>b. b = 0) (take n (drop head p)), head + n)"
proof -
  define f where "f = take n (drop head p)"
  define k where "k = length (takeWhile (\<lambda>b. b = 0) f)"
  have k: "k \<le> n"
    using length_takeWhile_le [of "\<lambda>b. b = 0" f] by (simp add: k_def f_def)
  have "take (n - k) (drop (head + k) p) = drop k f"
    by (simp add: f_def drop_take add.commute)
  also have "\<dots> = dropWhile (\<lambda>b. b = 0) f"
    by (simp add: k_def dropWhile_eq_drop)
  finally show ?thesis
    using assms k
    by (simp add: parse_reply_address_def scan_reply_address_eq Let_def f_def [symmetric] k_def [symmetric])
qed

section \<open>Closed forms of the header parsers\<close>

definition decode_command :: "packet \<Rightarrow> bytes \<Rightarrow> nat \<Rightarrow> packet" where
  "decode_command pk p n = pk\<lparr>
     pk_targetLogicalAddress := p ! 0, pk_instruction := p ! 2, pk_key := p ! 3,
     pk_replyAddress := dropWhile (\<lambda>b. b = 0) (take n (drop 4 p)),
     pk_initiatorLogicalAddress := p ! (4 + n), pk_transactionID := join16 p (5 + n),
     pk_extendedAddress := p ! (7 + n), pk_address := join32 p (8 + n),
     pk_dataLength := join24 p (12 + n)\<rparr>"

abbreviation reply_field_size :: "bytes \<Rightarrow> nat" where
  "reply_field_size p \<equiv> unat (p ! 2 AND 0b00000011) * 4"

lemma parseReadPacket_eq:
  "parseReadPacket pk p = Some (
     if length p < 4 \<or> length p \<noteq> 16 + reply_field_size p then (IncompletePacket, pk)
     else if crc0 p \<noteq> 0 then (HeaderCRCError, pk)
     else if p ! 1 \<noteq> 1 then (UnknownProtocolIdentifier, pk\<lparr>pk_targetLogicalAddress := p ! 0\<rparr>)
     else (Success, decode_command pk p (reply_field_size p)))"
proof (cases "length p < 4")
  case False
  define n where "n = reply_field_size p"
  have at: "span_at p 2 = Some (p ! 2)" using False by simp
  show ?thesis
    using False
    by (simp add: parseReadPacket_def decode_command_def at Let_def join_defs n_def [symmetric] trap_simps)
      (simp add: trap_simps numeral_eq_Suc)
qed (simp add: parseReadPacket_def)

lemma parseWritePacket_eq:
  "parseWritePacket pk p = Some (
     let n = reply_field_size p; l = unat (join24 p (12 + n)); pk' = decode_command pk p n
     in if length p < 4 \<or> length p \<le> 16 + n then (IncompletePacket, pk)
        else if crc0 (take (16 + n) p) \<noteq> 0 then (HeaderCRCError, pk)
        else if p ! 1 \<noteq> 1 then (UnknownProtocolIdentifier, pk\<lparr>pk_targetLogicalAddress := p ! 0\<rparr>)
        else if length p \<noteq> 16 + n + l + 1 then (IncompletePacket, pk')
        else if crc0 (drop (16 + n) p) \<noteq> 0 then (DataCRCError, pk')
        else (Success, pk'\<lparr>pk_data := take l (drop (16 + n) p)\<rparr>))"
proof (cases "length p < 4")
  case False
  define n where "n = reply_field_size p"
  define l where "l = unat (join24 p (12 + n))"
  have at: "span_at p 2 = Some (p ! 2)" using False by simp
  have body: "length p = Suc (16 + n + l) \<Longrightarrow> take (Suc l) (drop (16 + n) p) = drop (16 + n) p"
    by simp
  have "p \<noteq> []" using False by auto
  then show ?thesis
    using False body
    by (simp add: parseWritePacket_def decode_command_def at Let_def join_defs n_def [symmetric] trap_simps)
      (simp add: trap_simps numeral_eq_Suc l_def join_defs)
qed (simp add: parseWritePacket_def)

definition decode_reply :: "packet \<Rightarrow> bytes \<Rightarrow> packet" where
  "decode_reply pk p = pk\<lparr>
     pk_initiatorLogicalAddress := p ! 0, pk_instruction := p ! 2, pk_status := p ! 3,
     pk_targetLogicalAddress := p ! 4, pk_transactionID := join16 p 5\<rparr>"

lemma parseWriteReplyPacket_eq:
  "parseWriteReplyPacket pk p = Some (
     if length p \<noteq> 8 then (IncompletePacket, pk)
     else if crc0 p \<noteq> 0 then (HeaderCRCError, pk)
     else if p ! 1 \<noteq> 1 then (UnknownProtocolIdentifier, pk\<lparr>pk_initiatorLogicalAddress := p ! 0\<rparr>)
     else (Success, decode_reply pk p))"
  by (simp add: parseWriteReplyPacket_def decode_reply_def Let_def join_defs trap_simps numeral_eq_Suc)

lemma parseReadReplyPacket_eq:
  "parseReadReplyPacket pk p = Some (
     let l = unat (join24 p 8); pk' = (decode_reply pk p)\<lparr>pk_dataLength := join24 p 8\<rparr>
     in if length p < 12 then (IncompletePacket, pk)
        else if crc0 (take 12 p) \<noteq> 0 then (HeaderCRCError, pk)
        else if p ! 1 \<noteq> 1
        then (UnknownProtocolIdentifier, pk\<lparr>pk_initiatorLogicalAddress := p ! 0\<rparr>)
        else if length p \<noteq> 12 + l + 1 then (IncompletePacket, pk')
        else if crc0 (drop 12 p) \<noteq> 0 then (DataCRCError, pk')
        else (Success, pk'\<lparr>pk_data := take l (drop 12 p)\<rparr>))"
proof (cases "length p < 12")
  case False
  define l where "l = unat (join24 p 8)"
  have body: "length p = Suc (12 + l) \<Longrightarrow> take (Suc l) (drop 12 p) = drop 12 p"
    by simp
  have "p \<noteq> []" using False by auto
  then show ?thesis
    using False body
    by (simp add: parseReadReplyPacket_def decode_reply_def Let_def join_defs trap_simps)
      (simp add: trap_simps numeral_eq_Suc l_def join_defs)
qed (simp add: parseReadReplyPacket_def)

section \<open>Dispatch\<close>

lemma skip_path_aux_eq:
  "skip_path_aux p h =
     (if \<forall>b \<in> set p. b < 0x20 then None else Some (h + length (takeWhile (\<lambda>b. b < 0x20) p)))"
  by (induction p arbitrary: h) auto

definition dispatch :: "packet \<Rightarrow> bytes \<Rightarrow> bytes \<Rightarrow> (Status \<times> packet) option" where
  "dispatch pk path p =
    (let i = p ! 2; pk = pk\<lparr>pk_instruction := i\<rparr>
     in if i AND 0x40 = 0
        then if i AND 0x20 = 0
             then parseReadReplyPacket (pk\<lparr>pk_type := PT_ReadReply, pk_replyAddress := path\<rparr>) p
             else parseWriteReplyPacket (pk\<lparr>pk_type := PT_WriteReply, pk_replyAddress := path\<rparr>) p
        else if i AND 0x20 = 0
             then parseReadPacket (pk\<lparr>pk_type := PT_Read, pk_targetSpaceWireAddress := path\<rparr>) p
             else parseWritePacket (pk\<lparr>pk_type := PT_Write, pk_targetSpaceWireAddress := path\<rparr>) p)"

lemma parse_split:
  assumes "\<forall>b \<in> set path. b < 0x20" and "rest \<noteq> []" and "\<not> rest ! 0 < 0x20"
  shows "parse pk (path @ rest) =
     (if length rest < 4 then Some (IncompletePacket, pk) else dispatch pk path rest)"
proof -
  obtain b bs where rest: "rest = b # bs" using assms(2) by (cases rest) auto
  with assms have b: "\<not> b < 0x20" by simp
  have "takeWhile (\<lambda>b. b < 0x20) (path @ rest) = path"
    using assms(1) b rest by (simp add: takeWhile_append2)
  with b rest have "skip_path (path @ rest) = Some (Some (length path))"
    by (auto simp: skip_path_def skip_path_aux_eq)
  then show ?thesis
    by (simp add: parse_def dispatch_def Let_def nth_append)
qed

lemma parse_no_logical_address:
  assumes "\<forall>b \<in> set p. b < 0x20" and "p \<noteq> []"
  shows "parse pk p = Some (IncompletePacket, pk)"
  using assms by (simp add: parse_def skip_path_def skip_path_aux_eq)

lemma parse_cases:
  obtains (empty) "p = []" | (path) "p \<noteq> []" "\<forall>b \<in> set p. b < (0x20 :: u8)"
  | (split) path rest where "p = path @ rest" "\<forall>b \<in> set path. b < 0x20" "rest \<noteq> []"
      "\<not> rest ! 0 < 0x20"
proof (cases "p = [] \<or> (\<forall>b \<in> set p. b < 0x20)")
  case False
  define path where "path = takeWhile (\<lambda>b. b < 0x20) p"
  define rest where "rest = dropWhile (\<lambda>b. b < 0x20) p"
  have "p = path @ rest" by (simp add: path_def rest_def)
  moreover have "\<forall>b \<in> set path. b < 0x20" by (auto simp: path_def dest: set_takeWhileD)
  moreover have ne: "rest \<noteq> []" using False by (auto simp: rest_def dropWhile_eq_Nil_conv)
  moreover have "\<not> rest ! 0 < 0x20"
    using hd_dropWhile [of "\<lambda>b. b < 0x20" p] ne by (simp add: rest_def hd_conv_nth)
  ultimately show thesis by (rule split)
qed (auto intro: empty path)

lemma dispatch_total: "\<exists>r. dispatch pk path p = Some r"
  by (simp add: dispatch_def Let_def parseReadReplyPacket_eq parseWriteReplyPacket_eq
      parseReadPacket_eq parseWritePacket_eq)

lemma parse_None_iff: "parse pk p = None \<longleftrightarrow> p = []"
proof (cases rule: parse_cases [of p])
  case empty
  then show ?thesis by (simp add: parse_def skip_path_def)
next
  case path
  then show ?thesis by (simp add: parse_no_logical_address)
next
  case (split path rest)
  with dispatch_total [of pk path rest] show ?thesis by (auto simp: parse_split)
qed

section \<open>Properties\<close>

text \<open>C27. The parser always returns: the only input without a result is the empty span, whose
  first byte it reads.\<close>

theorem parse_total: "(\<exists>st pk'. parse pk p = Some (st, pk')) \<longleftrightarrow> p \<noteq> []"
  using parse_None_iff [of pk p] by (cases "parse pk p") auto

end
