(* ===== verification/Packet_Roundtrip.thy ===== *)
theory Packet_Roundtrip
  imports Packet_Parser
begin

unbundle bit_operations_syntax

text \<open>
  The packets of \<open>Packet_Builder\<close> read back by \<open>Packet_Parser\<close>: what the parser
  holds after reading a packet that a builder laid out, that everything it accepts is such a
  layout, and which damaged packets it refuses. The contract between the two is the locale
  \<open>packet_codec\<close>, interpreted for each of the four builders.
\<close>

section \<open>Formats read back\<close>

lemma crc0_with_crc [simp]: "crc0 (with_crc bs) = 0"
  unfolding with_crc_def by (subst calcCRC_snoc_eq_0) simp

lemma dropWhile_pad_reply:
  "(r = [] \<or> hd r \<noteq> 0) \<Longrightarrow> dropWhile (\<lambda>b. b = 0) (pad_reply r) = r"
  by (cases r) (auto simp: pad_reply_def dropWhile_append)

lemma decode_command_layout:
  assumes "length r = n"
  shows "decode_command pk (command_header t i k r s tid e a l @ rest) n = pk\<lparr>
     pk_targetLogicalAddress := t, pk_instruction := i, pk_key := k,
     pk_replyAddress := dropWhile (\<lambda>b. b = 0) r,
     pk_initiatorLogicalAddress := s, pk_transactionID := tid,
     pk_extendedAddress := e, pk_address := a,
     pk_dataLength := ucast (take_bit 24 l)\<rparr>"
proof -
  define p where "p = command_header t i k r s tid e a l @ rest"
  have p: "p = t # 1 # i # k # r @ s # be16 tid @ e # be32 a @ be24 l @ rest"
    by (simp add: p_def command_header_def)
  have 5: "drop (5 + n) p = be16 tid @ e # be32 a @ be24 l @ rest"
    using assms by (simp add: p eval_nat_numeral)
  have 8: "drop (8 + n) p = be32 a @ be24 l @ rest"
    using assms by (simp add: p eval_nat_numeral be16_def)
  have 12: "drop (12 + n) p = be24 l @ rest"
    using assms by (simp add: p eval_nat_numeral be16_def be32_def)
  have "p ! (4 + n) = s" "p ! (7 + n) = e" "take n (drop 4 p) = r"
    using assms by (simp_all add: p eval_nat_numeral nth_append be16_def)
  then show ?thesis
    unfolding p_def [symmetric] decode_command_def
    by (simp add: join16_at [OF 5] join32_at [OF 8] join24_at [OF 12]) (simp add: p)
qed

lemma decode_reply_layout:
  "decode_reply pk ([s, 1, i, st, t] @ be16 tid @ rest) = pk\<lparr>
     pk_initiatorLogicalAddress := s, pk_instruction := i, pk_status := st,
     pk_targetLogicalAddress := t, pk_transactionID := tid\<rparr>"
proof -
  define p where "p = [s, 1, i, st, t] @ be16 tid @ rest"
  have 5: "drop 5 p = be16 tid @ rest" by (simp add: p_def)
  show ?thesis
    unfolding p_def [symmetric] decode_reply_def by (simp add: join16_at [OF 5]) (simp add: p_def)
qed

text \<open>The bits of the instruction bytes that the parser looks at.\<close>

lemma reply_words_cases:
  "n \<le> 12 \<Longrightarrow> (n + 3) div 4 = 0 \<or> (n + 3) div 4 = 1 \<or> (n + 3) div 4 = 2 \<or> (n + 3) div 4 = (3::nat)"
  by arith

lemma read_instruction_bits:
  assumes "length (rd_replyAddress c) \<le> 12"
  shows "unat (read_instruction c AND 3) = (length (rd_replyAddress c) + 3) div 4"
    and "read_instruction c AND 0x40 \<noteq> 0" and "read_instruction c AND 0x20 = 0"
  using reply_words_cases [OF assms]
  by (elim disjE; cases "rd_incrementMode c"; simp add: read_instruction_def)+

lemma write_instruction_bits:
  assumes "length (wr_replyAddress c) \<le> 12"
  shows "unat (write_instruction c AND 3) = (length (wr_replyAddress c) + 3) div 4"
    and "write_instruction c AND 0x40 \<noteq> 0" and "write_instruction c AND 0x20 \<noteq> 0"
  using reply_words_cases [OF assms]
  by (elim disjE; cases "wr_incrementMode c"; cases "wr_reply c"; cases "wr_verifyMode c";
      simp add: write_instruction_def)+

lemma write_reply_instruction_bits:
  "write_reply_instruction c AND 0x40 = 0" "write_reply_instruction c AND 0x20 \<noteq> 0"
  by (simp_all add: write_reply_instruction_def)

lemma read_reply_instruction_bits:
  "read_reply_instruction c AND 0x40 = 0" "read_reply_instruction c AND 0x20 = 0"
  by (simp_all add: read_reply_instruction_def)

section \<open>Round trips\<close>

text \<open>
  What a configuration must satisfy for its packet to be read back: path bytes below 0x20, a
  logical address of at least 0x20 behind them, a reply address of at most twelve bytes that does
  not start with a zero, and a length that fits 24 bits.
\<close>

definition path_ok :: "bytes \<Rightarrow> bool" where
  "path_ok path \<longleftrightarrow> (\<forall>b \<in> set path. b < 0x20)"

definition reply_ok :: "bytes \<Rightarrow> bool" where
  "reply_ok r \<longleftrightarrow> length r \<le> 12 \<and> (r = [] \<or> hd r \<noteq> 0)"

definition read_wf :: "ReadPacketConfig \<Rightarrow> bool" where
  "read_wf c \<longleftrightarrow> path_ok (rd_targetSpaceWireAddress c) \<and> 0x20 \<le> rd_targetLogicalAddress c \<and>
     reply_ok (rd_replyAddress c) \<and> unat (rd_dataLength c) < 2 ^ 24"

definition write_wf :: "WritePacketConfig \<Rightarrow> bool" where
  "write_wf c \<longleftrightarrow> path_ok (wr_targetSpaceWireAddress c) \<and> 0x20 \<le> wr_targetLogicalAddress c \<and>
     reply_ok (wr_replyAddress c) \<and> length (wr_data c) < 2 ^ 24"

definition write_reply_wf :: "WriteReplyPacketConfig \<Rightarrow> bool" where
  "write_reply_wf c \<longleftrightarrow> path_ok (wrp_replyAddress c) \<and> 0x20 \<le> wrp_initiatorLogicalAddress c"

definition read_reply_wf :: "ReadReplyPacketConfig \<Rightarrow> bool" where
  "read_reply_wf c \<longleftrightarrow> path_ok (rrp_replyAddress c) \<and> 0x20 \<le> rrp_initiatorLogicalAddress c \<and>
     length (rrp_data c) < 2 ^ 24"

text \<open>The packet the parser then holds, as a function of what it held before.\<close>

definition read_decoded :: "ReadPacketConfig \<Rightarrow> packet \<Rightarrow> packet" where
  "read_decoded c pk = pk\<lparr>
     pk_targetSpaceWireAddress := rd_targetSpaceWireAddress c,
     pk_replyAddress := rd_replyAddress c,
     pk_initiatorLogicalAddress := rd_initiatorLogicalAddress c,
     pk_instruction := read_instruction c, pk_key := rd_key c,
     pk_targetLogicalAddress := rd_targetLogicalAddress c,
     pk_transactionID := rd_transactionID c, pk_extendedAddress := rd_extendedAddress c,
     pk_address := rd_address c, pk_dataLength := rd_dataLength c, pk_type := PT_Read\<rparr>"

definition write_decoded :: "WritePacketConfig \<Rightarrow> packet \<Rightarrow> packet" where
  "write_decoded c pk = pk\<lparr>
     pk_targetSpaceWireAddress := wr_targetSpaceWireAddress c,
     pk_replyAddress := wr_replyAddress c,
     pk_initiatorLogicalAddress := wr_initiatorLogicalAddress c,
     pk_instruction := write_instruction c, pk_key := wr_key c,
     pk_targetLogicalAddress := wr_targetLogicalAddress c,
     pk_transactionID := wr_transactionID c, pk_extendedAddress := wr_extendedAddress c,
     pk_address := wr_address c, pk_dataLength := word_of_nat (length (wr_data c)),
     pk_data := wr_data c, pk_type := PT_Write\<rparr>"

definition write_reply_decoded :: "WriteReplyPacketConfig \<Rightarrow> packet \<Rightarrow> packet" where
  "write_reply_decoded c pk = pk\<lparr>
     pk_replyAddress := wrp_replyAddress c,
     pk_initiatorLogicalAddress := wrp_initiatorLogicalAddress c,
     pk_instruction := write_reply_instruction c, pk_status := wrp_status c,
     pk_targetLogicalAddress := wrp_targetLogicalAddress c,
     pk_transactionID := wrp_transactionID c, pk_type := PT_WriteReply\<rparr>"

definition read_reply_decoded :: "ReadReplyPacketConfig \<Rightarrow> packet \<Rightarrow> packet" where
  "read_reply_decoded c pk = pk\<lparr>
     pk_replyAddress := rrp_replyAddress c,
     pk_initiatorLogicalAddress := rrp_initiatorLogicalAddress c,
     pk_instruction := read_reply_instruction c, pk_status := rrp_status c,
     pk_targetLogicalAddress := rrp_targetLogicalAddress c,
     pk_transactionID := rrp_transactionID c,
     pk_dataLength := word_of_nat (length (rrp_data c)), pk_data := rrp_data c,
     pk_type := PT_ReadReply\<rparr>"

lemma take_bit_24_size:
  "ucast (take_bit 24 (word_of_nat n :: u64)) = (word_of_nat (n mod 2 ^ 24) :: u32)"
  by (simp add: word_unat_eq_iff unsigned_ucast_eq unsigned_take_bit_eq unsigned_of_nat
      take_bit_nat_def mod_mod_cancel)

lemma take_bit_24_u32: "unat x < 2 ^ 24 \<Longrightarrow> ucast (take_bit 24 x) = (x :: u32)"
  by (simp add: word_unat_eq_iff unsigned_ucast_eq unsigned_take_bit_eq take_bit_nat_def)

lemma unat_size_24: "n < 2 ^ 24 \<Longrightarrow> unat (word_of_nat n :: u32) = n"
  by (simp add: unsigned_of_nat take_bit_nat_def)

lemma command_header_nth:
  "with_crc (command_header t i k r s tid e a l) ! 0 = t"
  "with_crc (command_header t i k r s tid e a l) ! Suc 0 = 1"
  "with_crc (command_header t i k r s tid e a l) ! 2 = i"
  by (simp_all add: with_crc_def command_header_def)

lemma with_crc_ne [simp]: "with_crc bs \<noteq> []"
  by (simp add: with_crc_def)

text \<open>The parsers on a packet laid out field by field.\<close>

abbreviation command_fields ::
    "packet \<Rightarrow> u8 \<Rightarrow> u8 \<Rightarrow> u8 \<Rightarrow> bytes \<Rightarrow> u8 \<Rightarrow> u16 \<Rightarrow> u8 \<Rightarrow> u32 \<Rightarrow> u32 \<Rightarrow> packet" where
  "command_fields pk t i k r s tid e a l \<equiv> pk\<lparr>
     pk_targetLogicalAddress := t, pk_instruction := i, pk_key := k,
     pk_replyAddress := dropWhile (\<lambda>b. b = 0) r, pk_initiatorLogicalAddress := s,
     pk_transactionID := tid, pk_extendedAddress := e, pk_address := a, pk_dataLength := l\<rparr>"

lemma parseReadPacket_layout:
  assumes "length r = unat (i AND 3) * 4"
  shows "parseReadPacket pk (with_crc (command_header t i k r s tid e a l)) =
     Some (Success, command_fields pk t i k r s tid e a (ucast (take_bit 24 l)))"
  using assms
  by (simp add: parseReadPacket_eq command_header_nth)
    (simp add: with_crc_def decode_command_layout)

lemma parseWritePacket_layout:
  fixes l :: "'a::len word"
  assumes r: "length r = unat (i AND 3) * 4" and "body \<noteq> []"
  defines "m \<equiv> ucast (take_bit 24 l) :: u32"
  shows "parseWritePacket pk (with_crc (command_header t i k r s tid e a l) @ body) =
     (let pk' = command_fields pk t i k r s tid e a m
      in Some (if length body \<noteq> unat m + 1 then (IncompletePacket, pk')
               else if crc0 body \<noteq> 0 then (DataCRCError, pk')
               else (Success, pk'\<lparr>pk_data := take (unat m) body\<rparr>)))"
proof -
  define h where "h = command_header t i k r s tid e a l"
  define n where "n = length r"
  have len: "length (with_crc h) = 16 + n" by (simp add: h_def n_def)
  have dec: "decode_command pk (with_crc h @ body) n = command_fields pk t i k r s tid e a m"
    unfolding with_crc_def h_def m_def n_def by (simp add: decode_command_layout)
  then have "pk_dataLength (decode_command pk (with_crc h @ body) n) = m" by simp
  then have m: "join24 (with_crc h @ body) (12 + n) = m" by (simp add: decode_command_def)
  have i: "(with_crc h @ body) ! 2 = i" "(with_crc h @ body) ! Suc 0 = 1"
    using len by (simp_all add: nth_append h_def command_header_nth)
  have n: "unat (i AND 3) * 4 = n" using r by (simp add: n_def)
  show ?thesis
    unfolding h_def [symmetric] parseWritePacket_eq i n m dec Let_def
    using assms(2) len by (simp add: i)
qed

lemma parseWriteReplyPacket_layout:
  "parseWriteReplyPacket pk (with_crc ([s, 1, i, st, t] @ be16 tid)) =
     Some (Success, pk\<lparr>pk_initiatorLogicalAddress := s, pk_instruction := i, pk_status := st,
       pk_targetLogicalAddress := t, pk_transactionID := tid\<rparr>)"
proof -
  have "decode_reply pk (with_crc ([s, 1, i, st, t] @ be16 tid)) =
      decode_reply pk ([s, 1, i, st, t] @ be16 tid @ [crc0 ([s, 1, i, st, t] @ be16 tid)])"
    by (simp add: with_crc_def)
  then show ?thesis
    unfolding decode_reply_layout
    by (simp add: parseWriteReplyPacket_eq) (simp add: with_crc_def)
qed

lemma parseReadReplyPacket_layout:
  fixes l :: "'a::len word"
  assumes "body \<noteq> []"
  defines "m \<equiv> ucast (take_bit 24 l) :: u32"
  shows "parseReadReplyPacket pk (with_crc ([s, 1, i, st, t] @ be16 tid @ [z] @ be24 l) @ body) =
     (let pk' = pk\<lparr>pk_initiatorLogicalAddress := s, pk_instruction := i, pk_status := st,
        pk_targetLogicalAddress := t, pk_transactionID := tid, pk_dataLength := m\<rparr>
      in Some (if length body \<noteq> unat m + 1 then (IncompletePacket, pk')
               else if crc0 body \<noteq> 0 then (DataCRCError, pk')
               else (Success, pk'\<lparr>pk_data := take (unat m) body\<rparr>)))"
proof -
  define h where "h = [s, 1, i, st, t] @ be16 tid @ [z] @ be24 l"
  have len: "length (with_crc h) = 12" by (simp add: h_def)
  have p: "with_crc h @ body = [s, 1, i, st, t] @ be16 tid @ ([z] @ be24 l @ [crc0 h] @ body)"
    by (simp add: h_def with_crc_def)
  have "drop 8 (with_crc h @ body) = be24 l @ [crc0 h] @ body"
    unfolding p by (simp add: be16_def)
  then have m: "join24 (with_crc h @ body) 8 = m" unfolding m_def by (rule join24_at)
  have dec: "decode_reply pk (with_crc h @ body) = pk\<lparr>pk_initiatorLogicalAddress := s,
      pk_instruction := i, pk_status := st, pk_targetLogicalAddress := t, pk_transactionID := tid\<rparr>"
    unfolding p by (rule decode_reply_layout)
  have i: "(with_crc h @ body) ! 1 = 1" unfolding p by simp
  show ?thesis
    unfolding h_def [symmetric] parseReadReplyPacket_eq m dec i Let_def
    using assms(1) len by simp
qed


text \<open>Reading back what the builders' formats lay out.\<close>

lemma command_header_nth_append [simp]:
  "(with_crc (command_header t i k r s tid e a l) @ body) ! 0 = t"
  "(with_crc (command_header t i k r s tid e a l) @ body) ! 2 = i"
  by (simp_all add: nth_append command_header_nth)

lemma parse_read_command:
  assumes "path_ok path" "0x20 \<le> t" "i AND 0x40 \<noteq> 0" "i AND 0x20 = 0"
  shows "parse pk (path @ with_crc (command_header t i k r s tid e a l)) =
     parseReadPacket (pk\<lparr>pk_instruction := i, pk_type := PT_Read, pk_targetSpaceWireAddress := path\<rparr>)
       (with_crc (command_header t i k r s tid e a l))"
  using assms
  by (subst parse_split)
    (simp_all add: path_ok_def not_less command_header_nth dispatch_def Let_def)

lemma parse_write_command:
  assumes "path_ok path" "0x20 \<le> t" "i AND 0x40 \<noteq> 0" "i AND 0x20 \<noteq> 0"
  shows "parse pk (path @ with_crc (command_header t i k r s tid e a l) @ body) =
     parseWritePacket (pk\<lparr>pk_instruction := i, pk_type := PT_Write, pk_targetSpaceWireAddress := path\<rparr>)
       (with_crc (command_header t i k r s tid e a l) @ body)"
  using assms
  by (subst parse_split) (simp_all add: path_ok_def not_less dispatch_def Let_def)

lemma parse_read_packet:
  assumes "read_wf c"
  shows "parse pk (read_packet c) = Some (Success, read_decoded c pk)"
proof -
  have wf: "path_ok (rd_targetSpaceWireAddress c)" "0x20 \<le> rd_targetLogicalAddress c"
    "length (rd_replyAddress c) \<le> 12" "rd_replyAddress c = [] \<or> hd (rd_replyAddress c) \<noteq> 0"
    "unat (rd_dataLength c) < 2 ^ 24"
    using assms by (simp_all add: read_wf_def reply_ok_def)
  note bits = read_instruction_bits [OF wf(3)]
  show ?thesis
    unfolding read_packet_def read_decoded_def parse_read_command [OF wf(1,2) bits(2,3)]
    using wf(4,5) by (subst parseReadPacket_layout) (simp_all add: bits dropWhile_pad_reply
      take_bit_24_u32 [simplified])
qed

lemma mod_24_eq_iff: "n mod 2 ^ 24 = n \<longleftrightarrow> n < 2 ^ 24" for n :: nat
  by (metis mod_less mod_less_divisor zero_less_numeral zero_less_power)

text \<open>Data of \<open>2 ^ 24\<close> bytes and more is truncated in the length field, and then refused.\<close>

lemma parse_write_packet_gen:
  assumes "path_ok (wr_targetSpaceWireAddress c)" and "0x20 \<le> wr_targetLogicalAddress c"
    and "reply_ok (wr_replyAddress c)"
  shows "parse pk (write_packet c) =
     Some (if length (wr_data c) < 2 ^ 24 then (Success, write_decoded c pk)
           else (IncompletePacket, (write_decoded c pk)\<lparr>pk_data := pk_data pk,
                   pk_dataLength := word_of_nat (length (wr_data c) mod 2 ^ 24)\<rparr>))"
proof -
  have wf: "length (wr_replyAddress c) \<le> 12" "wr_replyAddress c = [] \<or> hd (wr_replyAddress c) \<noteq> 0"
    using assms by (simp_all add: reply_ok_def)
  note bits = write_instruction_bits [OF wf(1)]
  define n where "n = length (wr_data c)"
  have m: "unat (word_of_nat (n mod 2 ^ 24) :: u32) = n mod 2 ^ 24"
    by (rule unat_size_24) simp
  have take: "take n (with_crc (wr_data c)) = wr_data c" by (simp add: n_def with_crc_def)
  have len: "length (with_crc (wr_data c)) = n + 1" by (simp add: n_def)
  have iff: "n + 1 \<noteq> n mod 2 ^ 24 + 1 \<longleftrightarrow> \<not> n < 2 ^ 24"
    using mod_24_eq_iff [of n] by linarith
  have r: "length (pad_reply (wr_replyAddress c)) = unat (write_instruction c AND 3) * 4"
    by (simp add: bits)
  show ?thesis
    unfolding write_packet_def write_decoded_def n_def [symmetric]
      parse_write_command [OF assms(1,2) bits(2,3)]
      parseWritePacket_layout [OF r with_crc_ne] take_bit_24_size m len iff Let_def
      dropWhile_pad_reply [OF wf(2)]
    by (cases "n < 2 ^ 24") (simp_all add: take)
qed

lemma parse_read_reply_packet_gen:
  assumes "path_ok (rrp_replyAddress c)" and "0x20 \<le> rrp_initiatorLogicalAddress c"
  shows "parse pk (read_reply_packet c) =
     Some (if length (rrp_data c) < 2 ^ 24 then (Success, read_reply_decoded c pk)
           else (IncompletePacket, (read_reply_decoded c pk)\<lparr>pk_data := pk_data pk,
                   pk_dataLength := word_of_nat (length (rrp_data c) mod 2 ^ 24)\<rparr>))"
proof -
  define n where "n = length (rrp_data c)"
  define h where "h = [rrp_initiatorLogicalAddress c, 1, read_reply_instruction c,
       rrp_status c, rrp_targetLogicalAddress c] @ be16 (rrp_transactionID c) @
       [0] @ be24 (word_of_nat n :: u64)"
  have m: "unat (word_of_nat (n mod 2 ^ 24) :: u32) = n mod 2 ^ 24"
    by (rule unat_size_24) simp
  have take: "take n (with_crc (rrp_data c)) = rrp_data c" by (simp add: n_def with_crc_def)
  have len: "length (with_crc (rrp_data c)) = n + 1" by (simp add: n_def)
  have iff: "n + 1 \<noteq> n mod 2 ^ 24 + 1 \<longleftrightarrow> \<not> n < 2 ^ 24"
    using mod_24_eq_iff [of n] by linarith
  have split: "parse pk (read_reply_packet c) =
      parseReadReplyPacket (pk\<lparr>pk_instruction := read_reply_instruction c, pk_type := PT_ReadReply,
        pk_replyAddress := rrp_replyAddress c\<rparr>) (with_crc h @ with_crc (rrp_data c))"
  proof -
    have "(with_crc h @ with_crc (rrp_data c)) ! 0 = rrp_initiatorLogicalAddress c"
      "(with_crc h @ with_crc (rrp_data c)) ! 2 = read_reply_instruction c"
      by (simp_all add: h_def with_crc_def [of "_ # _"])
    then show ?thesis
      unfolding read_reply_packet_def n_def [symmetric] h_def [symmetric]
      using assms
      by (subst parse_split)
        (simp_all add: path_ok_def not_less dispatch_def Let_def read_reply_instruction_bits h_def)
  qed
  show ?thesis
    unfolding split unfolding h_def parseReadReplyPacket_layout [OF with_crc_ne] take_bit_24_size
      m len iff Let_def read_reply_decoded_def n_def [symmetric]
    by (cases "n < 2 ^ 24") (simp_all add: take)
qed

lemma parse_write_reply_packet:
  assumes "write_reply_wf c"
  shows "parse pk (write_reply_packet c) = Some (Success, write_reply_decoded c pk)"
  using assms unfolding write_reply_packet_def
  by (subst parse_split)
    (auto simp: write_reply_wf_def path_ok_def not_less dispatch_def Let_def
      write_reply_instruction_bits write_reply_decoded_def with_crc_def
      parseWriteReplyPacket_layout [simplified with_crc_def, simplified])

lemma parse_write_packet: "write_wf c \<Longrightarrow> parse pk (write_packet c) = Some (Success, write_decoded c pk)"
  by (simp add: write_wf_def parse_write_packet_gen)

lemma parse_read_reply_packet:
  "read_reply_wf c \<Longrightarrow> parse pk (read_reply_packet c) = Some (Success, read_reply_decoded c pk)"
  by (simp add: read_reply_wf_def parse_read_reply_packet_gen)


section \<open>The contract between a builder and the parser\<close>

text \<open>
  A builder is \<open>getTotalSize\<close> and \<open>build\<close>; what it writes is \<open>encode\<close>, for the
  configurations that are \<open>admissible\<close>, and the parser reads the well-formed ones back.
\<close>

locale packet_codec =
  fixes getTotalSize :: "'c \<Rightarrow> nat"
    and build :: "'c \<Rightarrow> bytes \<Rightarrow> ((error_code + nat) \<times> bytes) option"
    and encode :: "'c \<Rightarrow> bytes"
    and admissible :: "'c \<Rightarrow> bool"
    and wf :: "'c \<Rightarrow> bool"
    and decoded :: "'c \<Rightarrow> packet \<Rightarrow> packet"
  assumes length_encode: "length (encode c) = getTotalSize c"
    and build_small: "length out < getTotalSize c \<Longrightarrow>
      build c out = Some (Inl (Generic no_buffer_space), out)"
    and build_encode: "getTotalSize c \<le> length out \<Longrightarrow> getTotalSize c \<le> INT_MAX \<Longrightarrow> admissible c \<Longrightarrow>
      build c out = Some (Inr (getTotalSize c), encode c @ drop (getTotalSize c) out)"
    and wf_admissible: "wf c \<Longrightarrow> admissible c"
    and parse_encode: "wf c \<Longrightarrow> parse pk (encode c) = Some (Success, decoded c pk)"
begin

lemma build_result:
  assumes "admissible c" "getTotalSize c \<le> INT_MAX"
  shows "build c out =
     Some (if getTotalSize c \<le> length out
           then (Inr (getTotalSize c), encode c @ drop (getTotalSize c) out)
           else (Inl (Generic no_buffer_space), out))"
  using assms by (simp add: build_small build_encode)

lemma build_keeps_length:
  assumes "admissible c" "getTotalSize c \<le> INT_MAX" "build c out = Some (r, out')"
  shows "length out' = length out"
  using assms by (auto simp: build_result length_encode split: if_splits)

lemma build_span:
  assumes "admissible c" "getTotalSize c \<le> INT_MAX" "build c out = Some (Inr n, out')"
  shows "n = getTotalSize c \<and> n \<le> length out \<and> take n out' = encode c \<and> drop n out' = drop n out"
  using assms by (auto simp: build_result length_encode split: if_splits)

lemma build_parse:
  assumes "wf c" "getTotalSize c \<le> INT_MAX" "build c out = Some (Inr n, out')"
  shows "parse pk (take n out') = Some (Success, decoded c pk)"
  using build_span [OF wf_admissible [OF assms(1)] assms(2,3)] parse_encode [OF assms(1)] by metis

lemma encode_decoded_inj:
  assumes "wf c" "wf d" "encode c = encode d"
  shows "decoded c pk = decoded d pk"
  using parse_encode [OF assms(1), of pk] parse_encode [OF assms(2), of pk] assms(3) by simp

end

interpretation read_codec: packet_codec ReadPacketBuilder_getTotalSize ReadPacketBuilder_build
  read_packet "\<lambda>c. length (rd_replyAddress c) \<le> 12" read_wf read_decoded
  by unfold_locales
    (simp_all add: length_read_packet build_no_buffer_space ReadPacketBuilder_build_ok
      parse_read_packet, simp add: read_wf_def reply_ok_def)

interpretation write_codec: packet_codec WritePacketBuilder_getTotalSize WritePacketBuilder_build
  write_packet "\<lambda>c. length (wr_replyAddress c) \<le> 12" write_wf write_decoded
  by unfold_locales
    (simp_all add: length_write_packet build_no_buffer_space WritePacketBuilder_build_ok
      parse_write_packet, simp add: write_wf_def reply_ok_def)

interpretation write_reply_codec: packet_codec WriteReplyPacketBuilder_getTotalSize
  WriteReplyPacketBuilder_build write_reply_packet "\<lambda>c. True" write_reply_wf write_reply_decoded
  by unfold_locales
    (simp_all add: length_write_reply_packet build_no_buffer_space WriteReplyPacketBuilder_build_ok
      parse_write_reply_packet)

interpretation read_reply_codec: packet_codec ReadReplyPacketBuilder_getTotalSize
  ReadReplyPacketBuilder_build read_reply_packet "\<lambda>c. True" read_reply_wf read_reply_decoded
  by unfold_locales
    (simp_all add: length_read_reply_packet build_no_buffer_space ReadReplyPacketBuilder_build_ok
      parse_read_reply_packet)

section \<open>What the parser accepts\<close>

text \<open>
  The bytes a parsed packet stands for. The reserved byte of a read reply is neither checked nor
  stored, so it is an argument.
\<close>

definition reply_field :: "packet \<Rightarrow> bytes" where
  "reply_field pk =
     replicate (unat (pk_instruction pk AND 3) * 4 - length (pk_replyAddress pk)) 0 @ pk_replyAddress pk"

definition command_bytes :: "packet \<Rightarrow> bytes" where
  "command_bytes pk = pk_targetSpaceWireAddress pk @
     with_crc (command_header (pk_targetLogicalAddress pk) (pk_instruction pk) (pk_key pk)
       (reply_field pk) (pk_initiatorLogicalAddress pk) (pk_transactionID pk)
       (pk_extendedAddress pk) (pk_address pk) (pk_dataLength pk))"

definition reply_header :: "packet \<Rightarrow> bytes" where
  "reply_header pk = [pk_initiatorLogicalAddress pk, 1, pk_instruction pk, pk_status pk,
     pk_targetLogicalAddress pk] @ be16 (pk_transactionID pk)"

definition packet_bytes :: "u8 \<Rightarrow> packet \<Rightarrow> bytes" where
  "packet_bytes z pk = (case pk_type pk of
       PT_Undefined \<Rightarrow> []
     | PT_Read \<Rightarrow> command_bytes pk
     | PT_Write \<Rightarrow> command_bytes pk @ with_crc (pk_data pk)
     | PT_WriteReply \<Rightarrow> pk_replyAddress pk @ with_crc (reply_header pk)
     | PT_ReadReply \<Rightarrow> pk_replyAddress pk @
         with_crc (reply_header pk @ [z] @ be24 (pk_dataLength pk)) @ with_crc (pk_data pk))"

lemma with_crc_take:
  assumes "crc0 p = 0" "length p = Suc n"
  shows "p = with_crc (take n p)"
proof -
  have "p = take n p @ [p ! n]" using assms(2) by (metis lessI take_Suc_conv_app_nth take_all_iff order_refl)
  moreover then have "p ! n = crc0 (take n p)" using assms(1) by (metis calcCRC_snoc_eq_0)
  ultimately show ?thesis by (simp add: with_crc_def)
qed

lemma replicate_dropWhile:
  assumes "length r = n"
  shows "replicate (n - length (dropWhile (\<lambda>b. b = 0) r)) 0 @ dropWhile (\<lambda>b. b = 0) r = r"
proof -
  have "takeWhile (\<lambda>b. b = 0) r = replicate (length (takeWhile (\<lambda>b. b = 0) r)) 0"
    by (rule replicate_eqI [symmetric, THEN sym]) (auto dest: set_takeWhileD)
  moreover have "length (takeWhile (\<lambda>b. b = 0) r) = n - length (dropWhile (\<lambda>b. b = 0) r)"
    using assms by (metis add_diff_cancel_right' length_append takeWhile_dropWhile_id)
  ultimately show ?thesis by (metis takeWhile_dropWhile_id)
qed

lemma take_drop_nth:
  "h < length p \<Longrightarrow> drop h p = p ! h # drop (Suc h) p"
  by (simp add: Cons_nth_drop_Suc)

lemma be16_join: "Suc h < length p \<Longrightarrow> drop h p = be16 (join16 p h) @ drop (h + 2) p"
  by (simp add: join16_def be16_or_shl take_drop_nth)

lemma be24_join: "Suc (Suc h) < length p \<Longrightarrow> drop h p = be24 (join24 p h) @ drop (h + 3) p"
  unfolding join24_def be24_or_shl by (simp add: take_drop_nth numeral_eq_Suc)

lemma be32_join: "Suc (Suc (Suc h)) < length p \<Longrightarrow> drop h p = be32 (join32 p h) @ drop (h + 4) p"
  unfolding join32_def be32_or_shl by (simp add: take_drop_nth numeral_eq_Suc)

lemma command_header_decode:
  assumes "length p = 15 + n" "p ! 1 = 1"
  shows "p = command_header (p ! 0) (p ! 2) (p ! 3) (take n (drop 4 p)) (p ! (4 + n))
     (join16 p (5 + n)) (p ! (7 + n)) (join32 p (8 + n)) (join24 p (12 + n))"
proof -
  have "p = [p ! 0, 1, p ! 2, p ! 3] @ drop 4 p"
    using assms take_drop_nth [of 0 p] take_drop_nth [of 1 p] take_drop_nth [of 2 p] take_drop_nth [of 3 p]
    by (simp add: numeral_eq_Suc)
  moreover have "drop 4 p = take n (drop 4 p) @ drop (4 + n) p"
    by (metis append_take_drop_id drop_drop add.commute)
  moreover have "drop (4 + n) p = p ! (4 + n) # drop (5 + n) p"
    using assms take_drop_nth [of "4 + n" p] by simp
  moreover have "drop (5 + n) p = be16 (join16 p (5 + n)) @ drop (7 + n) p"
    using assms be16_join [of "5 + n" p] by (simp add: add.commute)
  moreover have "drop (7 + n) p = p ! (7 + n) # drop (8 + n) p"
    using assms take_drop_nth [of "7 + n" p] by simp
  moreover have "drop (8 + n) p = be32 (join32 p (8 + n)) @ drop (12 + n) p"
    using assms be32_join [of "8 + n" p] by (simp add: add.commute)
  moreover have "drop (12 + n) p = be24 (join24 p (12 + n))"
    using assms be24_join [of "12 + n" p] by simp
  ultimately show ?thesis
    unfolding command_header_def by (metis append.assoc append_Cons append_Nil)
qed

lemma decode_command_bytes:
  assumes "length p = 16 + n" "crc0 p = 0" "p ! 1 = 1" "n = unat (p ! 2 AND 3) * 4"
    and "pk' = decode_command pk p n"
  shows "command_bytes pk' = pk_targetSpaceWireAddress pk @ p"
proof -
  define h where "h = take (15 + n) p"
  have p: "p = with_crc h" using with_crc_take [OF assms(2), of "15 + n"] assms(1) by (simp add: h_def)
  have h: "length h = 15 + n" using assms(1) by (simp add: h_def)
  have nth: "p ! j = h ! j" if "j < 15 + n" for j using that by (simp add: h_def)
  have td: "take n (drop 4 p) = take n (drop 4 h)" by (simp add: h_def drop_take)
  have "h = command_header (p ! 0) (p ! 2) (p ! 3) (take n (drop 4 p)) (p ! (4 + n))
     (join16 p (5 + n)) (p ! (7 + n)) (join32 p (8 + n)) (join24 p (12 + n))"
    unfolding td using command_header_decode [OF h] assms(3) by (simp add: nth join_defs)
  then have eq: "with_crc (command_header (p ! 0) (p ! 2) (p ! 3) (take n (drop 4 p)) (p ! (4 + n))
     (join16 p (5 + n)) (p ! (7 + n)) (join32 p (8 + n)) (join24 p (12 + n))) = p"
    using p by simp
  have "reply_field pk' = take n (drop 4 p)"
    unfolding reply_field_def assms(5) decode_command_def
    using assms(1,4) replicate_dropWhile [of "take n (drop 4 p)" n] by simp
  then show ?thesis
    unfolding command_bytes_def using eq unfolding assms(5) by (simp add: decode_command_def)
qed

lemma decode_reply_header:
  assumes "7 \<le> length p" "p ! 1 = 1"
  shows "take 7 p = reply_header (decode_reply pk p)"
proof -
  have "p \<noteq> []" using assms(1) by auto
  then have "p = [p ! 0, 1, p ! 2, p ! 3, p ! 4] @ be16 (join16 p 5) @ drop 7 p"
    using assms take_drop_nth [of 0 p] take_drop_nth [of 1 p] take_drop_nth [of 2 p]
      take_drop_nth [of 3 p] take_drop_nth [of 4 p] be16_join [of 5 p]
    by (simp add: numeral_eq_Suc)
  then have "take 7 p = take 7 ([p ! 0, 1, p ! 2, p ! 3, p ! 4] @ be16 (join16 p 5) @ drop 7 p)"
    by simp
  then show ?thesis by (simp add: reply_header_def decode_reply_def)
qed

lemma parseReadPacket_sound:
  assumes "parseReadPacket pk p = Some (Success, pk')"
  shows "command_bytes pk' = pk_targetSpaceWireAddress pk @ p" "pk_type pk' = pk_type pk"
proof -
  have "length p = 16 + reply_field_size p" "crc0 p = 0" "p ! 1 = 1"
    and pk': "pk' = decode_command pk p (reply_field_size p)"
    using assms unfolding parseReadPacket_eq by (simp_all split: if_splits)
  then show "command_bytes pk' = pk_targetSpaceWireAddress pk @ p"
    by (intro decode_command_bytes) auto
  show "pk_type pk' = pk_type pk" using pk' by (simp add: decode_command_def)
qed

lemma join24_take: "h + 3 \<le> n \<Longrightarrow> join24 (take n p) h = join24 p h"
  by (simp add: join24_def)

lemma decode_command_take:
  "16 + n \<le> m \<Longrightarrow> decode_command pk (take m p) n = decode_command pk p n"
  by (simp add: decode_command_def join_defs drop_take min_def)

lemma decode_reply_take: "7 \<le> m \<Longrightarrow> decode_reply pk (take m p) = decode_reply pk p"
  by (simp add: decode_reply_def join_defs)

lemma parseWritePacket_sound:
  assumes "parseWritePacket pk p = Some (Success, pk')"
  shows "command_bytes pk' @ with_crc (pk_data pk') = pk_targetSpaceWireAddress pk @ p"
    "pk_type pk' = pk_type pk" "length (pk_data pk') = unat (pk_dataLength pk')"
proof -
  define n where "n = reply_field_size p"
  define l where "l = unat (join24 p (12 + n))"
  have len: "length p = 16 + n + l + 1" and crc: "crc0 (take (16 + n) p) = 0" and prot: "p ! 1 = 1"
    and body: "crc0 (drop (16 + n) p) = 0"
    and pk': "pk' = (decode_command pk p n)\<lparr>pk_data := take l (drop (16 + n) p)\<rparr>"
    using assms unfolding parseWritePacket_eq n_def l_def Let_def by (simp_all split: if_splits)
  have "command_bytes (decode_command pk (take (16 + n) p) n) =
      pk_targetSpaceWireAddress pk @ take (16 + n) p"
    using len crc prot by (intro decode_command_bytes) (auto simp: n_def)
  then have "command_bytes pk' = pk_targetSpaceWireAddress pk @ take (16 + n) p"
    by (simp add: decode_command_take pk' command_bytes_def reply_field_def)
  moreover have "drop (16 + n) p = with_crc (pk_data pk')"
    unfolding pk' using with_crc_take [OF body, of l] len by simp
  ultimately show "command_bytes pk' @ with_crc (pk_data pk') = pk_targetSpaceWireAddress pk @ p"
    by (metis append.assoc append_take_drop_id)
  show "pk_type pk' = pk_type pk" "length (pk_data pk') = unat (pk_dataLength pk')"
    using len by (simp_all add: pk' decode_command_def l_def)
qed

lemma parseWriteReplyPacket_sound:
  assumes "parseWriteReplyPacket pk p = Some (Success, pk')"
  shows "with_crc (reply_header pk') = p" "pk_type pk' = pk_type pk"
    "pk_replyAddress pk' = pk_replyAddress pk"
proof -
  have len: "length p = 8" "crc0 p = 0" "p ! 1 = 1" and pk': "pk' = decode_reply pk p"
    using assms unfolding parseWriteReplyPacket_eq by (simp_all split: if_splits)
  then show "with_crc (reply_header pk') = p"
    using with_crc_take [of p 7] decode_reply_header [of p pk] by simp
  show "pk_type pk' = pk_type pk" "pk_replyAddress pk' = pk_replyAddress pk"
    by (simp_all add: pk' decode_reply_def)
qed

lemma parseReadReplyPacket_sound:
  assumes "parseReadReplyPacket pk p = Some (Success, pk')"
  shows "with_crc (reply_header pk' @ [p ! 7] @ be24 (pk_dataLength pk')) @ with_crc (pk_data pk') = p"
    "pk_type pk' = pk_type pk" "pk_replyAddress pk' = pk_replyAddress pk"
    "length (pk_data pk') = unat (pk_dataLength pk')"
proof -
  define l where "l = unat (join24 p 8)"
  have len: "length p = 12 + l + 1" and crc: "crc0 (take 12 p) = 0" and prot: "p ! 1 = 1"
    and body: "crc0 (drop 12 p) = 0"
    and pk': "pk' = (decode_reply pk p)\<lparr>pk_dataLength := join24 p 8, pk_data := take l (drop 12 p)\<rparr>"
    using assms unfolding parseReadReplyPacket_eq l_def Let_def by (simp_all split: if_splits)
  have hdr: "take 7 p = reply_header pk'"
    using len prot decode_reply_header [of p pk] by (simp add: pk' reply_header_def)
  have "take 11 p = take 7 p @ take 4 (drop 7 p)"
    using take_add [of 7 4 p] by simp
  also have "take 4 (drop 7 p) = p ! 7 # be24 (join24 p 8)"
    using len take_drop_nth [of 7 p] be24_join [of 8 p] by simp
  finally have "take 12 p = with_crc (reply_header pk' @ [p ! 7] @ be24 (pk_dataLength pk'))"
    using with_crc_take [OF crc, of 11] len by (simp add: hdr) (simp add: pk')
  moreover have "drop 12 p = with_crc (pk_data pk')"
    unfolding pk' using with_crc_take [OF body, of l] len by simp
  ultimately show
    "with_crc (reply_header pk' @ [p ! 7] @ be24 (pk_dataLength pk')) @ with_crc (pk_data pk') = p"
    by (metis append_take_drop_id)
  show "pk_type pk' = pk_type pk" "pk_replyAddress pk' = pk_replyAddress pk"
    "length (pk_data pk') = unat (pk_dataLength pk')"
    using len by (simp_all add: pk' decode_reply_def l_def)
qed

lemma dispatch_sound:
  assumes "dispatch pk path p = Some (Success, pk')"
  shows "packet_bytes (p ! 7) pk' = path @ p"
proof (cases "p ! 2 AND 0x40 = 0"; cases "p ! 2 AND 0x20 = 0")
  assume i: "p ! 2 AND 0x40 = 0" "p ! 2 AND 0x20 = 0"
  from assms have "parseReadReplyPacket (pk\<lparr>pk_instruction := p ! 2, pk_type := PT_ReadReply,
      pk_replyAddress := path\<rparr>) p = Some (Success, pk')" by (simp add: dispatch_def i Let_def)
  from parseReadReplyPacket_sound [OF this] show ?thesis by (simp add: packet_bytes_def)
next
  assume i: "p ! 2 AND 0x40 = 0" "p ! 2 AND 0x20 \<noteq> 0"
  from assms have "parseWriteReplyPacket (pk\<lparr>pk_instruction := p ! 2, pk_type := PT_WriteReply,
      pk_replyAddress := path\<rparr>) p = Some (Success, pk')" by (simp add: dispatch_def i Let_def)
  from parseWriteReplyPacket_sound [OF this] show ?thesis by (simp add: packet_bytes_def)
next
  assume i: "p ! 2 AND 0x40 \<noteq> 0" "p ! 2 AND 0x20 = 0"
  from assms have "parseReadPacket (pk\<lparr>pk_instruction := p ! 2, pk_type := PT_Read,
      pk_targetSpaceWireAddress := path\<rparr>) p = Some (Success, pk')" by (simp add: dispatch_def i Let_def)
  from parseReadPacket_sound [OF this] show ?thesis by (simp add: packet_bytes_def)
next
  assume i: "p ! 2 AND 0x40 \<noteq> 0" "p ! 2 AND 0x20 \<noteq> 0"
  from assms have "parseWritePacket (pk\<lparr>pk_instruction := p ! 2, pk_type := PT_Write,
      pk_targetSpaceWireAddress := path\<rparr>) p = Some (Success, pk')" by (simp add: dispatch_def i Let_def)
  from parseWritePacket_sound [OF this] show ?thesis by (simp add: packet_bytes_def)
qed

lemma parse_accepts:
  assumes "parse pk p = Some (Success, pk')"
  obtains path rest where "p = path @ rest" "\<forall>b \<in> set path. b < 0x20" "rest \<noteq> []"
    "\<not> rest ! 0 < 0x20" "dispatch pk path rest = Some (Success, pk')"
proof (cases rule: parse_cases [of p])
  case (split path rest)
  with assms that show ?thesis by (auto simp: parse_split split: if_splits)
qed (use assms in \<open>auto simp: parse_no_logical_address parse_None_iff [THEN iffD2]\<close>)

section \<open>Damaged packets\<close>

lemma crc0_update_ne:
  "crc0 p = 0 \<Longrightarrow> i < length p \<Longrightarrow> b \<noteq> p ! i \<Longrightarrow> crc0 (p[i := b]) \<noteq> 0"
  using calcCRC_update_inj [of i p b 0] by simp

lemma parseReadPacket_corrupt:
  assumes "parseReadPacket pk p = Some (Success, pk')" "i < length p" "b \<noteq> p ! i"
  shows "parseReadPacket q (p[i := b]) \<noteq> Some (Success, q')"
  using assms crc0_update_ne [of p i b] unfolding parseReadPacket_eq by (auto split: if_splits)

lemma parseWriteReplyPacket_corrupt:
  assumes "parseWriteReplyPacket pk p = Some (Success, pk')" "i < length p" "b \<noteq> p ! i"
  shows "parseWriteReplyPacket q (p[i := b]) \<noteq> Some (Success, q')"
  using assms crc0_update_ne [of p i b] unfolding parseWriteReplyPacket_eq by (auto split: if_splits)

lemma crc_split_corrupt:
  assumes "crc0 (take m p) = 0" "crc0 (drop m p) = 0" "i < length p" "b \<noteq> p ! i"
  shows "crc0 (take m (p[i := b])) \<noteq> 0 \<or> crc0 (drop m (p[i := b])) \<noteq> 0"
proof (cases "i < m")
  case True
  then show ?thesis using assms crc0_update_ne [of "take m p" i b] by (simp add: take_update_swap)
next
  case False
  then show ?thesis
    using assms crc0_update_ne [of "drop m p" "i - m" b] by (simp add: drop_update_swap)
qed

lemma parseReadReplyPacket_corrupt:
  assumes "parseReadReplyPacket pk p = Some (Success, pk')" "i < length p" "b \<noteq> p ! i"
  shows "parseReadReplyPacket q (p[i := b]) \<noteq> Some (Success, q')"
proof -
  have "crc0 (take 12 p) = 0" "crc0 (drop 12 p) = 0"
    using assms(1) unfolding parseReadReplyPacket_eq Let_def by (simp_all split: if_splits)
  from crc_split_corrupt [OF this assms(2,3)] show ?thesis
    unfolding parseReadReplyPacket_eq Let_def by auto
qed

lemma parseWritePacket_corrupt:
  assumes "parseWritePacket pk p = Some (Success, pk')" "i < length p" "b \<noteq> p ! i" "i \<noteq> 2"
  shows "parseWritePacket q (p[i := b]) \<noteq> Some (Success, q')"
proof -
  define n where "n = reply_field_size p"
  have "crc0 (take (16 + n) p) = 0" "crc0 (drop (16 + n) p) = 0"
    using assms(1) unfolding parseWritePacket_eq Let_def n_def by (simp_all split: if_splits)
  from crc_split_corrupt [OF this assms(2,3)] show ?thesis
    using assms(4) unfolding parseWritePacket_eq Let_def by (auto simp: n_def)
qed

lemma dispatch_corrupt:
  assumes "dispatch pk path p = Some (Success, pk')" "i < length p" "b \<noteq> p ! i" "i \<noteq> 2"
  shows "dispatch q path' (p[i := b]) \<noteq> Some (Success, q')"
  using assms unfolding dispatch_def Let_def
  by (auto simp: parseReadPacket_corrupt parseWritePacket_corrupt parseWriteReplyPacket_corrupt
      parseReadReplyPacket_corrupt split: if_splits)

lemma dispatch_path:
  assumes "dispatch pk path p = Some (Success, pk')"
  shows "\<exists>pk''. dispatch q path' p = Some (Success, pk'')"
  using assms unfolding dispatch_def Let_def
  by (auto simp: parseReadPacket_eq parseWritePacket_eq parseWriteReplyPacket_eq parseReadReplyPacket_eq Let_def
      split: if_splits)

section \<open>Properties\<close>

text \<open>C11. Whatever was in the buffer, a read command built into it for a well-formed
  configuration is read back by the parser as exactly that configuration; the build uses
  \<open>getTotalSize\<close> bytes and leaves the rest of the buffer alone.\<close>

theorem read_command_roundtrip:
  assumes "read_wf c" and "ReadPacketBuilder_getTotalSize c \<le> INT_MAX"
    and "ReadPacketBuilder_getTotalSize c \<le> length out"
  shows "\<exists>n out'. ReadPacketBuilder_build c out = Some (Inr n, out') \<and>
     n = ReadPacketBuilder_getTotalSize c \<and> drop n out' = drop n out \<and>
     parse pk (take n out') = Some (Success, read_decoded c pk)"
  using assms read_codec.wf_admissible [OF assms(1)]
  by (auto simp: read_codec.build_result read_codec.length_encode parse_read_packet)

definition sample_read :: ReadPacketConfig where
  "sample_read = \<lparr>rd_targetSpaceWireAddress = [3, 7], rd_replyAddress = [1, 2, 5],
     rd_targetLogicalAddress = 0xFE, rd_initiatorLogicalAddress = 0x67, rd_transactionID = 0x1234,
     rd_extendedAddress = 0, rd_address = 0xDEADBEEF, rd_dataLength = 16, rd_key = 2,
     rd_incrementMode = True\<rparr>"

theorem read_command_roundtrip_witness:
  "read_wf sample_read \<and> (\<exists>n out'. ReadPacketBuilder_build sample_read (replicate 24 0xAA) = Some (Inr n, out') \<and>
     n = 22 \<and> drop n out' = replicate 2 0xAA \<and>
     parse empty_packet (take n out') = Some (Success, read_decoded sample_read empty_packet))"
proof -
  have wf: "read_wf sample_read"
    by (simp add: read_wf_def path_ok_def reply_ok_def sample_read_def)
  have n: "ReadPacketBuilder_getTotalSize sample_read = 22"
    by (simp add: ReadPacketBuilder_getTotalSize_def sample_read_def)
  show ?thesis
    using read_command_roundtrip [OF wf, of "replicate 24 0xAA" empty_packet] wf
    by (simp add: n INT_MAX_def)
qed

text \<open>C10. The same for a write command.\<close>

theorem write_command_roundtrip:
  assumes "write_wf c" and "WritePacketBuilder_getTotalSize c \<le> INT_MAX"
    and "WritePacketBuilder_getTotalSize c \<le> length out"
  shows "\<exists>n out'. WritePacketBuilder_build c out = Some (Inr n, out') \<and>
     n = WritePacketBuilder_getTotalSize c \<and> drop n out' = drop n out \<and>
     parse pk (take n out') = Some (Success, write_decoded c pk)"
  using assms write_codec.wf_admissible [OF assms(1)]
  by (auto simp: write_codec.build_result write_codec.length_encode parse_write_packet)

definition sample_write :: WritePacketConfig where
  "sample_write = \<lparr>wr_targetSpaceWireAddress = [3, 7], wr_replyAddress = [1, 2, 5],
     wr_targetLogicalAddress = 0xFE, wr_initiatorLogicalAddress = 0x67, wr_transactionID = 0x1234,
     wr_key = 2, wr_extendedAddress = 0, wr_address = 0xDEADBEEF, wr_incrementMode = True,
     wr_reply = True, wr_verifyMode = False, wr_data = [0x10, 0x20, 0x30]\<rparr>"

theorem write_command_roundtrip_witness:
  "write_wf sample_write \<and> (\<exists>n out'. WritePacketBuilder_build sample_write (replicate 28 0xAA) =
     Some (Inr n, out') \<and> n = 26 \<and> drop n out' = replicate 2 0xAA \<and>
     parse empty_packet (take n out') = Some (Success, write_decoded sample_write empty_packet))"
proof -
  have wf: "write_wf sample_write"
    by (simp add: write_wf_def path_ok_def reply_ok_def sample_write_def)
  have n: "WritePacketBuilder_getTotalSize sample_write = 26"
    by (simp add: WritePacketBuilder_getTotalSize_def sample_write_def)
  show ?thesis
    using write_command_roundtrip [OF wf, of "replicate 28 0xAA" empty_packet] wf
    by (simp add: n INT_MAX_def)
qed

text \<open>The same for the replies.\<close>

lemma write_reply_built:
  assumes "write_reply_wf c" "WriteReplyPacketBuilder_getTotalSize c \<le> INT_MAX" "WriteReplyPacketBuilder_getTotalSize c \<le> length out"
  shows "\<exists>n out'. WriteReplyPacketBuilder_build c out = Some (Inr n, out') \<and>
     n = WriteReplyPacketBuilder_getTotalSize c \<and> drop n out' = drop n out \<and>
     parse pk (take n out') = Some (Success, write_reply_decoded c pk)"
  using assms
  by (auto simp: write_reply_codec.build_result write_reply_codec.length_encode parse_write_reply_packet)

lemma read_reply_built:
  assumes "read_reply_wf c" "ReadReplyPacketBuilder_getTotalSize c \<le> INT_MAX" "ReadReplyPacketBuilder_getTotalSize c \<le> length out"
  shows "\<exists>n out'. ReadReplyPacketBuilder_build c out = Some (Inr n, out') \<and>
     n = ReadReplyPacketBuilder_getTotalSize c \<and> drop n out' = drop n out \<and>
     parse pk (take n out') = Some (Success, read_reply_decoded c pk)"
  using assms
  by (auto simp: read_reply_codec.build_result read_reply_codec.length_encode parse_read_reply_packet)

text \<open>C12. A write reply and a read reply, built into a buffer with any contents for a well-formed configuration, are parsed
  back to that configuration, and the rest of the buffer is as it was.\<close>

theorem reply_roundtrip:
  assumes "write_reply_wf c" and "WriteReplyPacketBuilder_getTotalSize c \<le> INT_MAX"
    and "WriteReplyPacketBuilder_getTotalSize c \<le> length out"
    and "read_reply_wf c'" and "ReadReplyPacketBuilder_getTotalSize c' \<le> INT_MAX"
    and "ReadReplyPacketBuilder_getTotalSize c' \<le> length out"
  shows "(\<exists>n out'. WriteReplyPacketBuilder_build c out = Some (Inr n, out') \<and>
       n = WriteReplyPacketBuilder_getTotalSize c \<and> drop n out' = drop n out \<and>
       parse pk (take n out') = Some (Success, write_reply_decoded c pk)) \<and>
     (\<exists>n out'. ReadReplyPacketBuilder_build c' out = Some (Inr n, out') \<and>
       n = ReadReplyPacketBuilder_getTotalSize c' \<and> drop n out' = drop n out \<and>
       parse pk (take n out') = Some (Success, read_reply_decoded c' pk))"
  using write_reply_built [OF assms(1-3)] read_reply_built [OF assms(4-6)] by blast

definition sample_write_reply :: WriteReplyPacketConfig where
  "sample_write_reply = \<lparr>wrp_replyAddress = [1, 2, 5], wrp_initiatorLogicalAddress = 0x67,
     wrp_status = 3, wrp_targetLogicalAddress = 0xFE, wrp_transactionID = 0x1234,
     wrp_incrementMode = True, wrp_verifyMode = False\<rparr>"

definition sample_read_reply :: ReadReplyPacketConfig where
  "sample_read_reply = \<lparr>rrp_replyAddress = [1, 2, 5], rrp_initiatorLogicalAddress = 0x67,
     rrp_status = 0, rrp_targetLogicalAddress = 0xFE, rrp_transactionID = 0x1234,
     rrp_data = [0x10, 0x20, 0x30], rrp_incrementMode = True\<rparr>"

theorem reply_roundtrip_witness:
  "(\<exists>out'. WriteReplyPacketBuilder_build sample_write_reply (replicate 20 0xAA) = Some (Inr 11, out') \<and>
     parse empty_packet (take 11 out') = Some (Success, write_reply_decoded sample_write_reply empty_packet)) \<and>
   (\<exists>out'. ReadReplyPacketBuilder_build sample_read_reply (replicate 20 0xAA) = Some (Inr 19, out') \<and>
     drop 19 out' = [0xAA] \<and> parse empty_packet (take 19 out') = Some (Success, read_reply_decoded sample_read_reply empty_packet))"
proof -
  have wf: "write_reply_wf sample_write_reply" "read_reply_wf sample_read_reply"
    by (simp_all add: write_reply_wf_def read_reply_wf_def path_ok_def sample_write_reply_def sample_read_reply_def)
  have n: "WriteReplyPacketBuilder_getTotalSize sample_write_reply = 11" "ReadReplyPacketBuilder_getTotalSize sample_read_reply = 19"
    by (simp_all add: WriteReplyPacketBuilder_getTotalSize_def ReadReplyPacketBuilder_getTotalSize_def sample_write_reply_def sample_read_reply_def)
  show ?thesis
    using reply_roundtrip [OF wf(1) _ _ wf(2), of "replicate 20 0xAA" empty_packet] by (auto simp: n INT_MAX_def)
qed

text \<open>C13. The parser accepts nothing but packets: when it reports success, the bytes are the
  layout, checksums included, of the packet it then holds. Only the reserved byte of a read reply
  is free.\<close>

theorem parse_sound:
  assumes "parse pk p = Some (Success, pk')"
  shows "\<exists>reserved. p = packet_bytes reserved pk'"
proof -
  from parse_accepts [OF assms] obtain path rest where "p = path @ rest"
    and "dispatch pk path rest = Some (Success, pk')" by blast
  then show ?thesis using dispatch_sound by metis
qed

theorem parse_sound_witness:
  "parse empty_packet (write_reply_packet sample_write_reply) =
     Some (Success, write_reply_decoded sample_write_reply empty_packet) \<and>
   (\<exists>reserved. write_reply_packet sample_write_reply =
     packet_bytes reserved (write_reply_decoded sample_write_reply empty_packet))"
proof -
  have "write_reply_wf sample_write_reply"
    by (simp add: write_reply_wf_def path_ok_def sample_write_reply_def)
  from parse_write_reply_packet [OF this, of empty_packet] show ?thesis
    using parse_sound by blast
qed

text \<open>C14. From the logical address on, and the instruction apart, no single damaged byte of an accepted packet goes unnoticed:
  when one such byte is changed, and the packet still has a logical address in that place, the parser does not accept the result.
  The path addresses in front are not protected: with any others in their place the packet is accepted as well.\<close>

theorem parse_rejects_corruption:
  assumes "parse pk (path @ rest) = Some (Success, pk')"
    and "\<forall>b \<in> set path. b < 0x20" and "rest \<noteq> []" and "\<not> rest ! 0 < 0x20"
    and "i < length rest" and "i \<noteq> 2" and "b \<noteq> rest ! i" and "i = 0 \<longrightarrow> \<not> b < 0x20"
  shows "(\<forall>q q'. parse q (path @ rest[i := b]) \<noteq> Some (Success, q')) \<and>
     (\<forall>path'. (\<forall>b \<in> set path'. b < 0x20) \<longrightarrow> (\<exists>pk''. parse pk (path' @ rest) = Some (Success, pk'')))"
proof (intro conjI allI impI)
  have acc: "dispatch pk path rest = Some (Success, pk')"
    using assms(1-4) by (simp add: parse_split split: if_splits)
  fix q q'
  have "\<not> rest[i := b] ! 0 < 0x20" using assms(3,4,8) by (cases "i = 0") auto
  with dispatch_corrupt [OF acc assms(5,7,6)] show "parse q (path @ rest[i := b]) \<noteq> Some (Success, q')"
    using assms(2,3) by (subst parse_split) auto
next
  have acc: "dispatch pk path rest = Some (Success, pk')"
    using assms(1-4) by (simp add: parse_split split: if_splits)
  fix path' :: bytes assume "\<forall>b \<in> set path'. b < 0x20"
  with dispatch_path [OF acc, of pk path'] assms(1-4) show "\<exists>pk''. parse pk (path' @ rest) = Some (Success, pk'')"
    by (auto simp: parse_split split: if_splits)
qed

theorem parse_rejects_corruption_witness:
  "parse empty_packet ([1, 2] @ with_crc [0x67, 1, 0x2C, 0, 0xFE, 0, 0x20]) \<noteq> None \<and>
   (\<forall>q q'. parse q ([1, 2] @ (with_crc [0x67, 1, 0x2C, 0, 0xFE, 0, 0x20])[6 := 0x21]) \<noteq>
     Some (Success, q')) \<and>
   (\<exists>pk''. parse empty_packet ([3] @ with_crc [0x67, 1, 0x2C, 0, 0xFE, 0, 0x20]) = Some (Success, pk''))"
proof -
  define c where "c = \<lparr>wrp_replyAddress = [1, 2], wrp_initiatorLogicalAddress = 0x67,
     wrp_status = 0, wrp_targetLogicalAddress = 0xFE, wrp_transactionID = 0x20,
     wrp_incrementMode = True, wrp_verifyMode = False\<rparr>"
  have wf: "write_reply_wf c" by (simp add: write_reply_wf_def path_ok_def c_def)
  have p: "write_reply_packet c = [1, 2] @ with_crc [0x67, 1, 0x2C, 0, 0xFE, 0, 0x20]"
    by (simp add: write_reply_packet_def write_reply_instruction_def c_def be16_def)
  let ?rest = "with_crc [0x67, 1, 0x2C, 0, 0xFE, 0, 0x20 :: u8]"
  have rest: "?rest \<noteq> []" "\<not> ?rest ! 0 < 0x20" "6 < length ?rest" "(0x21 :: u8) \<noteq> ?rest ! 6"
    by (simp_all add: with_crc_def)
  have "\<forall>b \<in> set [1, 2 :: u8]. b < 0x20" "\<forall>b \<in> set [3 :: u8]. b < 0x20" by simp_all
  note path = this
  note accepted = parse_write_reply_packet [OF wf, unfolded p, of empty_packet]
  have "(6 :: nat) \<noteq> 2" "(6 :: nat) = 0 \<longrightarrow> \<not> (0x21 :: u8) < 0x20" by simp_all
  from parse_rejects_corruption [OF accepted path(1) rest(1-3) this(1) rest(4) this(2)]
  have "\<forall>q q'. parse q ([1, 2] @ ?rest[6 := 0x21]) \<noteq> Some (Success, q')"
    "\<exists>pk''. parse empty_packet ([3] @ ?rest) = Some (Success, pk'')" using path(2) by blast+
  with accepted show ?thesis by simp
qed

text \<open>C26. Data that does not fit the 24-bit length field is never delivered shortened: the
  builder truncates the length it writes, and the parser then refuses the packet as incomplete.\<close>

theorem oversize_write_refused:
  assumes "path_ok (wr_targetSpaceWireAddress c)" and "0x20 \<le> wr_targetLogicalAddress c"
    and "reply_ok (wr_replyAddress c)" and "2 ^ 24 \<le> length (wr_data c)"
    and "WritePacketBuilder_getTotalSize c \<le> INT_MAX"
    and "WritePacketBuilder_getTotalSize c \<le> length out"
  shows "\<exists>n out' pk'. WritePacketBuilder_build c out = Some (Inr n, out') \<and>
     parse pk (take n out') = Some (IncompletePacket, pk') \<and>
     unat (pk_dataLength pk') = length (wr_data c) mod 2 ^ 24 \<and> pk_data pk' = pk_data pk"
proof -
  have "length (wr_replyAddress c) \<le> 12" using assms(3) by (simp add: reply_ok_def)
  from write_codec.build_result [OF this assms(5)] show ?thesis
    using assms(4,6) parse_write_packet_gen [OF assms(1-3), of pk]
      unat_size_24 [of "length (wr_data c) mod 2 ^ 24"]
    by (simp add: write_codec.length_encode not_less)
qed

theorem oversize_write_refused_witness:
  "\<exists>n out' pk'. WritePacketBuilder_build (sample_write\<lparr>wr_data := replicate (2 ^ 24) 0\<rparr>)
       (replicate (2 ^ 24 + 100) 0) = Some (Inr n, out') \<and>
     parse empty_packet (take n out') = Some (IncompletePacket, pk') \<and>
     unat (pk_dataLength pk') = 0 \<and> pk_data pk' = []"
  using oversize_write_refused [of "sample_write\<lparr>wr_data := replicate (2 ^ 24) 0\<rparr>"
      "replicate (2 ^ 24 + 100) 0" empty_packet]
  by (simp add: sample_write_def path_ok_def reply_ok_def WritePacketBuilder_getTotalSize_def
      INT_MAX_def empty_packet_def)

end
