(* ===== verification/Node_State.thy ===== *)
theory Node_State
  imports Tcp_Backend Packet_Roundtrip
begin

text \<open>
  The state of \<open>SpwRmapTCPNodeImpl\<close> (\<open>internal/spw_rmap_tcp_node_impl.hh\<close>) with the
  members of its base class and of the two classes derived from it, its configuration struct and
  its constructor.

  The state is parametric in the backend state \<open>'b\<close> and in the state \<open>'u\<close> of the program that
  uses the node, on which the callbacks act. A callback is a function of the packet and of the
  user's state; it returns, throws something derived from \<open>std::exception\<close> or throws something
  else. Callbacks that call the node again are not modelled. The closures that the node stores per
  transaction are records of what they capture. A \<open>std::promise\<close> is an index into the list of all
  promises made so far, whose entry is the value once it is set. Mutexes have no counterpart: an
  operation runs without interference unless a theory says otherwise.
\<close>

section \<open>Callbacks and promises\<close>

datatype 'a outcome = Returns 'a | Throws_exception | Throws_other

type_synonym 'u completion = "packet \<Rightarrow> 'u \<Rightarrow> (unit outcome \<times> 'u) option"
type_synonym 'u on_read = "packet \<Rightarrow> 'u \<Rightarrow> (bytes outcome \<times> 'u) option"

record 'u reply_callback =
  rc_on_complete :: "'u completion"
  rc_promise :: nat
  rc_transaction_id :: u16
  rc_tx_index :: nat

record error_callback =
  ec_promise :: nat
  ec_transaction_id :: u16
  ec_tx_index :: nat

section \<open>Configuration and state\<close>

datatype BufferPolicy = Fixed | AutoResize

record SpwRmapTCPNodeConfig =
  cf_ip_address :: string
  cf_port :: string
  cf_send_buffer_size :: nat
  cf_recv_buffer_size :: nat
  cf_send_pool_size :: nat
  cf_recv_pool_size :: nat
  cf_transaction_id_min :: u16
  cf_transaction_id_max :: u16
  cf_buffer_policy :: BufferPolicy
  cf_send_timeout :: int

record ('b, 'u) node =
  nd_tcp_backend :: "'b option"
  nd_recv_buf :: bytes
  nd_send_buf :: bytes
  nd_reply_callback :: "'u reply_callback option list"
  nd_reply_error_callback :: "error_callback option list"
  nd_available :: "bool list"
  nd_last_used :: "int list"
  nd_packet :: packet
  nd_initiator_logical_address :: u8
  nd_transaction_id_min :: u16
  nd_transaction_id_max :: u16
  nd_buffer_policy :: BufferPolicy
  nd_send_timeout :: int
  nd_transaction_timeout :: int
  nd_running :: bool
  nd_on_write :: "'u completion option"
  nd_on_read :: "'u on_read option"
  nd_verify_mode :: bool
  nd_shutdowned :: bool
  nd_promises :: "(error_code + unit) option list"
  nd_user :: 'u

text \<open>\<open>steady_clock::time_point::min()\<close>, in nanoseconds.\<close>

definition TIME_POINT_MIN :: int where "TIME_POINT_MIN = - (2 ^ 63)"

text \<open>
  \<open>i < transaction_id_max_ - transaction_id_min_\<close> in the constructor: the difference is an
  \<open>int\<close>, converted to \<open>uint32_t\<close> for the comparison.
\<close>

definition transaction_count :: "u16 \<Rightarrow> u16 \<Rightarrow> nat" where
  "transaction_count tid_min tid_max = unat (word_of_int (uint tid_max - uint tid_min) :: u32)"

definition SpwRmapTCPNodeImpl ::
    "(string \<Rightarrow> string \<Rightarrow> 'b) \<Rightarrow> SpwRmapTCPNodeConfig \<Rightarrow> 'u \<Rightarrow> ('b, 'u) node" where
  "SpwRmapTCPNodeImpl backend config user =
    (let n = transaction_count (cf_transaction_id_min config) (cf_transaction_id_max config)
     in \<lparr>nd_tcp_backend = Some (backend (cf_ip_address config) (cf_port config)),
         nd_recv_buf = replicate (cf_recv_buffer_size config) 0,
         nd_send_buf = replicate (cf_send_buffer_size config) 0,
         nd_reply_callback = replicate n None,
         nd_reply_error_callback = replicate n None,
         nd_available = replicate n True,
         nd_last_used = replicate n TIME_POINT_MIN,
         nd_packet = empty_packet,
         nd_initiator_logical_address = 0xFE,
         nd_transaction_id_min = cf_transaction_id_min config,
         nd_transaction_id_max = cf_transaction_id_max config,
         nd_buffer_policy = cf_buffer_policy config,
         nd_send_timeout = cf_send_timeout config,
         nd_transaction_timeout = 1000,
         nd_running = False,
         nd_on_write = None,
         nd_on_read = None,
         nd_verify_mode = True,
         nd_shutdowned = False,
         nd_promises = [],
         nd_user = user\<rparr>)"

section \<open>Setters\<close>

definition setInitiatorLogicalAddress :: "u8 \<Rightarrow> ('b, 'u) node \<Rightarrow> ('b, 'u) node" where
  "setInitiatorLogicalAddress address nd = nd\<lparr>nd_initiator_logical_address := address\<rparr>"

text \<open>The accessors of the backend's address; through an empty pointer they are undefined.\<close>

definition getIpAddress :: "'b backend \<Rightarrow> ('b, 'u) node \<Rightarrow> string option" where
  "getIpAddress B nd = map_option (be_getIpAddress B) (nd_tcp_backend nd)"

definition setIpAddress :: "'b backend \<Rightarrow> string \<Rightarrow> ('b, 'u) node \<Rightarrow> ('b, 'u) node option" where
  "setIpAddress B ip_address nd = do {
     b \<leftarrow> nd_tcp_backend nd;
     Some (nd\<lparr>nd_tcp_backend := Some (be_setIpAddress B ip_address b)\<rparr>)
   }"

definition getPort :: "'b backend \<Rightarrow> ('b, 'u) node \<Rightarrow> string option" where
  "getPort B nd = map_option (be_getPort B) (nd_tcp_backend nd)"

definition setPort :: "'b backend \<Rightarrow> string \<Rightarrow> ('b, 'u) node \<Rightarrow> ('b, 'u) node option" where
  "setPort B port nd = do {
     b \<leftarrow> nd_tcp_backend nd;
     Some (nd\<lparr>nd_tcp_backend := Some (be_setPort B port b)\<rparr>)
   }"

definition setSendTimeoutInternal ::
    "'b backend \<Rightarrow> int \<Rightarrow> ('b, 'u) node \<Rightarrow> ((error_code + unit) \<times> ('b, 'u) node) option" where
  "setSendTimeoutInternal B timeout nd =
    (if timeout < 0 then Some (Inl (Generic invalid_argument), nd)
     else
       let nd = nd\<lparr>nd_send_timeout := timeout\<rparr>
       in case nd_tcp_backend nd of
            None \<Rightarrow> Some (Inr (), nd)
          | Some b \<Rightarrow> do {
              (res, b) \<leftarrow> be_setSendTimeout B timeout b;
              Some (res, nd\<lparr>nd_tcp_backend := Some b\<rparr>)
            })"

definition registerOnWrite :: "'u completion option \<Rightarrow> ('b, 'u) node \<Rightarrow> ('b, 'u) node" where
  "registerOnWrite onWrite nd = nd\<lparr>nd_on_write := onWrite\<rparr>"

definition registerOnRead :: "'u on_read option \<Rightarrow> ('b, 'u) node \<Rightarrow> ('b, 'u) node" where
  "registerOnRead onRead nd = nd\<lparr>nd_on_read := onRead\<rparr>"

definition setTimeout :: "int \<Rightarrow> ('b, 'u) node \<Rightarrow> ('b, 'u) node" where
  "setTimeout timeout nd = nd\<lparr>nd_transaction_timeout := timeout\<rparr>"

definition setVerifyMode :: "bool \<Rightarrow> ('b, 'u) node \<Rightarrow> ('b, 'u) node" where
  "setVerifyMode verify_mode nd = nd\<lparr>nd_verify_mode := verify_mode\<rparr>"

end
