(* ===== verification/Node_Frame.thy ===== *)
theory Node_Frame
  imports Node_State
begin

unbundle bit_operations_syntax

text \<open>
  Framing in \<open>SpwRmapTCPNodeImpl\<close>: every SpaceWire packet travels behind a 12-byte header, a
  type byte (0 end of packet, 1 error end of packet, 2 more to come, 0x30 and 0x31 time codes), a
  reserved byte, an extra length and a 64-bit big-endian length. The theory models
  \<open>recvExact_\<close>, \<open>calculateDataLength\<close>, \<open>ignoreNBytes_\<close>,
  \<open>recvAndParseOnePacket_\<close>, \<open>send_\<close>, \<open>sendReadPacket_\<close>, \<open>sendWritePacket_\<close> and
  \<open>emitTimeCode\<close>.
\<close>

section \<open>Receiving\<close>

text \<open>
  The loop of \<open>recvExact_\<close>: \<open>filled\<close> is the part of the buffer that has been received,
  \<open>buffer\<close> the rest. More bytes than the span holds would be written behind it.
\<close>

function recv_loop ::
    "'b backend \<Rightarrow> nat \<Rightarrow> bytes \<Rightarrow> bytes \<Rightarrow> 'b \<Rightarrow> ((error_code + nat) \<times> bytes \<times> 'b) option" where
  "recv_loop B total_length filled buffer b =
    (if buffer = [] then Some (Inr total_length, filled, b)
     else case be_recvSome B (length buffer) b of
         None \<Rightarrow> None
       | Some (Inl e, b) \<Rightarrow> Some (Inl e, filled @ buffer, b)
       | Some (Inr bs, b) \<Rightarrow>
           if length buffer < length bs then None
           else if bs = [] then Some (Inr 0, filled @ buffer, b)
           else recv_loop B total_length (filled @ bs) (drop (length bs) buffer) b)"
  by pat_completeness auto
termination
  by (relation "measure (\<lambda>(B, total_length, filled, buffer, b). length buffer)")
    (auto simp: Suc_le_eq [symmetric] neq_Nil_conv)

declare recv_loop.simps [simp del]

definition recvExact ::
    "'b backend \<Rightarrow> bytes \<Rightarrow> ('b, 'u) node \<Rightarrow> ((error_code + nat) \<times> bytes \<times> ('b, 'u) node) option" where
  "recvExact B buffer nd = (case nd_tcp_backend nd of
       None \<Rightarrow> Some (Inl (Generic not_connected), buffer, nd)
     | Some b \<Rightarrow> do {
         (res, buffer, b) \<leftarrow> recv_loop B (length buffer) [] buffer b;
         Some (res, buffer, nd\<lparr>nd_tcp_backend := Some b\<rparr>)
       })"

definition calculateDataLength :: "bytes \<Rightarrow> error_code + u64" where
  "calculateDataLength header =
    (if length header < 12 then Inl (Generic invalid_argument)
     else Inr (push_bit 56 (ucast (header ! 4)) OR push_bit 48 (ucast (header ! 5)) OR
               push_bit 40 (ucast (header ! 6)) OR push_bit 32 (ucast (header ! 7)) OR
               push_bit 24 (ucast (header ! 8)) OR push_bit 16 (ucast (header ! 9)) OR
               push_bit 8 (ucast (header ! 10)) OR push_bit 0 (ucast (header ! 11))))"

text \<open>The loop of \<open>ignoreNBytes_\<close> over its 16-byte buffer: the number of bytes left over.\<close>

function ignore_loop ::
    "'b backend \<Rightarrow> nat \<Rightarrow> 'b \<Rightarrow> ((error_code + nat) \<times> 'b) option" where
  "ignore_loop B n b =
    (if n \<le> 16 then Some (Inr n, b)
     else case be_recvSome B 16 b of
         None \<Rightarrow> None
       | Some (Inl e, b) \<Rightarrow> Some (Inl e, b)
       | Some (Inr bs, b) \<Rightarrow>
           if 16 < length bs then None
           else if bs = [] then Some (Inl (Generic connection_aborted), b)
           else ignore_loop B (n - length bs) b)"
  by pat_completeness auto
termination
  by (relation "measure (\<lambda>(B, n, b). n)") (auto simp: neq_Nil_conv)

declare ignore_loop.simps [simp del]

definition ignoreNBytes ::
    "'b backend \<Rightarrow> nat \<Rightarrow> ('b, 'u) node \<Rightarrow> ((error_code + nat) \<times> ('b, 'u) node) option" where
  "ignoreNBytes B requested_size nd = (case nd_tcp_backend nd of
       None \<Rightarrow> Some (Inl (Generic not_connected), nd)
     | Some b \<Rightarrow> do {
         (res, b) \<leftarrow> ignore_loop B requested_size b;
         let nd = nd\<lparr>nd_tcp_backend := Some b\<rparr>;
         case res of
           Inl e \<Rightarrow> Some (Inl e, nd)
         | Inr n \<Rightarrow>
             if n > 0 then do {
               (res, _, nd) \<leftarrow> recvExact B (replicate n 0) nd;
               case res of Inl e \<Rightarrow> Some (Inl e, nd) | Inr _ \<Rightarrow> Some (Inr requested_size, nd)
             }
             else Some (Inr requested_size, nd)
       })"

text \<open>
  One turn of the loop of \<open>recvAndParseOnePacket_\<close>. The span \<open>recv_buffer\<close> is always the
  part of \<open>recv_buf_\<close> behind some offset, so the offset stands for it. The turn either makes
  the function return or starts the next turn with new \<open>total_size\<close> and offset; the recursive
  call after an ignored packet is a turn that starts from zero.
\<close>

datatype turn = Return "error_code + nat" | Finished nat | Next nat nat

definition make_room ::
    "nat \<Rightarrow> nat \<Rightarrow> nat \<Rightarrow> ('b, 'u) node \<Rightarrow> ((error_code + nat) \<times> ('b, 'u) node) option" where
  "make_room total_size offset dataLength nd =
    (if dataLength > length (nd_recv_buf nd) - offset then
       (if nd_buffer_policy nd = Fixed then Some (Inl (Generic no_buffer_space), nd)
        else do {
          buf \<leftarrow> vector_resize (size_add total_size dataLength) (nd_recv_buf nd);
          _ \<leftarrow> subspan_from buf total_size;
          Some (Inr total_size, nd\<lparr>nd_recv_buf := buf\<rparr>)
        })
     else Some (Inr offset, nd))"

text \<open>\<open>recvExact_(recv_buffer.first(*dataLength))\<close>\<close>

definition recv_into ::
    "'b backend \<Rightarrow> nat \<Rightarrow> nat \<Rightarrow> ('b, 'u) node \<Rightarrow> ((error_code + nat) \<times> ('b, 'u) node) option" where
  "recv_into B offset dataLength nd = do {
     rest \<leftarrow> subspan_from (nd_recv_buf nd) offset;
     part \<leftarrow> span_first rest dataLength;
     (res, part, nd) \<leftarrow> recvExact B part nd;
     Some (res, nd\<lparr>nd_recv_buf := take offset (nd_recv_buf nd) @ part @ drop dataLength rest\<rparr>)
   }"

definition recv_timecode ::
    "'b backend \<Rightarrow> bytes \<Rightarrow> nat \<Rightarrow> nat \<Rightarrow> ('b, 'u) node \<Rightarrow> (turn \<times> ('b, 'u) node) option" where
  "recv_timecode B header total_size offset nd =
    (if header ! 2 \<noteq> 0x00 \<or> header ! 3 \<noteq> 0x00 \<or> header ! 4 \<noteq> 0x00 \<or> header ! 5 \<noteq> 0x00 \<or>
        header ! 6 \<noteq> 0x00 \<or> header ! 7 \<noteq> 0x00 \<or> header ! 8 \<noteq> 0x00 \<or> header ! 9 \<noteq> 0x00 \<or>
        header ! 10 \<noteq> 0x00 \<or> header ! 11 \<noteq> 0x02
     then Some (Return (Inl (Generic bad_message)), nd)
     else do {
       (res, tc, nd) \<leftarrow> recvExact B (replicate 2 0) nd;
       case res of
         Inl e \<Rightarrow> Some (Return (Inl e), nd)
       | Inr _ \<Rightarrow> Some (if tc ! 1 \<noteq> 0x00 then Return (Inl (Generic bad_message))
                       else Next total_size offset, nd)
     })"

definition recv_body ::
    "'b backend \<Rightarrow> bytes \<Rightarrow> nat \<Rightarrow> nat \<Rightarrow> nat \<Rightarrow> ('b, 'u) node \<Rightarrow> (turn \<times> ('b, 'u) node) option" where
  "recv_body B header dataLength total_size offset nd =
    (if header ! 0 = 0x00 then do {
       (res, nd) \<leftarrow> recv_into B offset dataLength nd;
       case res of
         Inl e \<Rightarrow> Some (Return (Inl e), nd)
       | Inr k \<Rightarrow> Some (Finished (total_size + k), nd)
     }
     else if header ! 0 = 0x01 then do {
       (res, nd) \<leftarrow> ignoreNBytes B dataLength nd;
       case res of
         Inl e \<Rightarrow> Some (Return (Inl e), nd)
       | Inr _ \<Rightarrow> Some (Next 0 0, nd)
     }
     else if header ! 0 = 0x02 then do {
       (res, nd) \<leftarrow> recv_into B offset dataLength nd;
       case res of
         Inl e \<Rightarrow> Some (Return (Inl e), nd)
       | Inr k \<Rightarrow> Some (Next (total_size + k) (offset + dataLength), nd)
     }
     else if header ! 0 = 0x30 \<or> header ! 0 = 0x31 then
       recv_timecode B header total_size offset nd
     else Some (Return (Inl (Generic bad_message)), nd))"

definition recv_turn ::
    "'b backend \<Rightarrow> nat \<Rightarrow> nat \<Rightarrow> ('b, 'u) node \<Rightarrow> (turn \<times> ('b, 'u) node) option" where
  "recv_turn B total_size offset nd = do {
     (res, header, nd) \<leftarrow> recvExact B (replicate 12 0) nd;
     case res of
       Inl e \<Rightarrow> Some (Return (Inl e), nd)
     | Inr n \<Rightarrow>
         if n = 0 then Some (Return (Inr 0), nd)
         else if header ! 0 \<noteq> 0x00 \<and> header ! 0 \<noteq> 0x01 \<and> header ! 0 \<noteq> 0x02 \<and>
                 header ! 0 \<noteq> 0x31 \<and> header ! 0 \<noteq> 0x30
         then Some (Return (Inl (Generic bad_message)), nd)
         else if header ! 1 \<noteq> 0x00 then Some (Return (Inl (Generic bad_message)), nd)
         else case calculateDataLength header of
             Inl e \<Rightarrow> Some (Return (Inl e), nd)
           | Inr l \<Rightarrow>
               let dataLength = unat l
               in if dataLength = 0 then Some (Return (Inl (Generic bad_message)), nd)
                  else do {
                    (res, nd) \<leftarrow> make_room total_size offset dataLength nd;
                    case res of
                      Inl e \<Rightarrow> Some (Return (Inl e), nd)
                    | Inr offset \<Rightarrow> recv_body B header dataLength total_size offset nd
                  }
   }"

text \<open>The rest of the function, behind the loop.\<close>

definition parse_received ::
    "nat \<Rightarrow> ('b, 'u) node \<Rightarrow> ((error_code + nat) \<times> ('b, 'u) node) option" where
  "parse_received total_size nd = do {
     received \<leftarrow> span_first (nd_recv_buf nd) total_size;
     (status, pk) \<leftarrow> parse (nd_packet nd) received;
     let nd = nd\<lparr>nd_packet := pk\<rparr>;
     Some (if status \<noteq> Success then Inl (make_error_code status) else Inr total_size, nd)
   }"

partial_function (option) recv_packet_loop ::
    "'b backend \<Rightarrow> nat \<Rightarrow> nat \<Rightarrow> ('b, 'u) node \<Rightarrow> ((error_code + nat) \<times> ('b, 'u) node) option" where
  "recv_packet_loop B total_size offset nd = do {
     (t, nd) \<leftarrow> recv_turn B total_size offset nd;
     case t of
       Return r \<Rightarrow> Some (r, nd)
     | Finished total_size \<Rightarrow> parse_received total_size nd
     | Next total_size offset \<Rightarrow> recv_packet_loop B total_size offset nd
   }"

definition recvAndParseOnePacket ::
    "'b backend \<Rightarrow> ('b, 'u) node \<Rightarrow> ((error_code + nat) \<times> ('b, 'u) node) option" where
  "recvAndParseOnePacket B nd =
    (if nd_tcp_backend nd = None then Some (Inl (Generic not_connected), nd)
     else recv_packet_loop B 0 0 nd)"

section \<open>Sending\<close>

definition send ::
    "'b backend \<Rightarrow> nat \<Rightarrow> ('b, 'u) node \<Rightarrow> ((error_code + unit) \<times> ('b, 'u) node) option" where
  "send B total_size nd = do {
     let size = (word_of_nat total_size :: u64);
     buf \<leftarrow> store_from 0 [0x00, 0x00, 0x00, 0x00,
       byte_of 56 size, byte_of 48 size, byte_of 40 size, byte_of 32 size,
       byte_of 24 size, byte_of 16 size, byte_of 8 size, byte_of 0 size] (nd_send_buf nd);
     let nd = nd\<lparr>nd_send_buf := buf\<rparr>;
     data \<leftarrow> span_first buf (total_size + 12);
     b \<leftarrow> nd_tcp_backend nd;
     (res, b) \<leftarrow> be_sendAll B data b;
     Some (res, nd\<lparr>nd_tcp_backend := Some b\<rparr>)
   }"

text \<open>
  Building behind the frame header, \<open>builder.build(config, send_buffer.subspan(12))\<close>, with
  the builder as an argument.
\<close>

definition build_frame ::
    "('c \<Rightarrow> bytes \<Rightarrow> ((error_code + nat) \<times> bytes) option) \<Rightarrow> 'c \<Rightarrow> ('b, 'u) node \<Rightarrow>
     ((error_code + nat) \<times> ('b, 'u) node) option" where
  "build_frame build config nd = do {
     out \<leftarrow> subspan_from (nd_send_buf nd) 12;
     (res, out) \<leftarrow> build config out;
     Some (res, nd\<lparr>nd_send_buf := take 12 (nd_send_buf nd) @ out\<rparr>)
   }"

text \<open>\<open>if (needed > send_buffer.size())\<close>: refuse or grow, by the buffer policy.\<close>

definition reserve_send ::
    "nat \<Rightarrow> ('b, 'u) node \<Rightarrow> ((error_code + unit) \<times> ('b, 'u) node) option" where
  "reserve_send needed nd =
    (if needed > length (nd_send_buf nd) then
       (if nd_buffer_policy nd = Fixed then Some (Inl (Generic no_buffer_space), nd)
        else do {
          buf \<leftarrow> vector_resize needed (nd_send_buf nd);
          Some (Inr (), nd\<lparr>nd_send_buf := buf\<rparr>)
        })
     else Some (Inr (), nd))"

definition read_config :: "target_node \<Rightarrow> u16 \<Rightarrow> u32 \<Rightarrow> u32 \<Rightarrow> ('b, 'u) node \<Rightarrow> ReadPacketConfig" where
  "read_config target_node transaction_id memory_address data_length nd =
     \<lparr>rd_targetSpaceWireAddress = getTargetSpaceWireAddress target_node,
      rd_replyAddress = getReplyAddress target_node,
      rd_targetLogicalAddress = getTargetLogicalAddress target_node,
      rd_initiatorLogicalAddress = nd_initiator_logical_address nd,
      rd_transactionID = transaction_id,
      rd_extendedAddress = 0x00,
      rd_address = memory_address,
      rd_dataLength = data_length,
      rd_key = 0,
      rd_incrementMode = True\<rparr>"

definition sendReadPacket ::
    "'b backend \<Rightarrow> target_node \<Rightarrow> u16 \<Rightarrow> u32 \<Rightarrow> u32 \<Rightarrow> ('b, 'u) node \<Rightarrow>
     ((error_code + unit) \<times> ('b, 'u) node) option" where
  "sendReadPacket B target_node transaction_id memory_address data_length nd =
    (if nd_tcp_backend nd = None then Some (Inl (Generic not_connected), nd)
     else do {
       let expected_length = length (getTargetSpaceWireAddress target_node) +
             (length (getReplyAddress target_node) + 3) div 4 * 4 + 4 + 12 + 1;
       (res, nd) \<leftarrow> reserve_send expected_length nd;
       case res of
         Inl e \<Rightarrow> Some (Inl e, nd)
       | Inr _ \<Rightarrow> do {
           let config = read_config target_node transaction_id memory_address data_length nd;
           (res, nd) \<leftarrow> build_frame ReadPacketBuilder_build config nd;
           case res of
             Inl e \<Rightarrow> Some (Inl e, nd)
           | Inr _ \<Rightarrow> do {
               (res, nd) \<leftarrow> reserve_send (ReadPacketBuilder_getTotalSize config + 12) nd;
               case res of
                 Inl e \<Rightarrow> Some (Inl e, nd)
               | Inr _ \<Rightarrow> send B (ReadPacketBuilder_getTotalSize config) nd
             }
         }
     })"

definition write_config :: "target_node \<Rightarrow> u16 \<Rightarrow> u32 \<Rightarrow> bytes \<Rightarrow> ('b, 'u) node \<Rightarrow> WritePacketConfig" where
  "write_config target_node transaction_id memory_address data nd =
     \<lparr>wr_targetSpaceWireAddress = getTargetSpaceWireAddress target_node,
      wr_replyAddress = getReplyAddress target_node,
      wr_targetLogicalAddress = getTargetLogicalAddress target_node,
      wr_initiatorLogicalAddress = nd_initiator_logical_address nd,
      wr_transactionID = transaction_id,
      wr_key = 0,
      wr_extendedAddress = 0x00,
      wr_address = memory_address,
      wr_incrementMode = True,
      wr_reply = True,
      wr_verifyMode = nd_verify_mode nd,
      wr_data = data\<rparr>"

definition sendWritePacket ::
    "'b backend \<Rightarrow> target_node \<Rightarrow> u16 \<Rightarrow> u32 \<Rightarrow> bytes \<Rightarrow> ('b, 'u) node \<Rightarrow>
     ((error_code + unit) \<times> ('b, 'u) node) option" where
  "sendWritePacket B target_node transaction_id memory_address data nd =
    (if nd_tcp_backend nd = None then Some (Inl (Generic not_connected), nd)
     else do {
       let expected_length = length (getTargetSpaceWireAddress target_node) +
             (length (getReplyAddress target_node) + 3) div 4 * 4 + 4 + 12 + 1 + length data;
       (res, nd) \<leftarrow> reserve_send (expected_length + 12) nd;
       case res of
         Inl e \<Rightarrow> Some (Inl e, nd)
       | Inr _ \<Rightarrow> do {
           let config = write_config target_node transaction_id memory_address data nd;
           (res, nd) \<leftarrow> build_frame WritePacketBuilder_build config nd;
           case res of
             Inl e \<Rightarrow> Some (Inl e, nd)
           | Inr _ \<Rightarrow> send B (WritePacketBuilder_getTotalSize config) nd
         }
     })"

definition timecode_frame :: "u8 \<Rightarrow> bytes" where
  "timecode_frame timecode = [0x30, 0x00] @ replicate 9 0x00 @ [0x02, timecode, 0x00]"

definition emitTimeCode ::
    "'b backend \<Rightarrow> u8 \<Rightarrow> ('b, 'u) node \<Rightarrow> ((error_code + unit) \<times> ('b, 'u) node) option" where
  "emitTimeCode B timecode nd = (case nd_tcp_backend nd of
       None \<Rightarrow> Some (Inl (Generic not_connected), nd)
     | Some b \<Rightarrow> do {
         (res, b) \<leftarrow> be_sendAll B (timecode_frame timecode) b;
         Some (res, nd\<lparr>nd_tcp_backend := Some b\<rparr>)
       })"


section \<open>Frames\<close>

definition frame_header :: "u8 \<Rightarrow> nat \<Rightarrow> bytes" where
  "frame_header type n = [type, 0, 0, 0] @ be64 (word_of_nat n)"

definition frame :: "u8 \<Rightarrow> bytes \<Rightarrow> bytes" where
  "frame type p = frame_header type (length p) @ p"

lemma length_frame_header [simp]: "length (frame_header type n) = 12"
  by (simp add: frame_header_def)

lemma frame_header_nth [simp]:
  "frame_header type n ! 0 = type" "frame_header type n ! Suc 0 = 0"
  "frame_header type n ! 2 = 0" "frame_header type n ! 3 = 0"
  by (simp_all add: frame_header_def numeral_eq_Suc)

lemma join64_be64:
  "push_bit 56 (ucast (byte_of 56 x)) OR push_bit 48 (ucast (byte_of 48 x)) OR
   push_bit 40 (ucast (byte_of 40 x)) OR push_bit 32 (ucast (byte_of 32 x)) OR
   push_bit 24 (ucast (byte_of 24 x)) OR push_bit 16 (ucast (byte_of 16 x)) OR
   push_bit 8 (ucast (byte_of 8 x)) OR push_bit 0 (ucast (byte_of 0 x)) = (x :: u64)"
proof (rule bit_word_eqI)
  fix n assume "n < LENGTH(64)"
  then consider "n < 8" | "8 \<le> n \<and> n < 16" | "16 \<le> n \<and> n < 24" | "24 \<le> n \<and> n < 32"
    | "32 \<le> n \<and> n < 40" | "40 \<le> n \<and> n < 48" | "48 \<le> n \<and> n < 56" | "56 \<le> n \<and> n < 64"
    by force
  then show "bit (push_bit 56 (ucast (byte_of 56 x)) OR push_bit 48 (ucast (byte_of 48 x)) OR
   push_bit 40 (ucast (byte_of 40 x)) OR push_bit 32 (ucast (byte_of 32 x)) OR
   push_bit 24 (ucast (byte_of 24 x)) OR push_bit 16 (ucast (byte_of 16 x)) OR
   push_bit 8 (ucast (byte_of 8 x)) OR push_bit 0 (ucast (byte_of 0 x)) :: u64) n = bit x n"
    by cases (auto simp: bit_simps bit_byte_of)
qed

lemma calculateDataLength_header [simp]:
  "calculateDataLength (frame_header type n) = Inr (word_of_nat n)"
proof -
  have "be64 (word_of_nat n) = map (\<lambda>i. frame_header type n ! (4 + i)) [0..<8]"
    by (simp add: frame_header_def be64_def upt_conv_Cons)
  then show ?thesis
    using join64_be64 [of "word_of_nat n"]
    by (simp add: calculateDataLength_def be64_def upt_conv_Cons)
qed

context tcp_stream
begin

lemma recv_loop_stream:
  assumes "live b" "length buffer \<le> length (pending b)"
  shows "\<exists>b'. recv_loop B n filled buffer b =
       Some (Inr n, filled @ take (length buffer) (pending b), b') \<and>
     pending b' = drop (length buffer) (pending b) \<and> live b' \<and> sent b' = sent b"
  using assms
proof (induction "length buffer" arbitrary: filled buffer b rule: less_induct)
  case less
  show ?case
  proof (cases "buffer = []")
    case True
    with less.prems show ?thesis by (simp add: recv_loop.simps)
  next
    case False
    with less.prems have "pending b \<noteq> []" by auto
    with recv_step [OF less.prems(1), of "length buffer"] False
    obtain bs b' where r: "be_recvSome B (length buffer) b = Some (Inr bs, b')" "bs \<noteq> []"
      "length bs \<le> length buffer" "pending b = bs @ pending b'" "live b'" "sent b' = sent b" by auto
    have "length (drop (length bs) buffer) < length buffer"
      "length (drop (length bs) buffer) \<le> length (pending b')"
      using r(2-4) less.prems(2) False by auto
    from less.hyps [OF this(1) r(5) this(2), of "filled @ bs"] show ?thesis
      using r False by (subst recv_loop.simps) (auto simp: not_less)
  qed
qed

lemma recvExact_stream:
  assumes "nd_tcp_backend nd = Some b" "live b" "pending b = bs @ rest" "length buffer = length bs"
  shows "\<exists>b'. recvExact B buffer nd = Some (Inr (length bs), bs, nd\<lparr>nd_tcp_backend := Some b'\<rparr>) \<and>
     pending b' = rest \<and> live b' \<and> sent b' = sent b"
  using recv_loop_stream [OF assms(2), of buffer "length bs" "[]"] assms
  by (auto simp: recvExact_def)

lemma ignore_loop_stream:
  assumes "live b" "n \<le> length (pending b)"
  shows "\<exists>m b'. ignore_loop B n b = Some (Inr m, b') \<and> m \<le> n \<and>
     pending b' = drop (n - m) (pending b) \<and> live b' \<and> sent b' = sent b"
  using assms
proof (induction n arbitrary: b rule: less_induct)
  case (less n)
  show ?case
  proof (cases "n \<le> 16")
    case True
    with less.prems show ?thesis by (simp add: ignore_loop.simps)
  next
    case False
    with less.prems have "pending b \<noteq> []" by auto
    with recv_step [OF less.prems(1), of 16]
    obtain bs b' where r: "be_recvSome B 16 b = Some (Inr bs, b')" "bs \<noteq> []"
      "length bs \<le> 16" "pending b = bs @ pending b'" "live b'" "sent b' = sent b" by auto
    have "n - length bs < n" "n - length bs \<le> length (pending b')"
      using r(2-4) less.prems(2) False by auto
    from less.IH [OF this(1) r(5) this(2)] obtain m b'' where
      "ignore_loop B (n - length bs) b' = Some (Inr m, b'')" "m \<le> n - length bs"
      "pending b'' = drop (n - length bs - m) (pending b')" "live b''" "sent b'' = sent b" using r(6) by auto
    moreover have "drop (n - length bs - m) (pending b') = drop (n - m) (pending b)"
      using r(3,4) False \<open>m \<le> n - length bs\<close> by (simp add: add.commute)
    ultimately show ?thesis
      using r False by (subst ignore_loop.simps) (auto simp: not_less)
  qed
qed

lemma ignoreNBytes_stream:
  assumes "nd_tcp_backend nd = Some b" "live b" "pending b = bs @ rest"
  shows "\<exists>b'. ignoreNBytes B (length bs) nd =
       Some (Inr (length bs), nd\<lparr>nd_tcp_backend := Some b'\<rparr>) \<and>
     pending b' = rest \<and> live b' \<and> sent b' = sent b"
proof -
  obtain m b' where m: "ignore_loop B (length bs) b = Some (Inr m, b')" "m \<le> length bs"
    "pending b' = drop (length bs - m) bs @ rest" "live b'" "sent b' = sent b"
    using ignore_loop_stream [OF assms(2), of "length bs"] assms(3) by auto
  show ?thesis
  proof (cases "m = 0")
    case True
    with m assms(1) show ?thesis by (auto simp: ignoreNBytes_def)
  next
    case False
    have "length (replicate m 0) = length (drop (length bs - m) bs)" using m(2) by simp
    from recvExact_stream [OF _ m(4,3) this, of "nd\<lparr>nd_tcp_backend := Some b'\<rparr>"]
    show ?thesis using m assms(1) False by (auto simp: ignoreNBytes_def)
  qed
qed

end

section \<open>Reassembly\<close>

text \<open>
  What may precede the last part of a packet on the wire: a part of it, a packet that ends in an
  error and is dropped together with everything received before, or a time code.
\<close>

datatype wire_item = More bytes | Discard bytes | Timecode bool u8

fun item_bytes :: "wire_item \<Rightarrow> bytes" where
  "item_bytes (More d) = frame 2 d"
| "item_bytes (Discard d) = frame 1 d"
| "item_bytes (Timecode fwd tc) = frame (if fwd then 0x31 else 0x30) [tc, 0]"

fun item_payload :: "wire_item \<Rightarrow> bytes" where
  "item_payload (More d) = d"
| "item_payload (Discard d) = d"
| "item_payload (Timecode fwd tc) = [tc, 0]"

fun assemble :: "bytes \<Rightarrow> wire_item list \<Rightarrow> bytes" where
  "assemble acc [] = acc"
| "assemble acc (More d # items) = assemble (acc @ d) items"
| "assemble acc (Discard d # items) = assemble [] items"
| "assemble acc (Timecode fwd tc # items) = assemble acc items"

text \<open>Room for \<open>n\<close> bytes: within what a vector can hold and, unless it may grow, within
  the buffer.\<close>

definition recv_room :: "BufferPolicy \<Rightarrow> nat \<Rightarrow> nat \<Rightarrow> bool" where
  "recv_room policy cap n \<longleftrightarrow> n \<le> VECTOR_MAX_SIZE \<and> (policy = Fixed \<longrightarrow> n \<le> cap)"

fun items_fit :: "(nat \<Rightarrow> bool) \<Rightarrow> bytes \<Rightarrow> wire_item list \<Rightarrow> bool" where
  "items_fit room acc [] \<longleftrightarrow> True"
| "items_fit room acc (x # xs) \<longleftrightarrow> item_payload x \<noteq> [] \<and> room (length acc + length (item_payload x)) \<and>
     items_fit room (assemble acc [x]) xs"

lemma make_room_ok:
  assumes "recv_room (nd_buffer_policy nd) (length (nd_recv_buf nd)) (m + n)"
    and "m \<le> length (nd_recv_buf nd)"
  obtains buf where "make_room m m n nd = Some (Inr m, nd\<lparr>nd_recv_buf := buf\<rparr>)"
    "take m buf = take m (nd_recv_buf nd)" "m + n \<le> length buf"
    "nd_buffer_policy nd = Fixed \<longrightarrow> length buf = length (nd_recv_buf nd)"
proof (cases "n > length (nd_recv_buf nd) - m")
  case True
  with assms have "nd_buffer_policy nd \<noteq> Fixed" "m + n \<le> VECTOR_MAX_SIZE" "size_add m n = m + n"
    by (auto simp: recv_room_def size_add_def VECTOR_MAX_SIZE_def)
  with True assms(2) that show ?thesis by (auto simp: make_room_def)
next
  case False
  with assms(2) show ?thesis by (intro that [of "nd_recv_buf nd"]) (auto simp: make_room_def)
qed

context tcp_stream
begin

lemma recv_header:
  assumes "nd_tcp_backend nd = Some b" "live b" "pending b = frame_header type n @ rest"
  obtains b' where
    "recvExact B (replicate 12 0) nd = Some (Inr 12, frame_header type n, nd\<lparr>nd_tcp_backend := Some b'\<rparr>)"
    "pending b' = rest" "live b'" "sent b' = sent b"
  using recvExact_stream [OF assms, of "replicate 12 0"] by auto

lemma recv_into_stream:
  assumes "nd_tcp_backend nd = Some b" "live b" "pending b = bs @ rest"
    and "m + length bs \<le> length (nd_recv_buf nd)"
  shows "\<exists>b'. recv_into B m (length bs) nd =
       Some (Inr (length bs), nd\<lparr>nd_tcp_backend := Some b',
         nd_recv_buf := take m (nd_recv_buf nd) @ bs @ drop (m + length bs) (nd_recv_buf nd)\<rparr>) \<and>
     pending b' = rest \<and> live b' \<and> sent b' = sent b"
proof -
  have "length (take (length bs) (drop m (nd_recv_buf nd))) = length bs" using assms(4) by simp
  from recvExact_stream [OF assms(1-3) this] show ?thesis
    using assms(4) by (auto simp: recv_into_def add.commute)
qed

text \<open>The turn up to the payload: the header is read and the buffer has room.\<close>

lemma recv_turn_header:
  assumes nd: "nd_tcp_backend nd = Some b" "live b" "pending b = frame_header type n @ rest"
    and type: "type \<in> {0, 1, 2, 0x30, 0x31}"
    and room: "0 < n" "recv_room (nd_buffer_policy nd) (length (nd_recv_buf nd)) (m + n)"
      "m \<le> length (nd_recv_buf nd)"
  obtains b' buf where "recv_turn B m m nd =
      recv_body B (frame_header type n) n m m (nd\<lparr>nd_tcp_backend := Some b', nd_recv_buf := buf\<rparr>)"
    "pending b' = rest" "live b'" "sent b' = sent b"
    "take m buf = take m (nd_recv_buf nd)" "m + n \<le> length buf"
    "nd_buffer_policy nd = Fixed \<longrightarrow> length buf = length (nd_recv_buf nd)"
proof -
  from recv_header [OF nd] obtain b' where b':
    "recvExact B (replicate 12 0) nd = Some (Inr 12, frame_header type n, nd\<lparr>nd_tcp_backend := Some b'\<rparr>)"
    "pending b' = rest" "live b'" "sent b' = sent b" by blast
  from make_room_ok [of "nd\<lparr>nd_tcp_backend := Some b'\<rparr>" m n] room(2,3) obtain buf where buf:
    "make_room m m n (nd\<lparr>nd_tcp_backend := Some b'\<rparr>) =
       Some (Inr m, nd\<lparr>nd_tcp_backend := Some b', nd_recv_buf := buf\<rparr>)"
    "take m buf = take m (nd_recv_buf nd)" "m + n \<le> length buf"
    "nd_buffer_policy nd = Fixed \<longrightarrow> length buf = length (nd_recv_buf nd)" by auto
  have "n < 2 ^ 64" using room(2) by (simp add: recv_room_def VECTOR_MAX_SIZE_def)
  then have l: "unat (word_of_nat n :: u64) = n" by (simp add: unat_of_nat)
  have "recv_turn B m m nd = recv_body B (frame_header type n) n m m
      (nd\<lparr>nd_tcp_backend := Some b', nd_recv_buf := buf\<rparr>)"
    using type room(1) by (auto simp: recv_turn_def b'(1) l buf(1) Let_def)
  with b' buf show thesis by (intro that)
qed

lemma recv_turn_body:
  assumes nd: "nd_tcp_backend nd = Some b" "live b" "pending b = frame type p @ rest"
    and type: "type \<in> {0, 1, 2, 0x30, 0x31}"
    and room: "p \<noteq> []" "recv_room (nd_buffer_policy nd) (length (nd_recv_buf nd)) (m + length p)"
      "m \<le> length (nd_recv_buf nd)"
  obtains b' buf where "recv_turn B m m nd =
      recv_body B (frame_header type (length p)) (length p) m m
        (nd\<lparr>nd_tcp_backend := Some b', nd_recv_buf := buf\<rparr>)"
    "pending b' = p @ rest" "live b'" "sent b' = sent b"
    "take m buf = take m (nd_recv_buf nd)" "m + length p \<le> length buf"
    "nd_buffer_policy nd = Fixed \<longrightarrow> length buf = length (nd_recv_buf nd)"
proof -
  have p: "pending b = frame_header type (length p) @ (p @ rest)" "0 < length p"
    using nd(3) room(1) by (simp_all add: frame_def)
  show thesis by (rule recv_turn_header [OF nd(1,2) p(1) type p(2) room(2,3)]) (rule that)
qed

text \<open>One item on the wire is one turn of the loop.\<close>

lemma recv_turn_item:
  assumes nd: "nd_tcp_backend nd = Some b" "live b" "pending b = item_bytes x @ rest"
    and acc: "take (length acc) (nd_recv_buf nd) = acc"
    and fit: "item_payload x \<noteq> []" "recv_room (nd_buffer_policy nd) (length (nd_recv_buf nd))
      (length acc + length (item_payload x))"
  obtains b' buf where "recv_turn B (length acc) (length acc) nd =
      Some (Next (length (assemble acc [x])) (length (assemble acc [x])),
        nd\<lparr>nd_tcp_backend := Some b', nd_recv_buf := buf\<rparr>)"
    "pending b' = rest" "live b'" "sent b' = sent b"
    "take (length (assemble acc [x])) buf = assemble acc [x]"
    "nd_buffer_policy nd = Fixed \<longrightarrow> length buf = length (nd_recv_buf nd)"
proof -
  define type :: u8 where
    "type = (case x of More d \<Rightarrow> 2 | Discard d \<Rightarrow> 1 | Timecode f t \<Rightarrow> if f then 0x31 else 0x30)"
  have x: "item_bytes x = frame type (item_payload x)" by (cases x) (auto simp: type_def)
  have m: "length acc \<le> length (nd_recv_buf nd)" using acc by (metis length_take min.cobounded1 min.commute)
  have "pending b = frame type (item_payload x) @ rest" "type \<in> {0, 1, 2, 0x30, 0x31}"
    using nd(3) x by (auto simp: type_def split: wire_item.splits)
  from recv_turn_body [OF nd(1,2) this fit m] obtain b1 buf1 where b1:
    "recv_turn B (length acc) (length acc) nd =
      recv_body B (frame_header type (length (item_payload x))) (length (item_payload x))
        (length acc) (length acc) (nd\<lparr>nd_tcp_backend := Some b1, nd_recv_buf := buf1\<rparr>)"
    and p1: "pending b1 = item_payload x @ rest" and l1: "live b1" and s1: "sent b1 = sent b"
    and buf1: "take (length acc) buf1 = acc" "length acc + length (item_payload x) \<le> length buf1"
      "nd_buffer_policy nd = Fixed \<longrightarrow> length buf1 = length (nd_recv_buf nd)"
    using acc by metis
  let ?nd1 = "nd\<lparr>nd_tcp_backend := Some b1, nd_recv_buf := buf1\<rparr>"
  show thesis
  proof (cases x)
    case (More d)
    from recv_into_stream [of ?nd1 b1, OF _ l1 p1, of "length acc"] buf1(2) obtain b' where
      "recv_into B (length acc) (length d) ?nd1 = Some (Inr (length d), nd\<lparr>nd_tcp_backend := Some b',
         nd_recv_buf := acc @ d @ drop (length acc + length d) buf1\<rparr>)"
      "pending b' = rest" "live b'" "sent b' = sent b1" using More buf1(1) by auto
    with that [where b' = b' and buf = "acc @ d @ drop (length acc + length d) buf1"] show thesis
      using More b1 s1 buf1(2,3) by (auto simp: recv_body_def type_def)
  next
    case (Discard d)
    from ignoreNBytes_stream [of ?nd1 b1, OF _ l1 p1] obtain b' where
      "ignoreNBytes B (length d) ?nd1 =
         Some (Inr (length d), nd\<lparr>nd_recv_buf := buf1, nd_tcp_backend := Some b'\<rparr>)"
      "pending b' = rest" "live b'" "sent b' = sent b1" using Discard by auto
    with that [where b' = b' and buf = buf1] show thesis
      using Discard b1 s1 buf1 by (simp add: recv_body_def type_def)
  next
    case (Timecode f t)
    from recvExact_stream [of ?nd1 b1, OF _ l1 p1, of "replicate 2 0"] obtain b' where
      r: "recvExact B (replicate 2 0) ?nd1 =
         Some (Inr 2, [t, 0], nd\<lparr>nd_recv_buf := buf1, nd_tcp_backend := Some b'\<rparr>)"
      "pending b' = rest" "live b'" "sent b' = sent b1" using Timecode by auto
    have "frame_header type (Suc (Suc 0)) = [type, 0, 0, 0, 0, 0, 0, 0, 0, 0, 0, 2]"
      by (simp add: frame_header_def be64_def byte_of_def)
    with r that [where b' = b' and buf = buf1] show thesis
      using Timecode b1 s1 buf1 by (cases f) (simp_all add: recv_body_def recv_timecode_def type_def)
  qed
qed

text \<open>
  The whole function on a packet that arrives in any number of parts: it parses exactly the
  assembled packet and consumes nothing behind it.
\<close>

lemma recv_packet_loop_stream:
  assumes "nd_tcp_backend nd = Some b" "live b"
    and "pending b = concat (map item_bytes items) @ frame 0 d @ rest"
    and "take (length acc) (nd_recv_buf nd) = acc"
    and "items_fit (recv_room (nd_buffer_policy nd) (length (nd_recv_buf nd))) acc items"
    and "d \<noteq> []"
    and "recv_room (nd_buffer_policy nd) (length (nd_recv_buf nd)) (length (assemble acc items) + length d)"
    and "parse (nd_packet nd) (assemble acc items @ d) = Some (st, pk)"
  shows "\<exists>b' buf. recv_packet_loop B (length acc) (length acc) nd =
      Some (if st = Success then Inr (length (assemble acc items @ d)) else Inl (make_error_code st),
        nd\<lparr>nd_tcp_backend := Some b', nd_recv_buf := buf, nd_packet := pk\<rparr>) \<and>
    take (length (assemble acc items @ d)) buf = assemble acc items @ d \<and>
    pending b' = rest \<and> live b' \<and> sent b' = sent b \<and>
    (nd_buffer_policy nd = Fixed \<longrightarrow> length buf = length (nd_recv_buf nd))"
  using assms
proof (induction items arbitrary: acc nd b)
  case Nil
  have m: "length acc \<le> length (nd_recv_buf nd)"
    using Nil.prems(4) by (metis length_take min.cobounded1 min.commute)
  have "pending b = frame 0 d @ rest" using Nil.prems(3) by simp
  from recv_turn_body [OF Nil.prems(1,2) this _ Nil.prems(6) Nil.prems(7) [unfolded assemble.simps] m]
  obtain b1 buf1 where b1:
    "recv_turn B (length acc) (length acc) nd =
      recv_body B (frame_header 0 (length d)) (length d)
        (length acc) (length acc) (nd\<lparr>nd_tcp_backend := Some b1, nd_recv_buf := buf1\<rparr>)"
    and p1: "pending b1 = d @ rest" and l1: "live b1" and s1: "sent b1 = sent b"
    and buf1: "take (length acc) buf1 = acc" "length acc + length d \<le> length buf1"
      "nd_buffer_policy nd = Fixed \<longrightarrow> length buf1 = length (nd_recv_buf nd)"
    using Nil.prems(4) by (metis insertI1)
  from recv_into_stream [of "nd\<lparr>nd_tcp_backend := Some b1, nd_recv_buf := buf1\<rparr>" b1,
      OF _ l1 p1, of "length acc"] buf1 obtain b' where
    "recv_into B (length acc) (length d) (nd\<lparr>nd_tcp_backend := Some b1, nd_recv_buf := buf1\<rparr>) =
       Some (Inr (length d), nd\<lparr>nd_tcp_backend := Some b',
         nd_recv_buf := acc @ d @ drop (length acc + length d) buf1\<rparr>)"
    "pending b' = rest" "live b'" "sent b' = sent b" using s1 by auto
  then show ?case
    using Nil.prems(8) b1 buf1(2,3)
    by (subst recv_packet_loop.simps)
      (auto simp: recv_body_def parse_received_def intro!: exI [of _ b']
        exI [of _ "acc @ d @ drop (length acc + length d) buf1"])
next
  case (Cons x items)
  have "pending b = item_bytes x @ (concat (map item_bytes items) @ frame 0 d @ rest)"
    using Cons.prems(3) by simp
  from recv_turn_item [OF Cons.prems(1,2) this Cons.prems(4)] Cons.prems(5) obtain b1 buf1 where
    t: "recv_turn B (length acc) (length acc) nd =
      Some (Next (length (assemble acc [x])) (length (assemble acc [x])),
        nd\<lparr>nd_tcp_backend := Some b1, nd_recv_buf := buf1\<rparr>)"
    and p: "pending b1 = concat (map item_bytes items) @ frame 0 d @ rest"
    and l: "live b1" "sent b1 = sent b"
    and buf: "take (length (assemble acc [x])) buf1 = assemble acc [x]"
      "nd_buffer_policy nd = Fixed \<longrightarrow> length buf1 = length (nd_recv_buf nd)"
    by (metis items_fit.simps(2))
  let ?nd1 = "nd\<lparr>nd_tcp_backend := Some b1, nd_recv_buf := buf1\<rparr>"
  have room: "recv_room (nd_buffer_policy nd) (length buf1) =
      recv_room (nd_buffer_policy nd) (length (nd_recv_buf nd))"
    using buf(2) by (auto simp: recv_room_def fun_eq_iff)
  have as: "assemble acc (x # items) = assemble (assemble acc [x]) items" by (cases x) auto
  from Cons.IH [of ?nd1 b1 "assemble acc [x]"] l p buf Cons.prems(5-8)
  show ?case
    unfolding as by (subst recv_packet_loop.simps) (simp add: t room)
qed

end


section \<open>What is sent\<close>

lemma send_eq:
  assumes "total_size + 12 \<le> length (nd_send_buf nd)" "nd_tcp_backend nd = Some b"
  shows "send B total_size nd = do {
     (res, b) \<leftarrow> be_sendAll B (frame_header 0 total_size @ take total_size (drop 12 (nd_send_buf nd))) b;
     Some (res, nd\<lparr>nd_send_buf := frame_header 0 total_size @ drop 12 (nd_send_buf nd),
                   nd_tcp_backend := Some b\<rparr>)
   }"
proof -
  have "store_from 0 (frame_header 0 total_size) (nd_send_buf nd) =
      Some (frame_header 0 total_size @ drop 12 (nd_send_buf nd))"
    using assms(1) by (subst store_from_eq) simp_all
  moreover define size :: u64 where "size = word_of_nat total_size"
  have "[0x00, 0x00, 0x00, 0x00, byte_of 56 size, byte_of 48 size, byte_of 40 size,
      byte_of 32 size, byte_of 24 size, byte_of 16 size, byte_of 8 size, byte_of 0 size] =
      frame_header 0 total_size"
    by (simp add: frame_header_def be64_def size_def)
  ultimately show ?thesis
    using assms unfolding send_def Let_def size_def by (simp del: store_from.simps)
qed

context packet_codec
begin

lemma build_frame_eq:
  assumes "admissible c" "getTotalSize c \<le> INT_MAX" "12 \<le> length (nd_send_buf nd)"
  shows "build_frame build c nd = Some (
     if getTotalSize c + 12 \<le> length (nd_send_buf nd)
     then (Inr (getTotalSize c), nd\<lparr>nd_send_buf := take 12 (nd_send_buf nd) @ encode c @
             drop (getTotalSize c + 12) (nd_send_buf nd)\<rparr>)
     else (Inl (Generic no_buffer_space), nd))"
  using assms(3) by (simp add: build_frame_def build_result [OF assms(1,2)] less_diff_conv2 le_diff_conv2)

text \<open>Building and sending: exactly one frame with the encoded packet goes out.\<close>

lemma build_send:
  assumes "admissible c" "getTotalSize c \<le> INT_MAX"
    and "getTotalSize c + 12 \<le> length (nd_send_buf nd)" "nd_tcp_backend nd = Some b"
  shows "build_frame build c nd = Some (Inr (getTotalSize c), nd\<lparr>nd_send_buf :=
       take 12 (nd_send_buf nd) @ encode c @ drop (getTotalSize c + 12) (nd_send_buf nd)\<rparr>)"
    and "send B (getTotalSize c) (nd\<lparr>nd_send_buf :=
       take 12 (nd_send_buf nd) @ encode c @ drop (getTotalSize c + 12) (nd_send_buf nd)\<rparr>) =
     do {
       (res, b) \<leftarrow> be_sendAll B (frame 0 (encode c)) b;
       Some (res, nd\<lparr>nd_send_buf := frame 0 (encode c) @
               drop (getTotalSize c + 12) (nd_send_buf nd), nd_tcp_backend := Some b\<rparr>)
     }"
proof -
  show "build_frame build c nd = Some (Inr (getTotalSize c), nd\<lparr>nd_send_buf :=
       take 12 (nd_send_buf nd) @ encode c @ drop (getTotalSize c + 12) (nd_send_buf nd)\<rparr>)"
    using assms by (simp add: build_frame_eq)
  show "send B (getTotalSize c) (nd\<lparr>nd_send_buf :=
       take 12 (nd_send_buf nd) @ encode c @ drop (getTotalSize c + 12) (nd_send_buf nd)\<rparr>) =
     do {
       (res, b) \<leftarrow> be_sendAll B (frame 0 (encode c)) b;
       Some (res, nd\<lparr>nd_send_buf := frame 0 (encode c) @
               drop (getTotalSize c + 12) (nd_send_buf nd), nd_tcp_backend := Some b\<rparr>)
     }"
    by (subst send_eq [where b = b]) (use assms in \<open>simp_all add: frame_def length_encode\<close>)
qed

end

lemma reserve_send_enough: "n \<le> length (nd_send_buf nd) \<Longrightarrow> reserve_send n nd = Some (Inr (), nd)"
  by (simp add: reserve_send_def)

definition send_frame ::
    "'b backend \<Rightarrow> bytes \<Rightarrow> 'b \<Rightarrow> ('b, 'u) node \<Rightarrow> ((error_code + unit) \<times> ('b, 'u) node) option" where
  "send_frame B p b nd = do {
     (res, b) \<leftarrow> be_sendAll B (frame 0 p) b;
     Some (res, nd\<lparr>nd_send_buf := frame 0 p @ drop (length p + 12) (nd_send_buf nd),
                   nd_tcp_backend := Some b\<rparr>)
   }"

lemma config_send_buf [simp]:
  "read_config t tid a l (nd\<lparr>nd_send_buf := buf\<rparr>) = read_config t tid a l nd"
  "write_config t tid a data (nd\<lparr>nd_send_buf := buf\<rparr>) = write_config t tid a data nd"
  by (simp_all add: read_config_def write_config_def)

text \<open>
  The two senders in closed form. Without a connection nothing happens; with one, either the
  buffer does not do and \<open>no_buffer_space\<close> is returned, or exactly one frame with the encoded
  packet is handed to the backend.
\<close>

lemma sendWritePacket_eq:
  fixes nd :: "('b, 'u) node" and t tid a data
  assumes "length (getReplyAddress t) \<le> 12"
  defines "c \<equiv> write_config t tid a data nd"
  assumes "WritePacketBuilder_getTotalSize c \<le> INT_MAX"
  shows "sendWritePacket B t tid a data nd = (case nd_tcp_backend nd of
       None \<Rightarrow> Some (Inl (Generic not_connected), nd)
     | Some b \<Rightarrow>
         if length (nd_send_buf nd) < WritePacketBuilder_getTotalSize c + 12 \<and> nd_buffer_policy nd = Fixed
         then Some (Inl (Generic no_buffer_space), nd)
         else send_frame B (write_packet c) b nd)"
proof (cases "nd_tcp_backend nd")
  case (Some b)
  define n where "n = WritePacketBuilder_getTotalSize c"
  have adm: "length (wr_replyAddress c) \<le> 12" using assms(1) by (simp add: c_def write_config_def)
  have n: "length (getTargetSpaceWireAddress t) + (length (getReplyAddress t) + 3) div 4 * 4 + 4 + 12 + 1 +
      length data = n"
    by (simp add: n_def WritePacketBuilder_getTotalSize_def c_def write_config_def)
  define buf where "buf = take (n + 12) (nd_send_buf nd) @ replicate (n + 12 - length (nd_send_buf nd)) 0 @
    drop (n + 12) (nd_send_buf nd)"
  have res: "reserve_send (n + 12) nd = (if length (nd_send_buf nd) < n + 12 \<and> nd_buffer_policy nd = Fixed
      then Some (Inl (Generic no_buffer_space), nd) else Some (Inr (), nd\<lparr>nd_send_buf := buf\<rparr>))"
    using assms(3) by (auto simp: reserve_send_def buf_def n_def INT_MAX_def VECTOR_MAX_SIZE_def)
  have len: "n + 12 \<le> length buf" "drop (n + 12) buf = drop (n + 12) (nd_send_buf nd)"
    by (auto simp: buf_def)
  have le: "n + 12 \<le> length (nd_send_buf (nd\<lparr>nd_send_buf := buf\<rparr>))"
    "nd_tcp_backend (nd\<lparr>nd_send_buf := buf\<rparr>) = Some b" using len Some by simp_all
  note bs = write_codec.build_send [OF adm assms(3), where nd = "nd\<lparr>nd_send_buf := buf\<rparr>" and b = b,
      folded n_def, OF le]
  show ?thesis
    unfolding sendWritePacket_def n Let_def Some res
    using bs by (simp add: c_def [symmetric] len n_def [symmetric] send_frame_def write_codec.length_encode)
qed (simp add: sendWritePacket_def)

lemma sendReadPacket_eq:
  fixes nd :: "('b, 'u) node" and t tid a l
  assumes "length (getReplyAddress t) \<le> 12"
  defines "c \<equiv> read_config t tid a l nd"
  assumes "ReadPacketBuilder_getTotalSize c \<le> INT_MAX"
  shows "sendReadPacket B t tid a l nd = (case nd_tcp_backend nd of
       None \<Rightarrow> Some (Inl (Generic not_connected), nd)
     | Some b \<Rightarrow>
         if length (nd_send_buf nd) < ReadPacketBuilder_getTotalSize c + 12
         then Some (Inl (Generic no_buffer_space), nd\<lparr>nd_send_buf :=
           (if nd_buffer_policy nd = Fixed then nd_send_buf nd
            else nd_send_buf nd @
              replicate (ReadPacketBuilder_getTotalSize c + 1 - length (nd_send_buf nd)) 0)\<rparr>)
         else send_frame B (read_packet c) b nd)"
proof (cases "nd_tcp_backend nd")
  case (Some b)
  define n where "n = ReadPacketBuilder_getTotalSize c"
  have adm: "length (rd_replyAddress c) \<le> 12" using assms(1) by (simp add: c_def read_config_def)
  have n: "length (getTargetSpaceWireAddress t) + (length (getReplyAddress t) + 3) div 4 * 4 + 4 + 12 + 1
      = n + 1" "16 \<le> n"
    by (simp_all add: n_def ReadPacketBuilder_getTotalSize_def c_def read_config_def)
  define buf where "buf = nd_send_buf nd @ replicate (n + 1 - length (nd_send_buf nd)) 0"
  have res: "reserve_send (n + 1) nd = (if length (nd_send_buf nd) < n + 1 \<and> nd_buffer_policy nd = Fixed
      then Some (Inl (Generic no_buffer_space), nd) else Some (Inr (), nd\<lparr>nd_send_buf := buf\<rparr>))"
    using assms(3) by (auto simp: reserve_send_def buf_def n_def INT_MAX_def VECTOR_MAX_SIZE_def)
  show ?thesis
  proof (cases "length (nd_send_buf nd) < n + 12")
    case True
    then have "12 \<le> length buf" "\<not> n + 12 \<le> length buf" using n(2) by (auto simp: buf_def)
    with read_codec.build_frame_eq [OF adm assms(3), of "nd\<lparr>nd_send_buf := buf\<rparr>"] True
    show ?thesis
      unfolding sendReadPacket_def n Let_def Some res
      by (auto simp: c_def [symmetric] n_def [symmetric] buf_def)
  next
    case False
    then have buf: "buf = nd_send_buf nd" by (simp add: buf_def)
    from False have le: "n + 12 \<le> length (nd_send_buf nd)" by simp
    note bs = read_codec.build_send [OF adm assms(3), where nd = nd and b = b, folded n_def, OF le Some]
    have "n + 12 \<le> length (take 12 (nd_send_buf nd) @ read_packet c @ drop (n + 12) (nd_send_buf nd))"
      using le by (simp add: read_codec.length_encode n_def)
    then show ?thesis
      using False unfolding sendReadPacket_def n Let_def Some res
      by (simp add: c_def [symmetric] buf bs n_def [symmetric] send_frame_def
          read_codec.length_encode reserve_send_enough)
  qed
qed (simp add: sendReadPacket_def)

section \<open>What receiving and sending leave alone\<close>

text \<open>The node without its connection, its buffers and the packet of its parser.\<close>

definition core :: "('b, 'u) node \<Rightarrow> ('b, 'u) node" where
  "core nd = nd\<lparr>nd_tcp_backend := None, nd_recv_buf := [], nd_send_buf := [], nd_packet := empty_packet\<rparr>"

lemma core_simps [simp]:
  "core (nd\<lparr>nd_tcp_backend := b\<rparr>) = core nd" "core (nd\<lparr>nd_recv_buf := buf\<rparr>) = core nd"
  "core (nd\<lparr>nd_send_buf := buf\<rparr>) = core nd" "core (nd\<lparr>nd_packet := pk\<rparr>) = core nd"
  by (simp_all add: core_def)

lemma core_fields:
  assumes "core nd' = core nd"
  shows "nd_reply_callback nd' = nd_reply_callback nd"
    "nd_reply_error_callback nd' = nd_reply_error_callback nd"
    "nd_available nd' = nd_available nd" "nd_last_used nd' = nd_last_used nd"
    "nd_initiator_logical_address nd' = nd_initiator_logical_address nd"
    "nd_transaction_id_min nd' = nd_transaction_id_min nd"
    "nd_transaction_id_max nd' = nd_transaction_id_max nd"
    "nd_buffer_policy nd' = nd_buffer_policy nd"
    "nd_send_timeout nd' = nd_send_timeout nd"
    "nd_transaction_timeout nd' = nd_transaction_timeout nd"
    "nd_running nd' = nd_running nd" "nd_on_write nd' = nd_on_write nd"
    "nd_on_read nd' = nd_on_read nd" "nd_verify_mode nd' = nd_verify_mode nd"
    "nd_shutdowned nd' = nd_shutdowned nd" "nd_promises nd' = nd_promises nd" "nd_user nd' = nd_user nd"
  using assms unfolding core_def by (cases nd; cases nd'; simp)+

lemma recvExact_core: "recvExact B buffer nd = Some (r, buf, nd') \<Longrightarrow> core nd' = core nd"
  by (auto simp: recvExact_def elim!: bind_SomeE split: option.split_asm)

lemma ignoreNBytes_core: "ignoreNBytes B n nd = Some (r, nd') \<Longrightarrow> core nd' = core nd"
  by (auto simp: ignoreNBytes_def Let_def elim!: bind_SomeE dest!: recvExact_core
      split: option.split_asm sum.split_asm if_split_asm)

lemma make_room_core: "make_room m off n nd = Some (r, nd') \<Longrightarrow> core nd' = core nd"
  by (auto simp: make_room_def elim!: bind_SomeE split: if_split_asm)

lemma recv_into_core: "recv_into B off n nd = Some (r, nd') \<Longrightarrow> core nd' = core nd"
  by (auto simp: recv_into_def elim!: bind_SomeE dest!: recvExact_core)

lemma recv_timecode_core: "recv_timecode B h m off nd = Some (r, nd') \<Longrightarrow> core nd' = core nd"
  by (auto simp: recv_timecode_def elim!: bind_SomeE dest!: recvExact_core
      split: if_split_asm sum.split_asm)

lemma recv_body_core: "recv_body B h n m off nd = Some (r, nd') \<Longrightarrow> core nd' = core nd"
  by (auto simp: recv_body_def elim!: bind_SomeE
      dest!: recv_into_core ignoreNBytes_core recv_timecode_core
      split: if_split_asm sum.split_asm)

lemma recv_turn_core: "recv_turn B m off nd = Some (r, nd') \<Longrightarrow> core nd' = core nd"
  by (auto simp: recv_turn_def Let_def elim!: bind_SomeE
      dest!: recvExact_core make_room_core recv_body_core split: if_split_asm sum.split_asm)

lemma parse_received_core: "parse_received n nd = Some (r, nd') \<Longrightarrow> core nd' = core nd"
  by (auto simp: parse_received_def Let_def elim!: bind_SomeE)

lemma recv_packet_loop_core:
  assumes "recv_packet_loop B m off nd = Some (r, nd')"
  shows "core nd' = core nd"
proof -
  have "core (snd (r, nd')) = core nd"
  proof (rule recv_packet_loop.raw_induct [where P = "\<lambda>B m off nd y. core (snd y) = core nd", OF _ assms])
    fix loop B m off nd y
    assume IH: "\<And>B m off nd y. loop B m off nd = Some y \<Longrightarrow> core (snd y) = core nd"
      and step: "do { (t, nd) \<leftarrow> recv_turn B m off nd;
        case t of Return r \<Rightarrow> Some (r, nd) | Finished n \<Rightarrow> parse_received n nd
        | Next m off \<Rightarrow> loop B m off nd } = Some y"
    from step obtain t nd1 where t: "recv_turn B m off nd = Some (t, nd1)"
      and y: "(case t of Return r \<Rightarrow> Some (r, nd1) | Finished n \<Rightarrow> parse_received n nd1
        | Next m off \<Rightarrow> loop B m off nd1) = Some y" by (auto elim!: bind_SomeE)
    from y have "core (snd y) = core nd1"
      by (cases t; cases y) (auto dest: IH parse_received_core)
    with recv_turn_core [OF t] show "core (snd y) = core nd" by simp
  qed
  then show ?thesis by simp
qed

lemma recvAndParseOnePacket_core:
  "recvAndParseOnePacket B nd = Some (r, nd') \<Longrightarrow> core nd' = core nd"
  by (auto simp: recvAndParseOnePacket_def dest!: recv_packet_loop_core split: if_split_asm)

lemma send_core: "send B n nd = Some (r, nd') \<Longrightarrow> core nd' = core nd"
  by (auto simp: send_def Let_def elim!: bind_SomeE)

lemma build_frame_core: "build_frame f c nd = Some (r, nd') \<Longrightarrow> core nd' = core nd"
  by (auto simp: build_frame_def elim!: bind_SomeE)

lemma reserve_send_core: "reserve_send n nd = Some (r, nd') \<Longrightarrow> core nd' = core nd"
  by (auto simp: reserve_send_def elim!: bind_SomeE split: if_split_asm)

lemma sendReadPacket_core:
  "sendReadPacket B t tid a l nd = Some (r, nd') \<Longrightarrow> core nd' = core nd"
  by (auto simp: sendReadPacket_def Let_def elim!: bind_SomeE
      dest!: send_core build_frame_core reserve_send_core split: if_split_asm sum.split_asm)

lemma sendWritePacket_core:
  "sendWritePacket B t tid a data nd = Some (r, nd') \<Longrightarrow> core nd' = core nd"
  by (auto simp: sendWritePacket_def Let_def elim!: bind_SomeE
      dest!: send_core build_frame_core reserve_send_core split: if_split_asm sum.split_asm)

end
