(* ===== verification/Node_Transactions.thy ===== *)
theory Node_Transactions
  imports Node_Frame
begin

unbundle bit_operations_syntax

text \<open>
  The transaction table of \<open>SpwRmapTCPNodeImpl\<close>: identifiers, the callbacks registered under
  them, the promises those will fulfil. Operations:
  \<open>getAvailableTransactionID_\<close>, \<open>releaseTransactionID_\<close>,
  \<open>forceReleaseTransaction_\<close>, \<open>cancelTransaction_\<close>, the two \<open>start...AsyncOperation_\<close>
  and the two closures they register.
\<close>

section \<open>Promises\<close>

definition make_promise :: "('b, 'u) node \<Rightarrow> nat \<times> ('b, 'u) node" where
  "make_promise nd = (length (nd_promises nd), nd\<lparr>nd_promises := nd_promises nd @ [None]\<rparr>)"

text \<open>\<open>promise->set_value(v)\<close> throws when the promise already has a value; every caller is
  \<open>noexcept\<close>, so the program then ends.\<close>

definition set_value :: "nat \<Rightarrow> error_code + unit \<Rightarrow> ('b, 'u) node \<Rightarrow> ('b, 'u) node option" where
  "set_value p v nd = do {
     old \<leftarrow> span_at (nd_promises nd) p;
     if old \<noteq> None then None else Some (nd\<lparr>nd_promises := (nd_promises nd)[p := Some v]\<rparr>)
   }"

text \<open>
  The promise is a \<open>std::shared_ptr\<close>. Once the function that made it has returned, the closures in
  \<open>reply_callback_\<close> and \<open>reply_error_callback_\<close> are its only owners. When the last of them is
  overwritten with \<open>nullptr\<close> before a value is set, the destructor of \<open>std::promise\<close> stores
  \<open>broken_promise\<close>: the future is ready, and its \<open>get()\<close> throws \<open>std::future_error\<close>.
\<close>

definition promise_held :: "nat \<Rightarrow> ('b, 'u) node \<Rightarrow> bool" where
  "promise_held p nd \<longleftrightarrow>
     list_ex (\<lambda>cb. map_option rc_promise cb = Some p) (nd_reply_callback nd) \<or>
     list_ex (\<lambda>cb. map_option ec_promise cb = Some p) (nd_reply_error_callback nd)"

datatype future_state =
    Future_pending
  | Future_ready "error_code + unit"
  | Future_broken

definition future_status :: "nat \<Rightarrow> ('b, 'u) node \<Rightarrow> future_state option" where
  "future_status p nd = do {
     value \<leftarrow> span_at (nd_promises nd) p;
     Some (case value of
         Some res \<Rightarrow> Future_ready res
       | None \<Rightarrow> if promise_held p nd then Future_pending else Future_broken)
   }"

section \<open>Releasing identifiers\<close>

text \<open>\<open>transaction_id - transaction_id_min_\<close>, computed in \<open>int\<close>.\<close>

definition tid_index :: "u16 \<Rightarrow> ('b, 'u) node \<Rightarrow> nat" where
  "tid_index transaction_id nd = nat (uint transaction_id - uint (nd_transaction_id_min nd))"

definition tid_out_of_range :: "u16 \<Rightarrow> ('b, 'u) node \<Rightarrow> bool" where
  "tid_out_of_range transaction_id nd \<longleftrightarrow>
     transaction_id < nd_transaction_id_min nd \<or> transaction_id \<ge> nd_transaction_id_max nd"

definition releaseTransactionID :: "u16 \<Rightarrow> ('b, 'u) node \<Rightarrow> ('b, 'u) node option" where
  "releaseTransactionID transaction_id nd =
    (if tid_out_of_range transaction_id nd then None
     else do {
       let index = tid_index transaction_id nd;
       available \<leftarrow> store index True (nd_available nd);
       last_used \<leftarrow> store index TIME_POINT_MIN (nd_last_used nd);
       Some (nd\<lparr>nd_available := available, nd_last_used := last_used\<rparr>)
     })"

text \<open>\<open>reply_callback_[index] = nullptr; reply_error_callback_[index] = nullptr;\<close>\<close>

definition clear_callbacks :: "nat \<Rightarrow> ('b, 'u) node \<Rightarrow> ('b, 'u) node option" where
  "clear_callbacks index nd = do {
     rc \<leftarrow> store index None (nd_reply_callback nd);
     ec \<leftarrow> store index None (nd_reply_error_callback nd);
     Some (nd\<lparr>nd_reply_callback := rc, nd_reply_error_callback := ec\<rparr>)
   }"

definition cancelTransaction :: "u16 \<Rightarrow> ('b, 'u) node \<Rightarrow> ('b, 'u) node option" where
  "cancelTransaction transaction_id nd =
    (if tid_out_of_range transaction_id nd then Some nd
     else do {
       nd \<leftarrow> clear_callbacks (tid_index transaction_id nd) nd;
       releaseTransactionID transaction_id nd
     })"

text \<open>The end of every closure: fulfil the promise, release the identifier, drop the error
  callback.\<close>

definition finish_transaction ::
    "nat \<Rightarrow> u16 \<Rightarrow> nat \<Rightarrow> error_code + unit \<Rightarrow> ('b, 'u) node \<Rightarrow> ('b, 'u) node option" where
  "finish_transaction promise transaction_id tx_index v nd = do {
     nd \<leftarrow> set_value promise v nd;
     nd \<leftarrow> releaseTransactionID transaction_id nd;
     ec \<leftarrow> store tx_index None (nd_reply_error_callback nd);
     Some (nd\<lparr>nd_reply_error_callback := ec\<rparr>)
   }"

definition call_error_callback :: "error_callback \<Rightarrow> error_code \<Rightarrow> ('b, 'u) node \<Rightarrow> ('b, 'u) node option" where
  "call_error_callback f ec nd =
     finish_transaction (ec_promise f) (ec_transaction_id f) (ec_tx_index f) (Inl ec) nd"

definition call_reply_callback :: "'u reply_callback \<Rightarrow> packet \<Rightarrow> ('b, 'u) node \<Rightarrow> ('b, 'u) node option" where
  "call_reply_callback f packet nd = do {
     (out, user) \<leftarrow> rc_on_complete f packet (nd_user nd);
     let nd = nd\<lparr>nd_user := user\<rparr>;
     let v = (case out of
         Returns _ \<Rightarrow> Inr ()
       | Throws_exception \<Rightarrow> Inl (Generic operation_canceled)
       | Throws_other \<Rightarrow> Inl (Generic operation_canceled));
     finish_transaction (rc_promise f) (rc_transaction_id f) (rc_tx_index f) v nd
   }"

definition forceReleaseTransaction :: "nat \<Rightarrow> ('b, 'u) node \<Rightarrow> ('b, 'u) node option" where
  "forceReleaseTransaction index nd = do {
     error_handler \<leftarrow> span_at (nd_reply_error_callback nd) index;
     nd \<leftarrow> clear_callbacks index nd;
     case error_handler of
       Some f \<Rightarrow> call_error_callback f (Generic timed_out) nd
     | None \<Rightarrow> releaseTransactionID (nd_transaction_id_min nd + word_of_nat index) nd
   }"

section \<open>Acquiring identifiers\<close>

text \<open>\<open>now - last_used > timeout\<close>: nanoseconds in 64 bits against milliseconds, which are converted
  to nanoseconds. A signed overflow is undefined.\<close>

definition int64 :: "int \<Rightarrow> int option" where
  "int64 x = (if - (2 ^ 63) \<le> x \<and> x < 2 ^ 63 then Some x else None)"

definition expired :: "int \<Rightarrow> int \<Rightarrow> int \<Rightarrow> bool option" where
  "expired now used timeout = do {
     elapsed \<leftarrow> int64 (now - used);
     limit \<leftarrow> int64 (timeout * 1000000);
     Some (elapsed > limit)
   }"

text \<open>The scan: \<open>k\<close> indices are left, \<open>i\<close> is the next one.\<close>

fun scan_ids ::
    "int \<Rightarrow> ('b, 'u) node \<Rightarrow> nat \<Rightarrow> nat \<Rightarrow> nat option \<Rightarrow> (nat option \<times> nat option) option" where
  "scan_ids now nd 0 i expired_index = Some (None, expired_index)"
| "scan_ids now nd (Suc k) i expired_index = do {
     available \<leftarrow> span_at (nd_available nd) i;
     if available then Some (Some i, expired_index)
     else do {
       expired_index \<leftarrow> (if expired_index = None then do {
           used \<leftarrow> span_at (nd_last_used nd) i;
           e \<leftarrow> expired now used (nd_transaction_timeout nd);
           Some (if e then Some i else None)
         } else Some expired_index);
       scan_ids now nd k (Suc i) expired_index
     }
   }"

text \<open>
  \<open>i < total_ids\<close> compares \<open>size_t\<close> with \<open>int\<close>. The clock is read once per round:
  \<open>clock r\<close> is the time in round \<open>r\<close>.
\<close>

definition total_ids :: "('b, 'u) node \<Rightarrow> nat" where
  "total_ids nd =
     unat (word_of_int (uint (nd_transaction_id_max nd) - uint (nd_transaction_id_min nd)) :: u64)"

partial_function (option) get_id_loop ::
    "(nat \<Rightarrow> int) \<Rightarrow> nat \<Rightarrow> ('b, 'u) node \<Rightarrow> ((error_code + u32) \<times> ('b, 'u) node) option" where
  "get_id_loop clock r nd = do {
     (found, expired_index) \<leftarrow> scan_ids (clock r) nd (total_ids nd) 0 None;
     case found of
       Some i \<Rightarrow> do {
         available \<leftarrow> store i False (nd_available nd);
         last_used \<leftarrow> store i (clock r) (nd_last_used nd);
         Some (Inr (ucast (nd_transaction_id_min nd) + word_of_nat i),
               nd\<lparr>nd_available := available, nd_last_used := last_used\<rparr>)
       }
     | None \<Rightarrow>
         (case expired_index of
            None \<Rightarrow> Some (Inl (Generic resource_unavailable_try_again), nd)
          | Some i \<Rightarrow> do {
              nd \<leftarrow> forceReleaseTransaction i nd;
              get_id_loop clock (Suc r) nd
            })
   }"

definition getAvailableTransactionID ::
    "(nat \<Rightarrow> int) \<Rightarrow> ('b, 'u) node \<Rightarrow> ((error_code + u32) \<times> ('b, 'u) node) option" where
  "getAvailableTransactionID clock nd = get_id_loop clock 0 nd"

section \<open>Starting operations\<close>

record AsyncOperation =
  op_future :: nat
  op_transaction_id :: "u16 option"

text \<open>
  \<open>startWriteAsyncOperation_\<close> and \<open>startReadAsyncOperation_\<close> differ only in the packet
  they send, which is the argument \<open>sender\<close>.
\<close>

definition startAsyncOperation ::
    "(u16 \<Rightarrow> ('b, 'u) node \<Rightarrow> ((error_code + unit) \<times> ('b, 'u) node) option) \<Rightarrow> (nat \<Rightarrow> int) \<Rightarrow>
     'u completion \<Rightarrow> ('b, 'u) node \<Rightarrow> (AsyncOperation \<times> ('b, 'u) node) option" where
  "startAsyncOperation sender clock on_complete nd = do {
     let (promise, nd) = make_promise nd;
     let opn = \<lparr>op_future = promise, op_transaction_id = None\<rparr>;
     (res, nd) \<leftarrow> getAvailableTransactionID clock nd;
     case res of
       Inl e \<Rightarrow> do {
         nd \<leftarrow> set_value promise (Inl e) nd;
         Some (opn, nd)
       }
     | Inr tid \<Rightarrow> do {
         let transaction_id = ucast tid;
         let opn = opn\<lparr>op_transaction_id := Some transaction_id\<rparr>;
         let tx_index = tid_index transaction_id nd;
         ec \<leftarrow> store tx_index (Some \<lparr>ec_promise = promise, ec_transaction_id = transaction_id,
                 ec_tx_index = tx_index\<rparr>) (nd_reply_error_callback nd);
         rc \<leftarrow> store tx_index (Some \<lparr>rc_on_complete = on_complete, rc_promise = promise,
                 rc_transaction_id = transaction_id, rc_tx_index = tx_index\<rparr>) (nd_reply_callback nd);
         let nd = nd\<lparr>nd_reply_error_callback := ec, nd_reply_callback := rc\<rparr>;
         (res, nd) \<leftarrow> sender transaction_id nd;
         case res of
           Inl e \<Rightarrow> do {
             nd \<leftarrow> clear_callbacks tx_index nd;
             nd \<leftarrow> set_value promise (Inl e) nd;
             nd \<leftarrow> releaseTransactionID transaction_id nd;
             Some (opn\<lparr>op_transaction_id := None\<rparr>, nd)
           }
         | Inr _ \<Rightarrow> Some (opn, nd)
       }
   }"

definition startWriteAsyncOperation ::
    "'b backend \<Rightarrow> (nat \<Rightarrow> int) \<Rightarrow> target_node \<Rightarrow> u32 \<Rightarrow> bytes \<Rightarrow> 'u completion \<Rightarrow> ('b, 'u) node \<Rightarrow>
     (AsyncOperation \<times> ('b, 'u) node) option" where
  "startWriteAsyncOperation B clock target_node memory_address data on_complete nd =
     startAsyncOperation (\<lambda>tid. sendWritePacket B target_node tid memory_address data) clock
       on_complete nd"

definition startReadAsyncOperation ::
    "'b backend \<Rightarrow> (nat \<Rightarrow> int) \<Rightarrow> target_node \<Rightarrow> u32 \<Rightarrow> u32 \<Rightarrow> 'u completion \<Rightarrow> ('b, 'u) node \<Rightarrow>
     (AsyncOperation \<times> ('b, 'u) node) option" where
  "startReadAsyncOperation B clock target_node memory_address data_length on_complete nd =
     startAsyncOperation (\<lambda>tid. sendReadPacket B target_node tid memory_address data_length) clock
       on_complete nd"

text \<open>\<open>writeAsync\<close> and \<open>readAsync\<close> return the future, here the index of its promise.\<close>

definition writeAsync ::
    "'b backend \<Rightarrow> (nat \<Rightarrow> int) \<Rightarrow> target_node \<Rightarrow> u32 \<Rightarrow> bytes \<Rightarrow> 'u completion \<Rightarrow> ('b, 'u) node \<Rightarrow>
     (nat \<times> ('b, 'u) node) option" where
  "writeAsync B clock target_node memory_address data on_complete nd = do {
     (opn, nd) \<leftarrow> startWriteAsyncOperation B clock target_node memory_address data on_complete nd;
     Some (op_future opn, nd)
   }"

definition readAsync ::
    "'b backend \<Rightarrow> (nat \<Rightarrow> int) \<Rightarrow> target_node \<Rightarrow> u32 \<Rightarrow> u32 \<Rightarrow> 'u completion \<Rightarrow> ('b, 'u) node \<Rightarrow>
     (nat \<times> ('b, 'u) node) option" where
  "readAsync B clock target_node memory_address data_length on_complete nd = do {
     (opn, nd) \<leftarrow> startReadAsyncOperation B clock target_node memory_address data_length on_complete nd;
     Some (op_future opn, nd)
   }"

text \<open>
  What \<open>poll\<close> does with a reply. A reply without a registered callback is reported on
  \<open>stderr\<close> and dropped.
\<close>

definition handle_reply ::
    "packet \<Rightarrow> ('b, 'u) node \<Rightarrow> ((error_code + bool) \<times> ('b, 'u) node) option" where
  "handle_reply packet nd =
    (if tid_out_of_range (pk_transactionID packet) nd
     then Some (Inl (Generic bad_message), nd)
     else do {
       let idx = tid_index (pk_transactionID packet) nd;
       cb \<leftarrow> span_at (nd_reply_callback nd) idx;
       case cb of
         Some callback \<Rightarrow> do {
           nd \<leftarrow> clear_callbacks idx nd;
           nd \<leftarrow> call_reply_callback callback packet nd;
           Some (Inr True, nd)
         }
       | None \<Rightarrow> Some (Inr True, nd)
     })"


section \<open>The invariant of the transaction table\<close>

definition id_count :: "('b, 'u) node \<Rightarrow> nat" where
  "id_count nd = unat (nd_transaction_id_max nd) - unat (nd_transaction_id_min nd)"

definition slot_id :: "('b, 'u) node \<Rightarrow> nat \<Rightarrow> u16" where
  "slot_id nd i = nd_transaction_id_min nd + word_of_nat i"

text \<open>
  A slot is free, or an operation is in flight: then its two closures belong to the slot and to one
  promise that is still unset, and the time of its start is known.
\<close>

definition slot_ok :: "('b, 'u) node \<Rightarrow> nat \<Rightarrow> bool" where
  "slot_ok nd i \<longleftrightarrow> (case nd_reply_callback nd ! i of
       None \<Rightarrow> nd_reply_error_callback nd ! i = None \<and> nd_available nd ! i
     | Some rc \<Rightarrow>
         nd_reply_error_callback nd ! i = Some \<lparr>ec_promise = rc_promise rc,
           ec_transaction_id = slot_id nd i, ec_tx_index = i\<rparr> \<and>
         \<not> nd_available nd ! i \<and> rc_transaction_id rc = slot_id nd i \<and> rc_tx_index rc = i \<and>
         rc_promise rc < length (nd_promises nd) \<and> nd_promises nd ! rc_promise rc = None \<and>
         0 \<le> nd_last_used nd ! i \<and> nd_last_used nd ! i < 2 ^ 63)"

definition promises_distinct :: "('b, 'u) node \<Rightarrow> bool" where
  "promises_distinct nd \<longleftrightarrow> (\<forall>i j f g. i < id_count nd \<longrightarrow> j < id_count nd \<longrightarrow>
     nd_reply_callback nd ! i = Some f \<longrightarrow> nd_reply_callback nd ! j = Some g \<longrightarrow>
     rc_promise f = rc_promise g \<longrightarrow> i = j)"

definition table_shape :: "('b, 'u) node \<Rightarrow> bool" where
  "table_shape nd \<longleftrightarrow> nd_transaction_id_min nd \<le> nd_transaction_id_max nd \<and>
     length (nd_reply_callback nd) = id_count nd \<and> length (nd_reply_error_callback nd) = id_count nd \<and>
     length (nd_available nd) = id_count nd \<and> length (nd_last_used nd) = id_count nd \<and>
     int64 (nd_transaction_timeout nd * 1000000) \<noteq> None"

definition node_inv :: "('b, 'u) node \<Rightarrow> bool" where
  "node_inv nd \<longleftrightarrow> table_shape nd \<and> (\<forall>i < id_count nd. slot_ok nd i) \<and> promises_distinct nd"

lemma node_inv_core:
  assumes "core nd' = core nd"
  shows "node_inv nd' = node_inv nd"
  unfolding node_inv_def table_shape_def slot_ok_def promises_distinct_def id_count_def slot_id_def
    core_fields [OF assms] by (rule refl)

subsection \<open>Identifiers and slots\<close>

lemma unat_u16: "unat (x :: u16) < 65536"
  by (rule order.strict_trans2 [OF unsigned_less]) simp

lemma tid_index_unat: "tid_index t nd = unat t - unat (nd_transaction_id_min nd)"
  by (simp add: tid_index_def nat_minus_as_int)

lemma tid_out_of_range_unat:
  "tid_out_of_range t nd \<longleftrightarrow> unat t < unat (nd_transaction_id_min nd) \<or> unat (nd_transaction_id_max nd) \<le> unat t"
  by (simp add: tid_out_of_range_def word_le_nat_alt word_less_nat_alt)

lemma tid_index_less: "\<not> tid_out_of_range t nd \<Longrightarrow> tid_index t nd < id_count nd"
  by (simp add: tid_out_of_range_unat tid_index_unat id_count_def) linarith

lemma slot_id_unat:
  assumes "i < id_count nd"
  shows "unat (slot_id nd i) = unat (nd_transaction_id_min nd) + i"
proof -
  have "unat (nd_transaction_id_min nd) + i < 65536"
    using assms unat_u16 [of "nd_transaction_id_max nd"] by (simp add: id_count_def)
  then show ?thesis
    by (simp add: slot_id_def unat_word_ariths unsigned_of_nat take_bit_nat_def)
qed

lemma tid_index_slot_id:
  assumes "i < id_count nd"
  shows "tid_index (slot_id nd i) nd = i" "\<not> tid_out_of_range (slot_id nd i) nd"
  using assms by (simp_all add: tid_index_unat tid_out_of_range_unat slot_id_unat) (simp add: id_count_def)

lemma slot_id_tid_index:
  assumes "\<not> tid_out_of_range t nd"
  shows "slot_id nd (tid_index t nd) = t"
proof -
  have "unat (slot_id nd (tid_index t nd)) = unat t"
    using assms tid_index_less [OF assms]
    by (simp add: slot_id_unat) (simp add: tid_index_unat tid_out_of_range_unat)
  then show ?thesis by (simp add: word_unat_eq_iff)
qed

lemma total_ids_eq:
  assumes "table_shape nd"
  shows "total_ids nd = id_count nd"
proof -
  have "unat (nd_transaction_id_min nd) \<le> unat (nd_transaction_id_max nd)"
    using assms by (simp add: table_shape_def word_le_nat_alt)
  then have "uint (nd_transaction_id_max nd) - uint (nd_transaction_id_min nd) = int (id_count nd)"
    by (simp add: id_count_def of_nat_diff)
  moreover have "id_count nd < 65536"
    using unat_u16 [of "nd_transaction_id_max nd"] by (simp add: id_count_def)
  ultimately show ?thesis
    by (simp add: total_ids_def unsigned_of_nat take_bit_nat_def)
qed

section \<open>The elementary changes of the table\<close>

text \<open>Forgetting a transaction, and forgetting it with its promise fulfilled.\<close>

definition drop_transaction :: "nat \<Rightarrow> ('b, 'u) node \<Rightarrow> ('b, 'u) node" where
  "drop_transaction i nd = nd\<lparr>
     nd_reply_callback := (nd_reply_callback nd)[i := None],
     nd_reply_error_callback := (nd_reply_error_callback nd)[i := None],
     nd_available := (nd_available nd)[i := True],
     nd_last_used := (nd_last_used nd)[i := TIME_POINT_MIN]\<rparr>"

definition settle :: "nat \<Rightarrow> nat \<Rightarrow> error_code + unit \<Rightarrow> ('b, 'u) node \<Rightarrow> ('b, 'u) node" where
  "settle i p v nd = (drop_transaction i nd)\<lparr>nd_promises := (nd_promises nd)[p := Some v]\<rparr>"

lemma drop_transaction_simps [simp]:
  "id_count (drop_transaction i nd) = id_count nd" "slot_id (drop_transaction i nd) j = slot_id nd j"
  "nd_promises (drop_transaction i nd) = nd_promises nd"
  by (simp_all add: drop_transaction_def id_count_def slot_id_def)

lemma settle_simps [simp]:
  "id_count (settle i p v nd) = id_count nd" "slot_id (settle i p v nd) j = slot_id nd j"
  "nd_promises (settle i p v nd) = (nd_promises nd)[p := Some v]"
  by (simp_all add: settle_def id_count_def slot_id_def drop_transaction_def)

lemma drop_transaction_inv:
  assumes "node_inv nd" "i < id_count nd"
  shows "node_inv (drop_transaction i nd)"
proof -
  have "slot_ok (drop_transaction i nd) j" if "j < id_count nd" for j
    using assms that by (cases "j = i")
      (auto simp: node_inv_def slot_ok_def table_shape_def drop_transaction_def slot_id_def split: option.splits)
  moreover have "promises_distinct (drop_transaction i nd)"
    using assms unfolding node_inv_def promises_distinct_def drop_transaction_simps
    by (auto simp: drop_transaction_def nth_list_update table_shape_def split: if_splits)
  moreover have "table_shape (drop_transaction i nd)"
    using assms by (simp add: node_inv_def table_shape_def drop_transaction_def id_count_def)
  ultimately show ?thesis by (simp add: node_inv_def)
qed

lemma settle_inv:
  assumes "node_inv nd" "i < id_count nd" "nd_reply_callback nd ! i = Some rc"
  shows "node_inv (settle i (rc_promise rc) v nd)"
proof -
  have "slot_ok (settle i (rc_promise rc) v nd) j" if "j < id_count nd" for j
  proof (cases "j = i")
    case True
    with assms that show ?thesis
      by (simp add: slot_ok_def settle_def drop_transaction_def node_inv_def table_shape_def)
  next
    case False
    have "rc_promise rc' \<noteq> rc_promise rc" if "nd_reply_callback nd ! j = Some rc'" for rc'
      using assms \<open>j < id_count nd\<close> that False by (auto simp: node_inv_def promises_distinct_def)
    moreover have "slot_ok nd j" using assms(1) that by (simp add: node_inv_def)
    ultimately show ?thesis
      using False by (auto simp: slot_ok_def settle_def drop_transaction_def slot_id_def split: option.splits)
  qed
  moreover have "promises_distinct (settle i (rc_promise rc) v nd)"
    using assms(1) unfolding node_inv_def promises_distinct_def settle_simps
    using assms(2) by (auto simp: settle_def drop_transaction_def nth_list_update table_shape_def split: if_splits)
  moreover have "table_shape (settle i (rc_promise rc) v nd)"
    using assms by (simp add: node_inv_def table_shape_def settle_def drop_transaction_def id_count_def)
  ultimately show ?thesis by (simp add: node_inv_def)
qed

lemma slot_cases:
  assumes "node_inv nd" "i < id_count nd"
  obtains (free) "nd_reply_callback nd ! i = None" "nd_reply_error_callback nd ! i = None"
      "nd_available nd ! i"
  | (in_flight) rc where "nd_reply_callback nd ! i = Some rc"
      "nd_reply_error_callback nd ! i = Some \<lparr>ec_promise = rc_promise rc,
         ec_transaction_id = slot_id nd i, ec_tx_index = i\<rparr>"
      "\<not> nd_available nd ! i" "rc_transaction_id rc = slot_id nd i" "rc_tx_index rc = i"
      "rc_promise rc < length (nd_promises nd)" "nd_promises nd ! rc_promise rc = None"
      "0 \<le> nd_last_used nd ! i" "nd_last_used nd ! i < 2 ^ 63"
  using assms by (auto simp: node_inv_def slot_ok_def split: option.splits)

lemma shape_lengths:
  assumes "node_inv nd"
  shows "length (nd_reply_callback nd) = id_count nd" "length (nd_reply_error_callback nd) = id_count nd"
    "length (nd_available nd) = id_count nd" "length (nd_last_used nd) = id_count nd"
  using assms by (simp_all add: node_inv_def table_shape_def)

lemma promise_held_iff:
  assumes "node_inv nd"
  shows "promise_held p nd \<longleftrightarrow>
     (\<exists>i < id_count nd. \<exists>rc. nd_reply_callback nd ! i = Some rc \<and> rc_promise rc = p)"
proof
  assume "promise_held p nd"
  then consider i rc where "i < id_count nd" "nd_reply_callback nd ! i = Some rc" "rc_promise rc = p"
    | i ec where "i < id_count nd" "nd_reply_error_callback nd ! i = Some ec" "ec_promise ec = p"
    using shape_lengths [OF assms] by (auto simp: promise_held_def list_ex_length)
  then show "\<exists>i < id_count nd. \<exists>rc. nd_reply_callback nd ! i = Some rc \<and> rc_promise rc = p"
  proof cases
    case (2 i ec)
    from assms 2(1) show ?thesis
    proof (cases rule: slot_cases)
      case (in_flight rc)
      with 2 show ?thesis by auto
    qed (use 2 in simp)
  qed blast
next
  assume "\<exists>i < id_count nd. \<exists>rc. nd_reply_callback nd ! i = Some rc \<and> rc_promise rc = p"
  then show "promise_held p nd"
    using shape_lengths [OF assms] by (auto simp: promise_held_def list_ex_length)
qed

lemma future_status_ready:
  "p < length (nd_promises nd) \<Longrightarrow> nd_promises nd ! p = Some v \<Longrightarrow> future_status p nd = Some (Future_ready v)"
  by (simp add: future_status_def)

lemma future_status_last:
  "nd_promises nd = ps @ [Some v] \<Longrightarrow> future_status (length ps) nd = Some (Future_ready v)"
  by (simp add: future_status_ready)

lemma future_status_pending:
  assumes "node_inv nd" "i < id_count nd" "nd_reply_callback nd ! i = Some rc"
  shows "future_status (rc_promise rc) nd = Some Future_pending"
proof -
  have "promise_held (rc_promise rc) nd" using assms promise_held_iff by blast
  with assms show ?thesis by (auto simp: future_status_def elim: slot_cases)
qed

lemma future_status_broken_iff:
  assumes "node_inv nd"
  shows "future_status p nd = Some Future_broken \<longleftrightarrow> p < length (nd_promises nd) \<and> nd_promises nd ! p = None \<and>
     (\<forall>i < id_count nd. \<forall>rc. nd_reply_callback nd ! i = Some rc \<longrightarrow> rc_promise rc \<noteq> p)"
  unfolding future_status_def
  by (cases "nd_promises nd ! p") (auto simp: promise_held_iff [OF assms] span_at_def split: if_split_asm)

lemma clear_callbacks_eq:
  assumes "node_inv nd" "i < id_count nd"
  shows "clear_callbacks i nd = Some (nd\<lparr>nd_reply_callback := (nd_reply_callback nd)[i := None],
     nd_reply_error_callback := (nd_reply_error_callback nd)[i := None]\<rparr>)"
  using assms by (simp add: clear_callbacks_def shape_lengths)

text \<open>Releasing depends only on the identifier range and the lengths of two vectors.\<close>

lemma releaseTransactionID_eq:
  assumes "i < id_count nd" "length (nd_available nd) = id_count nd" "length (nd_last_used nd) = id_count nd"
  shows "releaseTransactionID (slot_id nd i) nd = Some (nd\<lparr>
     nd_available := (nd_available nd)[i := True],
     nd_last_used := (nd_last_used nd)[i := TIME_POINT_MIN]\<rparr>)"
  using assms by (simp add: releaseTransactionID_def tid_index_slot_id Let_def)

lemma slot_id_cong:
  "nd_transaction_id_min nd' = nd_transaction_id_min nd \<Longrightarrow> slot_id nd' i = slot_id nd i"
  by (simp add: slot_id_def)

lemma id_count_cong:
  "nd_transaction_id_min nd' = nd_transaction_id_min nd \<Longrightarrow>
   nd_transaction_id_max nd' = nd_transaction_id_max nd \<Longrightarrow> id_count nd' = id_count nd"
  by (simp add: id_count_def)

lemma cancelTransaction_eq:
  assumes "node_inv nd"
  shows "cancelTransaction t nd =
     Some (if tid_out_of_range t nd then nd else drop_transaction (tid_index t nd) nd)"
proof (cases "tid_out_of_range t nd")
  case False
  let ?nd = "nd\<lparr>nd_reply_callback := (nd_reply_callback nd)[tid_index t nd := None],
     nd_reply_error_callback := (nd_reply_error_callback nd)[tid_index t nd := None]\<rparr>"
  have i: "tid_index t nd < id_count nd" using tid_index_less [OF False] .
  have "releaseTransactionID (slot_id ?nd (tid_index t nd)) ?nd =
      Some (drop_transaction (tid_index t nd) nd)"
    using i shape_lengths [OF assms]
    by (subst releaseTransactionID_eq) (simp_all add: id_count_def drop_transaction_def)
  moreover have "slot_id ?nd (tid_index t nd) = t"
    using slot_id_tid_index [OF False] by (simp add: slot_id_def)
  ultimately show ?thesis
    using False by (simp add: cancelTransaction_def clear_callbacks_eq [OF assms i])
qed (simp add: cancelTransaction_def)

lemma finish_transaction_eq:
  assumes "node_inv nd" "i < id_count nd" "nd_reply_callback nd ! i = Some rc"
  shows "finish_transaction (rc_promise rc) (slot_id nd i) i v
      (nd\<lparr>nd_reply_callback := (nd_reply_callback nd)[i := None],
          nd_reply_error_callback := (nd_reply_error_callback nd)[i := None], nd_user := user\<rparr>) =
     Some ((settle i (rc_promise rc) v nd)\<lparr>nd_user := user\<rparr>)"
    (is "finish_transaction _ _ _ _ ?nd = _")
proof -
  from assms have p: "rc_promise rc < length (nd_promises nd)" "nd_promises nd ! rc_promise rc = None"
    by (auto elim: slot_cases)
  let ?nd1 = "?nd\<lparr>nd_promises := (nd_promises nd)[rc_promise rc := Some v]\<rparr>"
  have set: "set_value (rc_promise rc) v ?nd = Some ?nd1" using p by (simp add: set_value_def)
  have rel: "releaseTransactionID (slot_id ?nd1 i) ?nd1 = Some (?nd1\<lparr>
     nd_available := (nd_available nd)[i := True],
     nd_last_used := (nd_last_used nd)[i := TIME_POINT_MIN]\<rparr>)"
    using assms(2) shape_lengths [OF assms(1)]
    by (subst releaseTransactionID_eq) (simp_all add: id_count_def)
  have "slot_id ?nd1 i = slot_id nd i" by (simp add: slot_id_def)
  with rel show ?thesis
    using assms(2) shape_lengths [OF assms(1)]
    by (simp add: finish_transaction_def set settle_def drop_transaction_def)
qed

lemma nd_user_id [simp]: "nd\<lparr>nd_user := nd_user nd\<rparr> = nd"
  by simp

lemma forceReleaseTransaction_eq:
  assumes "node_inv nd" "i < id_count nd"
  shows "forceReleaseTransaction i nd = Some (case nd_reply_callback nd ! i of
       None \<Rightarrow> drop_transaction i nd
     | Some rc \<Rightarrow> settle i (rc_promise rc) (Inl (Generic timed_out)) nd)"
  using assms
proof (cases rule: slot_cases)
  case free
  let ?nd = "nd\<lparr>nd_reply_callback := (nd_reply_callback nd)[i := None],
     nd_reply_error_callback := (nd_reply_error_callback nd)[i := None]\<rparr>"
  have "releaseTransactionID (slot_id ?nd i) ?nd = Some (drop_transaction i nd)"
    using assms shape_lengths [OF assms(1)]
    by (subst releaseTransactionID_eq) (simp_all add: id_count_def drop_transaction_def)
  with free show ?thesis
    using assms shape_lengths [OF assms(1)]
    by (simp add: forceReleaseTransaction_def clear_callbacks_eq slot_id_def)
next
  case (in_flight rc)
  have "settle i (rc_promise rc) v nd\<lparr>nd_user := nd_user nd\<rparr> = settle i (rc_promise rc) v nd" for v
    by (simp add: settle_def drop_transaction_def)
  with in_flight finish_transaction_eq [OF assms in_flight(1), of _ "nd_user nd"] show ?thesis
    using assms shape_lengths [OF assms(1)]
    by (simp add: forceReleaseTransaction_def clear_callbacks_eq call_error_callback_def)
qed

text \<open>A reply: the callback of its slot runs, and its outcome goes to the promise of the slot.\<close>

definition reply_value :: "unit outcome \<Rightarrow> error_code + unit" where
  "reply_value out = (case out of Returns _ \<Rightarrow> Inr () | _ \<Rightarrow> Inl (Generic operation_canceled))"

lemma handle_reply_eq:
  assumes "node_inv nd"
  shows "handle_reply pk nd =
    (if tid_out_of_range (pk_transactionID pk) nd then Some (Inl (Generic bad_message), nd)
     else let i = tid_index (pk_transactionID pk) nd
       in case nd_reply_callback nd ! i of
            None \<Rightarrow> Some (Inr True, nd)
          | Some rc \<Rightarrow> do {
              (out, user) \<leftarrow> rc_on_complete rc pk (nd_user nd);
              Some (Inr True, (settle i (rc_promise rc) (reply_value out) nd)\<lparr>nd_user := user\<rparr>)
            })"
proof (cases "tid_out_of_range (pk_transactionID pk) nd")
  case False
  define i where "i = tid_index (pk_transactionID pk) nd"
  have i: "i < id_count nd" using tid_index_less [OF False] by (simp add: i_def)
  show ?thesis
    using assms i
  proof (cases rule: slot_cases)
    case free
    with False i show ?thesis
      by (simp add: handle_reply_def Let_def i_def [symmetric] shape_lengths [OF assms])
  next
    case (in_flight rc)
    have v: "(case out of Returns u \<Rightarrow> Inr () | Throws_exception \<Rightarrow> Inl (Generic operation_canceled)
        | Throws_other \<Rightarrow> Inl (Generic operation_canceled)) = reply_value out" for out
      by (simp add: reply_value_def split: outcome.splits)
    from False i in_flight finish_transaction_eq [OF assms i in_flight(1)] show ?thesis
      by (cases "rc_on_complete rc pk (nd_user nd)")
        (auto simp: handle_reply_def Let_def i_def [symmetric] shape_lengths [OF assms]
          clear_callbacks_eq [OF assms i] call_reply_callback_def v)
  qed
qed (simp add: handle_reply_def)


section \<open>Acquiring an identifier\<close>

definition clock_ok :: "(nat \<Rightarrow> int) \<Rightarrow> bool" where
  "clock_ok clock \<longleftrightarrow> (\<forall>r. 0 \<le> clock r \<and> clock r < 2 ^ 63)"

definition expired_at :: "int \<Rightarrow> ('b, 'u) node \<Rightarrow> nat \<Rightarrow> bool" where
  "expired_at now nd i \<longleftrightarrow> now - nd_last_used nd ! i > nd_transaction_timeout nd * 1000000"

lemma expired_in_flight:
  assumes "node_inv nd" "i < id_count nd" "\<not> nd_available nd ! i" "0 \<le> now" "now < 2 ^ 63"
  shows "expired now (nd_last_used nd ! i) (nd_transaction_timeout nd) = Some (expired_at now nd i)"
  using assms(1,2)
proof (cases rule: slot_cases)
  case (in_flight rc)
  have "int64 (nd_transaction_timeout nd * 1000000) \<noteq> None"
    using assms(1) by (simp add: node_inv_def table_shape_def)
  with in_flight assms(4,5) show ?thesis
    by (auto simp: expired_def int64_def expired_at_def split: if_splits)
qed (use assms in simp)

lemma scan_ids_found:
  assumes "node_inv nd" "0 \<le> now" "now < 2 ^ 63"
    and "i \<le> j" "j < i + k" "i + k = id_count nd" "nd_available nd ! j"
    and "\<forall>m. i \<le> m \<and> m < j \<longrightarrow> \<not> nd_available nd ! m"
  shows "\<exists>e. scan_ids now nd k i e0 = Some (Some j, e)"
  using assms(4-)
proof (induction k arbitrary: i e0)
  case (Suc k)
  then have i: "i < id_count nd" by simp
  show ?case
  proof (cases "i = j")
    case True
    with Suc.prems i show ?thesis by (simp add: shape_lengths [OF assms(1)])
  next
    case False
    with Suc.prems have na: "\<not> nd_available nd ! i" by simp
    obtain e1 where "scan_ids now nd (Suc k) i e0 = scan_ids now nd k (Suc i) e1"
      using i na expired_in_flight [OF assms(1) i na assms(2,3)]
      by (cases e0) (auto simp: shape_lengths [OF assms(1)])
    with Suc.IH [of "Suc i" e1] Suc.prems False show ?thesis by simp
  qed
qed simp

lemma scan_ids_none:
  assumes "node_inv nd" "0 \<le> now" "now < 2 ^ 63"
    and "i + k = id_count nd" "\<forall>m. i \<le> m \<and> m < id_count nd \<longrightarrow> \<not> nd_available nd ! m"
  shows "scan_ids now nd k i e0 =
     Some (None, if e0 = None then find (expired_at now nd) [i..<i + k] else e0)"
  using assms(4-)
proof (induction k arbitrary: i e0)
  case (Suc k)
  then have i: "i < id_count nd" and na: "\<not> nd_available nd ! i" by simp_all
  have "[i..<i + Suc k] = i # [Suc i..<Suc i + k]" by (simp add: upt_conv_Cons del: upt_Suc)
  with Suc.IH [of "Suc i"] Suc.prems i na expired_in_flight [OF assms(1) i na assms(2,3)]
  show ?case by (cases e0) (auto simp: shape_lengths [OF assms(1)] simp del: upt_Suc)
qed simp

definition acquire :: "nat \<Rightarrow> int \<Rightarrow> ('b, 'u) node \<Rightarrow> ('b, 'u) node" where
  "acquire i now nd = nd\<lparr>nd_available := (nd_available nd)[i := False],
     nd_last_used := (nd_last_used nd)[i := now]\<rparr>"

definition first_free :: "('b, 'u) node \<Rightarrow> nat option" where
  "first_free nd = find (\<lambda>i. nd_available nd ! i) [0..<id_count nd]"

lemma find_upt_Some:
  "find P [0..<n] = Some i \<longleftrightarrow> i < n \<and> P i \<and> (\<forall>j<i. \<not> P j)"
  by (auto simp: find_Some_iff)

lemma find_upt_None: "find P [0..<n] = None \<longleftrightarrow> (\<forall>i<n. \<not> P i)"
  by (auto simp: find_None_iff)

lemma get_id_loop_free:
  assumes "node_inv nd" "clock_ok clock" "first_free nd = Some i"
  shows "get_id_loop clock r nd = Some (Inr (ucast (nd_transaction_id_min nd) + word_of_nat i),
     acquire i (clock r) nd)"
proof -
  have i: "i < id_count nd" "nd_available nd ! i" "\<forall>j<i. \<not> nd_available nd ! j"
    using assms(3) by (auto simp: first_free_def find_upt_Some)
  have c: "0 \<le> clock r" "clock r < 2 ^ 63" using assms(2) by (auto simp: clock_ok_def)
  have "table_shape nd" using assms(1) by (simp add: node_inv_def)
  with scan_ids_found [OF assms(1) c, of 0 i "id_count nd" None] i
  obtain e where "scan_ids (clock r) nd (total_ids nd) 0 None = Some (Some i, e)"
    by (auto simp: total_ids_eq)
  with i show ?thesis
    by (subst get_id_loop.simps) (simp add: acquire_def shape_lengths [OF assms(1)])
qed

definition evict :: "nat \<Rightarrow> ('b, 'u) node \<Rightarrow> ('b, 'u) node" where
  "evict i nd = (case nd_reply_callback nd ! i of
       None \<Rightarrow> drop_transaction i nd
     | Some rc \<Rightarrow> settle i (rc_promise rc) (Inl (Generic timed_out)) nd)"

lemma evict_inv: "node_inv nd \<Longrightarrow> i < id_count nd \<Longrightarrow> node_inv (evict i nd)"
  by (auto simp: evict_def drop_transaction_inv settle_inv split: option.splits)

lemma evict_fields:
  "nd_available (evict i nd) = (nd_available nd)[i := True]" "id_count (evict i nd) = id_count nd"
  "nd_transaction_id_min (evict i nd) = nd_transaction_id_min nd"
  "nd_transaction_id_max (evict i nd) = nd_transaction_id_max nd"
  by (auto simp: evict_def settle_def drop_transaction_def id_count_def split: option.splits)

lemma evict_first_free:
  assumes "node_inv nd" "i < id_count nd" "first_free nd = None"
  shows "first_free (evict i nd) = Some i"
proof -
  have "\<forall>j<id_count nd. \<not> nd_available nd ! j"
    using assms(3) unfolding first_free_def by (simp add: find_upt_None)
  then show ?thesis
    using assms(2) unfolding first_free_def evict_fields
    by (auto simp: find_upt_Some shape_lengths [OF assms(1)])
qed

text \<open>Every outcome: the first free identifier; else that of the first expired transaction, which is
  evicted; else an error. The loop takes at most two rounds.\<close>

lemma getAvailableTransactionID_eq:
  assumes "node_inv nd" "clock_ok clock"
  shows "getAvailableTransactionID clock nd = Some (case first_free nd of
       Some i \<Rightarrow> (Inr (ucast (nd_transaction_id_min nd) + word_of_nat i), acquire i (clock 0) nd)
     | None \<Rightarrow> (case find (expired_at (clock 0) nd) [0..<id_count nd] of
         None \<Rightarrow> (Inl (Generic resource_unavailable_try_again), nd)
       | Some i \<Rightarrow> (Inr (ucast (nd_transaction_id_min nd) + word_of_nat i),
                   acquire i (clock 1) (evict i nd))))"
proof (cases "first_free nd")
  case (Some i)
  with get_id_loop_free [OF assms Some] show ?thesis by (simp add: getAvailableTransactionID_def)
next
  case None
  have c: "0 \<le> clock 0" "clock 0 < 2 ^ 63" using assms(2) by (auto simp: clock_ok_def)
  have "table_shape nd" using assms(1) by (simp add: node_inv_def)
  with None scan_ids_none [OF assms(1) c, of 0 "id_count nd" None]
  have scan: "scan_ids (clock 0) nd (total_ids nd) 0 None =
      Some (None, find (expired_at (clock 0) nd) [0..<id_count nd])"
    by (auto simp: total_ids_eq first_free_def find_upt_None)
  show ?thesis
  proof (cases "find (expired_at (clock 0) nd) [0..<id_count nd]")
    case None
    with \<open>first_free nd = None\<close> scan show ?thesis
      unfolding getAvailableTransactionID_def by (subst get_id_loop.simps) simp
  next
    case (Some i)
    then have i: "i < id_count nd" by (simp add: find_upt_Some)
    have ev: "forceReleaseTransaction i nd = Some (evict i nd)"
      using forceReleaseTransaction_eq [OF assms(1) i] by (simp add: evict_def)
    from get_id_loop_free [OF evict_inv [OF assms(1) i] assms(2) evict_first_free [OF assms(1) i None]]
    show ?thesis
      using None Some scan ev unfolding getAvailableTransactionID_def
      by (subst get_id_loop.simps) (simp add: evict_fields)
  qed
qed

section \<open>Starting an operation\<close>

definition register :: "nat \<Rightarrow> nat \<Rightarrow> 'u completion \<Rightarrow> ('b, 'u) node \<Rightarrow> ('b, 'u) node" where
  "register i p on_complete nd = nd\<lparr>
     nd_reply_error_callback := (nd_reply_error_callback nd)[i :=
       Some \<lparr>ec_promise = p, ec_transaction_id = slot_id nd i, ec_tx_index = i\<rparr>],
     nd_reply_callback := (nd_reply_callback nd)[i :=
       Some \<lparr>rc_on_complete = on_complete, rc_promise = p, rc_transaction_id = slot_id nd i,
             rc_tx_index = i\<rparr>]\<rparr>"

lemma register_inv:
  assumes "node_inv nd" "i < id_count nd" "p < length (nd_promises nd)" "nd_promises nd ! p = None"
    and fresh: "\<forall>j < id_count nd. \<forall>rc. nd_reply_callback nd ! j = Some rc \<longrightarrow> rc_promise rc \<noteq> p"
    and "0 \<le> now" "now < 2 ^ 63"
  shows "node_inv (register i p on_complete (acquire i now nd))"
proof -
  let ?nd = "register i p on_complete (acquire i now nd)"
  have count: "id_count ?nd = id_count nd" "\<And>j. slot_id ?nd j = slot_id nd j"
    by (simp_all add: register_def acquire_def id_count_def slot_id_def)
  have slot: "slot_ok ?nd j" if "j < id_count nd" for j
  proof (cases "j = i")
    case True
    with assms show ?thesis
      by (simp add: slot_ok_def register_def acquire_def shape_lengths [OF assms(1)])
        (simp add: slot_id_def)
  next
    case False
    have "slot_ok nd j" using assms(1) that by (simp add: node_inv_def)
    with False show ?thesis
      by (auto simp: slot_ok_def register_def acquire_def slot_id_def split: option.splits)
  qed
  have "promises_distinct ?nd"
    using assms(1) fresh assms(2) unfolding node_inv_def promises_distinct_def count
    by (auto simp: register_def acquire_def nth_list_update shape_lengths [OF assms(1)] split: if_splits)
  moreover have "table_shape ?nd"
    using assms(1) unfolding node_inv_def table_shape_def count by (simp add: register_def acquire_def)
  ultimately show ?thesis using slot by (simp add: node_inv_def count)
qed


lemma make_promise_inv:
  assumes "node_inv nd"
  shows "node_inv (nd\<lparr>nd_promises := nd_promises nd @ [x]\<rparr>)"
proof -
  have "slot_ok (nd\<lparr>nd_promises := nd_promises nd @ [x]\<rparr>) j" if "j < id_count nd" for j
  proof -
    have "slot_ok nd j" using assms that by (simp add: node_inv_def)
    then show ?thesis by (auto simp: slot_ok_def slot_id_def nth_append split: option.splits)
  qed
  then show ?thesis
    using assms by (simp add: node_inv_def table_shape_def promises_distinct_def id_count_def)
qed

lemma promise_fresh:
  assumes "node_inv nd" "j < id_count nd" "nd_reply_callback nd ! j = Some rc"
  shows "rc_promise rc < length (nd_promises nd)"
  using assms by (auto elim: slot_cases)

text \<open>Failing after registration: the slot is given back and the promise gets the error.\<close>

lemma fail_registered_eq:
  assumes "node_inv nd" "i < id_count nd" "nd_reply_callback nd ! i = Some rc"
    and t: "t = slot_id nd i"
  shows "do {
     nd \<leftarrow> clear_callbacks i nd;
     nd \<leftarrow> set_value (rc_promise rc) v nd;
     nd \<leftarrow> releaseTransactionID t nd;
     Some (x, nd)
   } = Some (x, settle i (rc_promise rc) v nd)"
proof -
  from assms have p: "rc_promise rc < length (nd_promises nd)" "nd_promises nd ! rc_promise rc = None"
    by (auto elim: slot_cases)
  let ?nd1 = "nd\<lparr>nd_reply_callback := (nd_reply_callback nd)[i := None],
      nd_reply_error_callback := (nd_reply_error_callback nd)[i := None],
      nd_promises := (nd_promises nd)[rc_promise rc := Some v]\<rparr>"
  have "releaseTransactionID (slot_id ?nd1 i) ?nd1 = Some (?nd1\<lparr>
     nd_available := (nd_available nd)[i := True],
     nd_last_used := (nd_last_used nd)[i := TIME_POINT_MIN]\<rparr>)"
    using assms(2) shape_lengths [OF assms(1)]
    by (subst releaseTransactionID_eq) (simp_all add: id_count_def)
  moreover have "slot_id ?nd1 i = t" by (simp add: t slot_id_def)
  ultimately show ?thesis
    using p by (simp add: clear_callbacks_eq [OF assms(1,2)] set_value_def settle_def drop_transaction_def)
qed

definition keeps_core ::
    "(u16 \<Rightarrow> ('b, 'u) node \<Rightarrow> ((error_code + unit) \<times> ('b, 'u) node) option) \<Rightarrow> bool" where
  "keeps_core sender \<longleftrightarrow> (\<forall>tid nd r nd'. sender tid nd = Some (r, nd') \<longrightarrow> core nd' = core nd)"

lemma senders_keep_core:
  "keeps_core (\<lambda>tid. sendWritePacket B t tid a data)" "keeps_core (\<lambda>tid. sendReadPacket B t tid a l)"
  by (auto simp: keeps_core_def dest: sendWritePacket_core sendReadPacket_core)

text \<open>The identifier and the table as they are when the packet is sent.\<close>

definition acquired ::
    "(nat \<Rightarrow> int) \<Rightarrow> ('b, 'u) node \<Rightarrow> (nat \<times> ('b, 'u) node) option" where
  "acquired clock nd = (case first_free nd of
       Some i \<Rightarrow> Some (i, acquire i (clock 0) nd)
     | None \<Rightarrow> map_option (\<lambda>i. (i, acquire i (clock 1) (evict i nd)))
         (find (expired_at (clock 0) nd) [0..<id_count nd]))"

lemma getAvailable_acquired:
  assumes "node_inv nd" "clock_ok clock"
  shows "getAvailableTransactionID clock nd = Some (case acquired clock nd of
       Some (i, nd') \<Rightarrow> (Inr (ucast (nd_transaction_id_min nd) + word_of_nat i), nd')
     | None \<Rightarrow> (Inl (Generic resource_unavailable_try_again), nd))"
  unfolding getAvailableTransactionID_eq [OF assms] acquired_def by (simp split: option.split)

lemma ucast_slot_id:
  assumes "i < id_count nd"
  shows "ucast (ucast (nd_transaction_id_min nd) + word_of_nat i :: u32) = slot_id nd i"
proof -
  have "unat (nd_transaction_id_min nd) + i < 65536"
    using assms unat_u16 [of "nd_transaction_id_max nd"] by (simp add: id_count_def)
  then have "unat (ucast (ucast (nd_transaction_id_min nd) + word_of_nat i :: u32) :: u16) =
      unat (nd_transaction_id_min nd) + i"
    by (simp add: unsigned_ucast_eq unat_word_ariths unsigned_of_nat take_bit_nat_def)
  with slot_id_unat [OF assms] show ?thesis by (simp add: word_unat_eq_iff)
qed

lemma acquiredE:
  assumes "node_inv nd" "clock_ok clock" "acquired clock nd = Some (i, nd1)"
  obtains base now where "nd1 = acquire i now base" "node_inv base" "i < id_count nd"
    "0 \<le> now" "now < 2 ^ 63"
    "base = nd \<and> nd_available nd ! i \<or>
     base = evict i nd \<and> first_free nd = None \<and> expired_at (clock 0) nd i"
proof (cases "first_free nd")
  case (Some j)
  then have "acquired clock nd = Some (j, acquire j (clock 0) nd)" by (simp add: acquired_def)
  moreover have "j < id_count nd" "nd_available nd ! j"
    using Some unfolding first_free_def find_upt_Some by simp_all
  ultimately have "j = i" "nd1 = acquire i (clock 0) nd" "i < id_count nd" "nd_available nd ! i"
    using assms(3) by auto
  with assms that [of "clock 0" nd] show thesis by (auto simp: clock_ok_def)
next
  case None
  with assms(3) have "nd1 = acquire i (clock 1) (evict i nd)" "i < id_count nd"
    "expired_at (clock 0) nd i"
    by (auto simp: acquired_def find_upt_Some)
  with assms(1,2) None that [of "clock 1" "evict i nd"] show thesis
    by (auto simp: clock_ok_def evict_inv)
qed

lemma evict_callback:
  "j \<noteq> i \<Longrightarrow> nd_reply_callback (evict i nd) ! j = nd_reply_callback nd ! j"
  "i < length (nd_reply_callback nd) \<Longrightarrow> nd_reply_callback (evict i nd) ! i = None"
  by (auto simp: evict_def settle_def drop_transaction_def split: option.splits)

lemma evict_promises:
  "nd_promises (evict i nd) = (case nd_reply_callback nd ! i of
     None \<Rightarrow> nd_promises nd
   | Some rc \<Rightarrow> (nd_promises nd)[rc_promise rc := Some (Inl (Generic timed_out))])"
  by (simp add: evict_def split: option.splits)

lemma started_inv:
  fixes nd :: "('b, 'u) node"
  defines "nd0 \<equiv> nd\<lparr>nd_promises := nd_promises nd @ [None]\<rparr>"
  assumes "node_inv nd" "clock_ok clock" "acquired clock nd0 = Some (i, nd1)"
  shows "node_inv (register i (length (nd_promises nd)) on_complete nd1)"
    and "i < id_count nd" "id_count nd1 = id_count nd" "slot_id nd1 i = slot_id nd i"
    and "length (nd_reply_callback nd1) = id_count nd" "length (nd_reply_error_callback nd1) = id_count nd"
proof -
  let ?p = "length (nd_promises nd)"
  have inv0: "node_inv nd0" unfolding nd0_def by (rule make_promise_inv [OF assms(2)])
  from acquiredE [OF inv0 assms(3,4)] obtain base now where
    nd1: "nd1 = acquire i now base" and inv: "node_inv base" and i0: "i < id_count nd0"
    and now: "0 \<le> now" "now < 2 ^ 63"
    and base: "base = nd0 \<or> base = evict i nd0" by metis
  have i: "i < id_count nd" using i0 by (simp add: nd0_def id_count_def)
  have old: "rc_promise rc < ?p" if "j < id_count nd" "nd_reply_callback nd0 ! j = Some rc" for j rc
    using promise_fresh [OF assms(2) that(1)] that(2) by (simp add: nd0_def)
  have count: "id_count base = id_count nd" "slot_id base i = slot_id nd i"
    using base by (auto simp: evict_fields nd0_def id_count_def slot_id_def)
  have "?p < length (nd_promises base) \<and> nd_promises base ! ?p = None"
    using base old [OF i] by (auto simp: evict_promises nd0_def split: option.splits)
  moreover have "\<forall>j < id_count base. \<forall>rc. nd_reply_callback base ! j = Some rc \<longrightarrow> rc_promise rc \<noteq> ?p"
  proof (intro allI impI)
    fix j rc assume j: "j < id_count base" "nd_reply_callback base ! j = Some rc"
    have "nd_reply_callback nd0 ! j = Some rc"
      using base j(2) i shape_lengths(1) [OF inv0] i0
      by (cases "j = i") (auto simp: evict_callback)
    with old [of j rc] j(1) count(1) show "rc_promise rc \<noteq> ?p" by simp
  qed
  ultimately show "node_inv (register i ?p on_complete nd1)"
    unfolding nd1 using inv count i now by (intro register_inv) auto
  show "i < id_count nd" by (rule i)
  show "id_count nd1 = id_count nd" "slot_id nd1 i = slot_id nd i"
    using count by (simp_all add: nd1 acquire_def id_count_def slot_id_def)
  show "length (nd_reply_callback nd1) = id_count nd" "length (nd_reply_error_callback nd1) = id_count nd"
    using shape_lengths [OF inv] count by (simp_all add: nd1 acquire_def)
qed

text \<open>The whole of \<open>startWriteAsyncOperation_\<close> and \<open>startReadAsyncOperation_\<close>.\<close>

lemma startAsyncOperation_eq:
  fixes nd :: "('b, 'u) node"
  defines "p \<equiv> length (nd_promises nd)" and "nd0 \<equiv> nd\<lparr>nd_promises := nd_promises nd @ [None]\<rparr>"
  assumes "node_inv nd" "clock_ok clock" "keeps_core sender"
  shows "startAsyncOperation sender clock on_complete nd = (case acquired clock nd0 of
       None \<Rightarrow> Some (\<lparr>op_future = p, op_transaction_id = None\<rparr>, nd\<lparr>nd_promises :=
                 nd_promises nd @ [Some (Inl (Generic resource_unavailable_try_again))]\<rparr>)
     | Some (i, nd1) \<Rightarrow> do {
         (res, nd2) \<leftarrow> sender (slot_id nd i) (register i p on_complete nd1);
         Some (case res of
             Inl e \<Rightarrow> (\<lparr>op_future = p, op_transaction_id = None\<rparr>, settle i p (Inl e) nd2)
           | Inr _ \<Rightarrow> (\<lparr>op_future = p, op_transaction_id = Some (slot_id nd i)\<rparr>, nd2))
       })"
proof -
  have inv0: "node_inv nd0" unfolding nd0_def by (rule make_promise_inv [OF assms(3)])
  have mk: "make_promise nd = (p, nd0)" by (simp add: make_promise_def p_def nd0_def)
  have min0: "nd_transaction_id_min nd0 = nd_transaction_id_min nd" by (simp add: nd0_def)
  have get: "getAvailableTransactionID clock nd0 = Some (case acquired clock nd0 of
       Some (i, nd') \<Rightarrow> (Inr (ucast (nd_transaction_id_min nd) + word_of_nat i), nd')
     | None \<Rightarrow> (Inl (Generic resource_unavailable_try_again), nd0))"
    using getAvailable_acquired [OF inv0 assms(4)] unfolding min0 .
  show ?thesis
  proof (cases "acquired clock nd0")
    case None
    have "set_value p (Inl e) nd0 = Some (nd\<lparr>nd_promises := nd_promises nd @ [Some (Inl e)]\<rparr>)" for e
      by (simp add: set_value_def p_def nd0_def)
    with None get mk show ?thesis by (simp add: startAsyncOperation_def)
  next
    case (Some a)
    obtain i nd1 where a: "a = (i, nd1)" by (cases a)
    note st = started_inv [OF assms(3,4), folded nd0_def, OF Some [unfolded a], folded p_def]
    let ?nd2 = "register i p on_complete nd1"
    have id: "ucast (ucast (nd_transaction_id_min nd) + word_of_nat i :: u32) = slot_id nd i"
      by (rule ucast_slot_id [OF st(2)])
    have idx: "tid_index (slot_id nd i) nd1 = i"
      using tid_index_slot_id(1) [of i nd1] st by simp
    have fail: "(do { nd' \<leftarrow> clear_callbacks i nd3; nd' \<leftarrow> set_value p v nd';
        nd' \<leftarrow> releaseTransactionID (slot_id nd i) nd'; Some (x, nd') }) = Some (x, settle i p v nd3)"
      if "sender (slot_id nd i) ?nd2 = Some (r, nd3)" for r nd3 v and x :: AsyncOperation
    proof -
      have core: "core nd3 = core ?nd2" using that assms(5) by (simp add: keeps_core_def)
      have inv3: "node_inv nd3" using node_inv_core [OF core] st(1) by simp
      have "id_count nd3 = id_count nd" "slot_id nd i = slot_id nd3 i"
        using core_fields [OF core] st(3,4) by (simp_all add: id_count_def slot_id_def register_def)
      moreover have "nd_reply_callback nd3 ! i = Some \<lparr>rc_on_complete = on_complete, rc_promise = p,
          rc_transaction_id = slot_id nd1 i, rc_tx_index = i\<rparr>"
        using core_fields(1) [OF core] st(2,5) by (simp add: register_def)
      ultimately show ?thesis
        using fail_registered_eq [OF inv3, of i] st(2) by fastforce
    qed
    have reg: "nd1\<lparr>nd_reply_error_callback := (nd_reply_error_callback nd1)[i :=
          Some \<lparr>ec_promise = p, ec_transaction_id = slot_id nd i, ec_tx_index = i\<rparr>],
        nd_reply_callback := (nd_reply_callback nd1)[i := Some \<lparr>rc_on_complete = on_complete,
          rc_promise = p, rc_transaction_id = slot_id nd i, rc_tx_index = i\<rparr>]\<rparr> = ?nd2"
      by (simp add: register_def st(4))
    show ?thesis
      unfolding startAsyncOperation_def mk Some a
      using id idx get [unfolded Some a, simplified] st(2,5,6) fail
      by (cases "sender (slot_id nd i) ?nd2") (auto simp: Let_def reg split: sum.splits)
  qed
qed
end
