(* ===== verification/Node_Poll.thy ===== *)
theory Node_Poll
  imports Node_Transactions
begin

unbundle bit_operations_syntax

text \<open>
  \<open>poll\<close> and \<open>runLoop\<close> of \<open>SpwRmapTCPNodeImpl\<close>, with the handlers for the four kinds
  of packets, and the synchronous \<open>write\<close> and \<open>read\<close>.
\<close>

section \<open>Definitions\<close>

text \<open>The pure virtual methods that the derived classes implement.\<close>

record ('b, 'u) node_methods =
  nm_shutdown :: "('b, 'u) node \<Rightarrow> ((error_code + unit) \<times> ('b, 'u) node) option"
  nm_isShutdowned :: "('b, 'u) node \<Rightarrow> bool"

text \<open>Reserving, building and sending a reply, the common end of the two command handlers.\<close>

definition send_reply ::
    "'b backend \<Rightarrow> ('c \<Rightarrow> nat) \<Rightarrow> ('c \<Rightarrow> bytes \<Rightarrow> ((error_code + nat) \<times> bytes) option) \<Rightarrow> 'c \<Rightarrow>
     ('b, 'u) node \<Rightarrow> ((error_code + bool) \<times> ('b, 'u) node) option" where
  "send_reply B getTotalSize build config nd = do {
     (res, nd) \<leftarrow> reserve_send (getTotalSize config + 12) nd;
     case res of
       Inl e \<Rightarrow> Some (Inl e, nd)
     | Inr _ \<Rightarrow> do {
         (res, nd) \<leftarrow> build_frame build config nd;
         case res of
           Inl e \<Rightarrow> Some (Inl e, nd)
         | Inr _ \<Rightarrow> do {
             (res, nd) \<leftarrow> send B (getTotalSize config) nd;
             case res of
               Inl e \<Rightarrow> Some (Inl e, nd)
             | Inr _ \<Rightarrow> Some (Inr True, nd)
           }
       }
   }"

definition read_reply_config :: "packet \<Rightarrow> bytes \<Rightarrow> ReadReplyPacketConfig" where
  "read_reply_config packet data =
     \<lparr>rrp_replyAddress = pk_replyAddress packet,
      rrp_initiatorLogicalAddress = pk_targetLogicalAddress packet,
      rrp_status = PacketStatusCode_underlying CommandExecutedSuccessfully,
      rrp_targetLogicalAddress = pk_initiatorLogicalAddress packet,
      rrp_transactionID = pk_transactionID packet,
      rrp_data = data,
      rrp_incrementMode = True\<rparr>"

text \<open>An exception not derived from \<open>std::exception\<close> leaves the \<open>noexcept\<close> function.\<close>

definition handle_read ::
    "'b backend \<Rightarrow> packet \<Rightarrow> ('b, 'u) node \<Rightarrow> ((error_code + bool) \<times> ('b, 'u) node) option" where
  "handle_read B packet nd = do {
     (out, nd) \<leftarrow> (case nd_on_read nd of
         None \<Rightarrow> Some (Returns [], nd)
       | Some f \<Rightarrow> do {
           (out, user) \<leftarrow> f packet (nd_user nd);
           Some (out, nd\<lparr>nd_user := user\<rparr>)
         });
     case out of
       Throws_other \<Rightarrow> None
     | Throws_exception \<Rightarrow> Some (Inl (Generic operation_canceled), nd)
     | Returns data \<Rightarrow> send_reply B ReadReplyPacketBuilder_getTotalSize ReadReplyPacketBuilder_build
         (read_reply_config packet data) nd
   }"

definition write_reply_config :: "packet \<Rightarrow> WriteReplyPacketConfig" where
  "write_reply_config packet =
     \<lparr>wrp_replyAddress = pk_replyAddress packet,
      wrp_initiatorLogicalAddress = pk_targetLogicalAddress packet,
      wrp_status = PacketStatusCode_underlying CommandExecutedSuccessfully,
      wrp_targetLogicalAddress = pk_initiatorLogicalAddress packet,
      wrp_transactionID = pk_transactionID packet,
      wrp_incrementMode = True,
      wrp_verifyMode = True\<rparr>"

definition handle_write ::
    "'b backend \<Rightarrow> packet \<Rightarrow> ('b, 'u) node \<Rightarrow> ((error_code + bool) \<times> ('b, 'u) node) option" where
  "handle_write B packet nd = do {
     (out, nd) \<leftarrow> (case nd_on_write nd of
         None \<Rightarrow> Some (Returns (), nd)
       | Some f \<Rightarrow> do {
           (out, user) \<leftarrow> f packet (nd_user nd);
           Some (out, nd\<lparr>nd_user := user\<rparr>)
         });
     case out of
       Throws_other \<Rightarrow> None
     | Throws_exception \<Rightarrow> Some (Inl (Generic operation_canceled), nd)
     | Returns _ \<Rightarrow> send_reply B WriteReplyPacketBuilder_getTotalSize WriteReplyPacketBuilder_build
         (write_reply_config packet) nd
   }"

definition handle_packet ::
    "'b backend \<Rightarrow> ('b, 'u) node \<Rightarrow> ((error_code + bool) \<times> ('b, 'u) node) option" where
  "handle_packet B nd = (case pk_type (nd_packet nd) of
       PT_ReadReply \<Rightarrow> handle_reply (nd_packet nd) nd
     | PT_WriteReply \<Rightarrow> handle_reply (nd_packet nd) nd
     | PT_Read \<Rightarrow> handle_read B (nd_packet nd) nd
     | PT_Write \<Rightarrow> handle_write B (nd_packet nd) nd
     | PT_Undefined \<Rightarrow> Some (Inr True, nd))"

definition poll ::
    "'b backend \<Rightarrow> ('b, 'u) node_methods \<Rightarrow> ('b, 'u) node \<Rightarrow>
     ((error_code + bool) \<times> ('b, 'u) node) option" where
  "poll B this nd = do {
     (res, nd) \<leftarrow> recvAndParseOnePacket B nd;
     case res of
       Inl e \<Rightarrow> Some (if nm_isShutdowned this nd then Inr False else Inl e, nd)
     | Inr n \<Rightarrow>
         if n = 0 then do {
           (res, nd) \<leftarrow> nm_shutdown this nd;
           case res of
             Inl e \<Rightarrow> Some (Inl e, nd)
           | Inr _ \<Rightarrow> Some (Inr False, nd)
         }
         else handle_packet B nd
   }"

partial_function (option) run_loop ::
    "'b backend \<Rightarrow> ('b, 'u) node_methods \<Rightarrow> ('b, 'u) node \<Rightarrow>
     ((error_code + unit) \<times> ('b, 'u) node) option" where
  "run_loop B this nd =
    (if \<not> nd_running nd then Some (Inr (), nd)
     else do {
       (res, nd) \<leftarrow> poll B this nd;
       case res of
         Inl e \<Rightarrow> Some (Inl e, nd)
       | Inr go_on \<Rightarrow> if \<not> go_on then Some (Inr (), nd) else run_loop B this nd
     })"

definition runLoop ::
    "'b backend \<Rightarrow> ('b, 'u) node_methods \<Rightarrow> ('b, 'u) node \<Rightarrow>
     ((error_code + unit) \<times> ('b, 'u) node) option" where
  "runLoop B this nd = run_loop B this (nd\<lparr>nd_running := True\<rparr>)"

subsection \<open>Synchronous operations\<close>

text \<open>
  \<open>future.wait_for(timeout)\<close>: while the caller waits, another thread polls. What it does to the
  node until the future is ready or the time is up is the argument \<open>wait\<close>; the wait returns
  \<open>ready\<close> exactly if the promise is set or broken by then. A broken promise makes \<open>get()\<close> throw out of a
  \<open>noexcept\<close> function, which ends the program. \<open>attempt\<close> counts up from zero; \<open>k\<close> attempts are left.
\<close>

fun sync_attempts ::
    "(nat \<Rightarrow> ('b, 'u) node \<Rightarrow> (AsyncOperation \<times> ('b, 'u) node) option) \<Rightarrow>
     (nat \<Rightarrow> nat \<Rightarrow> ('b, 'u) node \<Rightarrow> ('b, 'u) node option) \<Rightarrow>
     nat \<Rightarrow> nat \<Rightarrow> ('b, 'u) node \<Rightarrow> ((error_code + unit) \<times> ('b, 'u) node) option" where
  "sync_attempts start wait 0 attempt nd = Some (Inl (Generic timed_out), nd)"
| "sync_attempts start wait (Suc k) attempt nd = do {
     (async_op, nd) \<leftarrow> start attempt nd;
     nd \<leftarrow> wait attempt (op_future async_op) nd;
     status \<leftarrow> future_status (op_future async_op) nd;
     case status of
       Future_ready res \<Rightarrow> Some (res, nd)
     | Future_broken \<Rightarrow> None
     | Future_pending \<Rightarrow> do {
         nd \<leftarrow> (case op_transaction_id async_op of
             Some transaction_id \<Rightarrow> cancelTransaction transaction_id nd
           | None \<Rightarrow> Some nd);
         sync_attempts start wait k (Suc attempt) nd
       }
   }"

definition attempts :: "nat \<Rightarrow> nat" where
  "attempts retry_count = (if retry_count = 0 then 1 else retry_count)"

definition write_sync ::
    "'b backend \<Rightarrow> (nat \<Rightarrow> nat \<Rightarrow> int) \<Rightarrow> (nat \<Rightarrow> nat \<Rightarrow> ('b, 'u) node \<Rightarrow> ('b, 'u) node option) \<Rightarrow>
     target_node \<Rightarrow> u32 \<Rightarrow> bytes \<Rightarrow> nat \<Rightarrow> ('b, 'u) node \<Rightarrow>
     ((error_code + unit) \<times> ('b, 'u) node) option" where
  "write_sync B clock wait target_node memory_address data retry_count nd =
     sync_attempts
       (\<lambda>attempt. startWriteAsyncOperation B (clock attempt) target_node memory_address data
          (\<lambda>packet user. Some (Returns (), user)))
       wait (attempts retry_count) 0 nd"

text \<open>
  The caller's span \<open>data\<close> lies in the user's state: \<open>put_data\<close> stores bytes into it and
  \<open>size\<close> is its length. \<open>std::copy_n\<close> reads \<open>size\<close> bytes of the packet's data, which is
  undefined when it has fewer.
\<close>

definition copy_data :: "nat \<Rightarrow> (bytes \<Rightarrow> 'u \<Rightarrow> 'u) \<Rightarrow> 'u completion" where
  "copy_data n put_data packet user = do {
     bytes \<leftarrow> span_first (pk_data packet) n;
     Some (Returns (), put_data bytes user)
   }"

definition read_sync ::
    "'b backend \<Rightarrow> (nat \<Rightarrow> nat \<Rightarrow> int) \<Rightarrow> (nat \<Rightarrow> nat \<Rightarrow> ('b, 'u) node \<Rightarrow> ('b, 'u) node option) \<Rightarrow>
     target_node \<Rightarrow> u32 \<Rightarrow> nat \<Rightarrow> (bytes \<Rightarrow> 'u \<Rightarrow> 'u) \<Rightarrow> nat \<Rightarrow> ('b, 'u) node \<Rightarrow>
     ((error_code + unit) \<times> ('b, 'u) node) option" where
  "read_sync B clock wait target_node memory_address n put_data retry_count nd =
     sync_attempts
       (\<lambda>attempt. startReadAsyncOperation B (clock attempt) target_node memory_address
          (word_of_nat n) (copy_data n put_data))
       wait (attempts retry_count) 0 nd"


section \<open>The table under the operations\<close>

definition table :: "('b, 'u) node \<Rightarrow> _" where
  "table nd = (nd_reply_callback nd, nd_reply_error_callback nd, nd_available nd, nd_last_used nd,
     nd_transaction_id_min nd, nd_transaction_id_max nd, nd_transaction_timeout nd, nd_promises nd)"

lemma table_simps [simp]:
  "table (nd\<lparr>nd_user := u\<rparr>) = table nd" "table (nd\<lparr>nd_running := r\<rparr>) = table nd"
  "table (nd\<lparr>nd_tcp_backend := b\<rparr>) = table nd" "table (nd\<lparr>nd_shutdowned := d\<rparr>) = table nd"
  "table (nd\<lparr>nd_on_read := f\<rparr>) = table nd" "table (nd\<lparr>nd_on_write := g\<rparr>) = table nd"
  "table (nd\<lparr>nd_verify_mode := v\<rparr>) = table nd" "table (nd\<lparr>nd_send_timeout := t\<rparr>) = table nd"
  "table (nd\<lparr>nd_initiator_logical_address := a\<rparr>) = table nd"
  by (simp_all add: table_def)

lemma table_core:
  assumes "core nd' = core nd"
  shows "table nd' = table nd"
  using core_fields [OF assms] by (simp add: table_def)

lemma node_inv_table:
  assumes "table nd' = table nd"
  shows "node_inv nd' = node_inv nd"
proof -
  have eq: "nd_reply_callback nd' = nd_reply_callback nd"
    "nd_reply_error_callback nd' = nd_reply_error_callback nd" "nd_available nd' = nd_available nd"
    "nd_last_used nd' = nd_last_used nd" "nd_transaction_id_min nd' = nd_transaction_id_min nd"
    "nd_transaction_id_max nd' = nd_transaction_id_max nd"
    "nd_transaction_timeout nd' = nd_transaction_timeout nd" "nd_promises nd' = nd_promises nd"
    using assms by (simp_all add: table_def)
  show ?thesis
    unfolding node_inv_def table_shape_def slot_ok_def promises_distinct_def id_count_def slot_id_def eq
    by (rule refl)
qed

text \<open>A promise once set keeps its value.\<close>

definition promises_kept :: "('b, 'u) node \<Rightarrow> ('b, 'u) node \<Rightarrow> bool" where
  "promises_kept nd nd' \<longleftrightarrow> length (nd_promises nd) \<le> length (nd_promises nd') \<and>
     (\<forall>p v. p < length (nd_promises nd) \<longrightarrow> nd_promises nd ! p = Some v \<longrightarrow> nd_promises nd' ! p = Some v)"

lemma promises_kept_refl [simp]: "promises_kept nd nd"
  by (simp add: promises_kept_def)

lemma promises_kept_trans: "promises_kept a b \<Longrightarrow> promises_kept b c \<Longrightarrow> promises_kept a c"
  unfolding promises_kept_def by (meson order_trans less_le_trans)

lemma promises_kept_table: "table nd' = table nd \<Longrightarrow> promises_kept nd nd'"
  by (simp add: promises_kept_def table_def)

lemma promises_kept_settle:
  assumes "nd_promises nd ! p = None"
  shows "promises_kept nd (settle i p v nd)"
proof -
  have "(nd_promises nd)[p := Some v] ! q = Some w" if "nd_promises nd ! q = Some w" for q w
    using assms that by (cases "q = p") auto
  then show ?thesis by (simp add: promises_kept_def)
qed

text \<open>Both at once, for every operation.\<close>

definition safe_step :: "('b, 'u) node \<Rightarrow> ('b, 'u) node \<Rightarrow> bool" where
  "safe_step nd nd' \<longleftrightarrow> (node_inv nd \<longrightarrow> node_inv nd' \<and> promises_kept nd nd')"

lemma safe_step_table [intro]: "table nd' = table nd \<Longrightarrow> safe_step nd nd'"
  unfolding safe_step_def using node_inv_table promises_kept_table by blast

lemma safe_step_core: "core nd' = core nd \<Longrightarrow> safe_step nd nd'"
  by (rule safe_step_table) (rule table_core)

lemma safe_step_refl [simp]: "safe_step nd nd"
  by (simp add: safe_step_def)

lemma safe_step_trans [trans]: "safe_step a b \<Longrightarrow> safe_step b c \<Longrightarrow> safe_step a c"
  unfolding safe_step_def by (blast intro: promises_kept_trans)

lemma safe_step_cancel: "cancelTransaction t nd = Some nd' \<Longrightarrow> safe_step nd nd'"
  by (auto simp: safe_step_def cancelTransaction_eq drop_transaction_inv tid_index_less
      promises_kept_def)

lemma safe_step_reply: "handle_reply pk nd = Some (r, nd') \<Longrightarrow> safe_step nd nd'"
  unfolding safe_step_def
proof (intro impI)
  assume r: "handle_reply pk nd = Some (r, nd')" and inv: "node_inv nd"
  show "node_inv nd' \<and> promises_kept nd nd'"
  proof (cases "tid_out_of_range (pk_transactionID pk) nd")
    case True
    with r inv show ?thesis by (simp add: handle_reply_eq)
  next
    case False
    define i where "i = tid_index (pk_transactionID pk) nd"
    have i: "i < id_count nd" using tid_index_less [OF False] by (simp add: i_def)
    show ?thesis
    proof (cases "nd_reply_callback nd ! i")
      case None
      with False r inv show ?thesis by (simp add: handle_reply_eq i_def [symmetric])
    next
      case (Some rc)
      with False r inv obtain out user where
        nd': "nd' = (settle i (rc_promise rc) (reply_value out) nd)\<lparr>nd_user := user\<rparr>"
        by (auto simp: handle_reply_eq i_def [symmetric] elim!: bind_SomeE)
      have "nd_promises nd ! rc_promise rc = None" using inv i Some by (auto elim: slot_cases)
      then have "node_inv (settle i (rc_promise rc) (reply_value out) nd)"
        "promises_kept nd (settle i (rc_promise rc) (reply_value out) nd)"
        using settle_inv [OF inv i Some] promises_kept_settle by blast+
      moreover have "safe_step (settle i (rc_promise rc) (reply_value out) nd) nd'"
        unfolding nd' by (rule safe_step_table) simp
      ultimately show ?thesis by (auto simp: safe_step_def intro: promises_kept_trans)
    qed
  qed
qed

lemma acquired_promises:
  assumes "node_inv nd" "clock_ok clock"
    and "acquired clock (nd\<lparr>nd_promises := nd_promises nd @ [None]\<rparr>) = Some (i, nd1)"
  shows "promises_kept nd nd1 \<and> length (nd_promises nd1) = Suc (length (nd_promises nd)) \<and>
     nd_promises nd1 ! length (nd_promises nd) = None"
proof -
  let ?nd0 = "nd\<lparr>nd_promises := nd_promises nd @ [None]\<rparr>"
  from acquiredE [OF make_promise_inv [OF assms(1)] assms(2,3)] obtain base now where
    nd1: "nd1 = acquire i now base" and i: "i < id_count ?nd0" and base: "base = ?nd0 \<or> base = evict i ?nd0"
    by metis
  have i: "i < id_count nd" using i by (simp add: id_count_def)
  have rc: "rc_promise rc < length (nd_promises nd) \<and> nd_promises nd ! rc_promise rc = None"
    if "nd_reply_callback nd ! i = Some rc" for rc
    using assms(1) i that by (auto elim: slot_cases)
  show ?thesis
  proof (cases "base = ?nd0")
    case True
    then show ?thesis by (simp add: nd1 acquire_def promises_kept_def nth_append)
  next
    case False
    with base have "nd_promises nd1 = nd_promises (evict i ?nd0)" by (auto simp: nd1 acquire_def)
    then show ?thesis
      using rc by (cases "nd_reply_callback nd ! i")
        (auto simp: evict_promises promises_kept_def nth_append nth_list_update)
  qed
qed

lemma safe_step_start:
  assumes "startAsyncOperation sender clock on_complete nd = Some (opn, nd')"
    and "clock_ok clock" "keeps_core sender"
  shows "safe_step nd nd'"
  unfolding safe_step_def
proof (intro impI)
  assume inv: "node_inv nd"
  let ?nd0 = "nd\<lparr>nd_promises := nd_promises nd @ [None]\<rparr>" and ?p = "length (nd_promises nd)"
  note start = assms(1) [unfolded startAsyncOperation_eq [OF inv assms(2,3)]]
  show "node_inv nd' \<and> promises_kept nd nd'"
  proof (cases "acquired clock ?nd0")
    case None
    with start inv show ?thesis
      by (auto simp: make_promise_inv promises_kept_def nth_append)
  next
    case (Some a)
    obtain i nd1 where a: "a = (i, nd1)" by (cases a)
    let ?nd2 = "register i ?p on_complete nd1"
    note st = started_inv [OF inv assms(2) Some [unfolded a]]
    have old: "promises_kept nd nd1 \<and> ?p < length (nd_promises nd1) \<and> nd_promises nd1 ! ?p = None"
      using acquired_promises [OF inv assms(2) Some [unfolded a]] by simp
    from start Some a obtain res nd3 where s: "sender (slot_id nd i) ?nd2 = Some (res, nd3)"
      and r: "(opn, nd') = (case res of
         Inl e \<Rightarrow> (\<lparr>op_future = ?p, op_transaction_id = None\<rparr>, settle i ?p (Inl e) nd3)
       | Inr _ \<Rightarrow> (\<lparr>op_future = ?p, op_transaction_id = Some (slot_id nd i)\<rparr>, nd3))"
      by (auto elim!: bind_SomeE)
    from r have nd': "nd' = nd3 \<or> (\<exists>e. nd' = settle i ?p (Inl e) nd3)" by (cases res) auto
    have core: "core nd3 = core ?nd2" using s assms(3) by (simp add: keeps_core_def)
    have inv3: "node_inv nd3" using node_inv_core [OF core] st(1) by simp
    have p3: "nd_promises nd3 = nd_promises nd1" using core_fields(16) [OF core] by (simp add: register_def)
    have cb: "nd_reply_callback nd3 ! i = Some \<lparr>rc_on_complete = on_complete, rc_promise = ?p,
        rc_transaction_id = slot_id nd1 i, rc_tx_index = i\<rparr>"
      using core_fields(1) [OF core] st(2,5) by (simp add: register_def)
    have "id_count nd3 = id_count nd"
      using core_fields [OF core] st(3) by (simp add: id_count_def register_def)
    then have settled: "node_inv (settle i ?p v nd3)" for v
      using settle_inv [OF inv3 _ cb, of v] st(2) by simp
    have "promises_kept nd nd3" using old p3 by (simp add: promises_kept_def)
    moreover have "promises_kept nd3 (settle i ?p v nd3)" for v
      using old p3 by (intro promises_kept_settle) simp
    ultimately show ?thesis using nd' inv3 settled by (auto intro: promises_kept_trans)
  qed
qed

lemma send_reply_core: "send_reply B n build c nd = Some (r, nd') \<Longrightarrow> core nd' = core nd"
  by (auto simp: send_reply_def elim!: bind_SomeE
      dest!: send_core build_frame_core reserve_send_core split: sum.split_asm)

lemma handle_read_table: "handle_read B pk nd = Some (r, nd') \<Longrightarrow> table nd' = table nd"
  by (auto simp: handle_read_def elim!: bind_SomeE dest!: send_reply_core table_core
      split: option.split_asm outcome.split_asm)

lemma handle_write_table: "handle_write B pk nd = Some (r, nd') \<Longrightarrow> table nd' = table nd"
  by (auto simp: handle_write_def elim!: bind_SomeE dest!: send_reply_core table_core
      split: option.split_asm outcome.split_asm)

lemma safe_step_packet: "handle_packet B nd = Some (r, nd') \<Longrightarrow> safe_step nd nd'"
  by (auto simp: handle_packet_def intro: safe_step_reply safe_step_table handle_read_table
      handle_write_table split: PacketType.split_asm)

section \<open>Broken promises\<close>

text \<open>
  A step that breaks no promise. Every function that drops the closures of an operation sets the promise before the last
  of them goes, except \<open>cancelTransaction_\<close>.
\<close>

definition breaks_none :: "('b, 'u) node \<Rightarrow> ('b, 'u) node \<Rightarrow> bool" where
  "breaks_none nd nd' \<longleftrightarrow>
     (\<forall>p. future_status p nd' = Some Future_broken \<longrightarrow> future_status p nd = Some Future_broken)"

lemma future_status_cong:
  assumes "nd_promises nd' = nd_promises nd" "nd_reply_callback nd' = nd_reply_callback nd"
    "nd_reply_error_callback nd' = nd_reply_error_callback nd"
  shows "future_status p nd' = future_status p nd"
  using assms by (simp add: future_status_def promise_held_def)

lemma future_status_table: "table nd' = table nd \<Longrightarrow> future_status p nd' = future_status p nd"
  by (rule future_status_cong) (simp_all add: table_def)

lemma breaks_none_table: "table nd' = table nd \<Longrightarrow> breaks_none nd nd'"
  by (simp add: breaks_none_def future_status_table [of nd' nd])

lemma breaks_none_trans [trans]: "breaks_none a b \<Longrightarrow> breaks_none b c \<Longrightarrow> breaks_none a c"
  by (simp add: breaks_none_def)

lemma breaks_none_settle:
  assumes "node_inv nd" "i < id_count nd" "nd_reply_callback nd ! i = Some rc"
  shows "breaks_none nd (settle i (rc_promise rc) v nd)"
  unfolding breaks_none_def
proof (intro allI impI)
  let ?nd = "settle i (rc_promise rc) v nd"
  fix p assume "future_status p ?nd = Some Future_broken"
  then have p: "p < length (nd_promises nd)" "(nd_promises nd)[rc_promise rc := Some v] ! p = None"
    "\<forall>j < id_count nd. \<forall>rc'. nd_reply_callback ?nd ! j = Some rc' \<longrightarrow> rc_promise rc' \<noteq> p"
    by (simp_all add: future_status_broken_iff [OF settle_inv [OF assms]])
  then have ne: "p \<noteq> rc_promise rc" by auto
  then have "rc_promise rc' \<noteq> p" if "j < id_count nd" "nd_reply_callback nd ! j = Some rc'" for j rc'
    using p(3) that assms(3) by (cases "j = i") (auto simp: settle_def drop_transaction_def)
  with p(1,2) ne show "future_status p nd = Some Future_broken"
    by (auto simp: future_status_broken_iff [OF assms(1)])
qed

lemma breaks_none_reply:
  assumes "handle_reply pk nd = Some (r, nd')" "node_inv nd"
  shows "breaks_none nd nd'"
proof (cases "tid_out_of_range (pk_transactionID pk) nd")
  case False
  let ?i = "tid_index (pk_transactionID pk) nd"
  show ?thesis
  proof (cases "nd_reply_callback nd ! ?i")
    case (Some rc)
    with False assms obtain out user where
      nd': "nd' = (settle ?i (rc_promise rc) (reply_value out) nd)\<lparr>nd_user := user\<rparr>"
      by (auto simp: handle_reply_eq elim!: bind_SomeE)
    have "breaks_none nd (settle ?i (rc_promise rc) (reply_value out) nd)"
      by (rule breaks_none_settle [OF assms(2) tid_index_less [OF False] Some])
    also have "breaks_none \<dots> nd'" unfolding nd' by (rule breaks_none_table) simp
    finally show ?thesis .
  qed (use False assms in \<open>simp add: handle_reply_eq breaks_none_def\<close>)
qed (use assms in \<open>simp add: handle_reply_eq breaks_none_def\<close>)

text \<open>Registering: the new promise is held, and an evicted operation has its promise set.\<close>

lemma breaks_none_register:
  assumes "node_inv nd" "clock_ok clock"
    and "acquired clock (nd\<lparr>nd_promises := nd_promises nd @ [None]\<rparr>) = Some (i, nd1)"
  shows "breaks_none nd (register i (length (nd_promises nd)) oc nd1)"
  unfolding breaks_none_def
proof (intro allI impI)
  let ?nd0 = "nd\<lparr>nd_promises := nd_promises nd @ [None]\<rparr>" and ?p = "length (nd_promises nd)"
  let ?nd2 = "register i ?p oc nd1"
  note st = started_inv [OF assms]
  from acquiredE [OF make_promise_inv [OF assms(1)] assms(2,3)] obtain base now where
    nd1: "nd1 = acquire i now base" and base: "base = ?nd0 \<and> nd_available nd ! i \<or> base = evict i ?nd0"
    by (metis node.ext_inject node.surjective node.update_convs(20))
  have i: "i < id_count nd" by (rule st(2))
  fix q assume "future_status q ?nd2 = Some Future_broken"
  moreover have "id_count ?nd2 = id_count nd" using st(3) by (simp add: register_def id_count_def)
  moreover have "nd_promises ?nd2 = nd_promises nd1" by (simp add: register_def)
  ultimately have q: "q < length (nd_promises nd1)" "nd_promises nd1 ! q = None"
    "\<forall>j < id_count nd. \<forall>rc. nd_reply_callback ?nd2 ! j = Some rc \<longrightarrow> rc_promise rc \<noteq> q"
    by (simp_all add: future_status_broken_iff [OF st(1)])
  have "nd_reply_callback ?nd2 ! i = Some \<lparr>rc_on_complete = oc, rc_promise = ?p,
      rc_transaction_id = slot_id nd1 i, rc_tx_index = i\<rparr>"
    using i st(5) by (simp add: register_def)
  then have "q \<noteq> ?p" using q(3) i by auto
  moreover have "length (nd_promises nd1) = Suc ?p" using acquired_promises [OF assms] by simp
  ultimately have less: "q < ?p" using q(1) by simp
  have other: "rc_promise rc \<noteq> q" if "j < id_count nd" "j \<noteq> i" "nd_reply_callback nd ! j = Some rc" for j rc
    using q(3) that base by (auto simp: register_def nd1 acquire_def evict_callback)
  have here: "rc_promise rc \<noteq> q" if "nd_reply_callback nd ! i = Some rc" for rc
  proof
    assume "rc_promise rc = q"
    moreover have "\<not> nd_available nd ! i" using assms(1) i that by (auto elim: slot_cases)
    ultimately show False
      using base that q(2) less by (auto simp: nd1 acquire_def evict_promises nth_append)
  qed
  have "nd_promises nd ! q = None"
    using base q(2) less here by (auto simp: nd1 acquire_def evict_promises nth_append split: option.split_asm)
  with less other here show "future_status q nd = Some Future_broken"
    unfolding future_status_broken_iff [OF assms(1)] by metis
qed

lemma breaks_none_start:
  assumes "startAsyncOperation sender clock oc nd = Some (opn, nd')"
    and "clock_ok clock" "keeps_core sender" "node_inv nd"
  shows "breaks_none nd nd'"
proof -
  let ?nd0 = "nd\<lparr>nd_promises := nd_promises nd @ [None]\<rparr>" and ?p = "length (nd_promises nd)"
  note start = assms(1) [unfolded startAsyncOperation_eq [OF assms(4,2,3)]]
  show ?thesis
  proof (cases "acquired clock ?nd0")
    case None
    with start have "nd' = nd\<lparr>nd_promises := nd_promises nd @ [Some (Inl (Generic resource_unavailable_try_again))]\<rparr>"
      by simp
    then show ?thesis
      by (auto simp: breaks_none_def future_status_def promise_held_def span_at_def nth_append split: if_split_asm)
  next
    case (Some a)
    obtain i nd1 where a: "a = (i, nd1)" by (cases a)
    let ?nd2 = "register i ?p oc nd1"
    note st = started_inv [OF assms(4,2) Some [unfolded a]]
    from start Some a obtain res nd3 where s: "sender (slot_id nd i) ?nd2 = Some (res, nd3)"
      and r: "(opn, nd') = (case res of
         Inl e \<Rightarrow> (\<lparr>op_future = ?p, op_transaction_id = None\<rparr>, settle i ?p (Inl e) nd3)
       | Inr _ \<Rightarrow> (\<lparr>op_future = ?p, op_transaction_id = Some (slot_id nd i)\<rparr>, nd3))"
      by (auto elim!: bind_SomeE)
    have core: "core nd3 = core ?nd2" using s assms(3) by (simp add: keeps_core_def)
    have inv3: "node_inv nd3" using node_inv_core [OF core] st(1) by simp
    have cb: "nd_reply_callback nd3 ! i = Some \<lparr>rc_on_complete = oc, rc_promise = ?p,
        rc_transaction_id = slot_id nd1 i, rc_tx_index = i\<rparr>"
      using core_fields(1) [OF core] st(2,5) by (simp add: register_def)
    have n: "i < id_count nd3"
      using core_fields [OF core] st(2,3) by (simp add: id_count_def register_def)
    have "breaks_none nd ?nd2" by (rule breaks_none_register [OF assms(4,2) Some [unfolded a]])
    also have "breaks_none ?nd2 nd3" by (rule breaks_none_table [OF table_core [OF core]])
    finally have "breaks_none nd nd3" .
    moreover have "breaks_none nd3 (settle i ?p v nd3)" for v
      using breaks_none_settle [OF inv3 n cb] by simp
    ultimately show ?thesis using r by (cases res) (auto intro: breaks_none_trans)
  qed
qed

lemma breaks_none_packet:
  "handle_packet B nd = Some (r, nd') \<Longrightarrow> node_inv nd \<Longrightarrow> breaks_none nd nd'"
  by (auto simp: handle_packet_def intro: breaks_none_reply breaks_none_table handle_read_table
      handle_write_table split: PacketType.split_asm)

lemma cancel_breaks:
  assumes "cancelTransaction t nd = Some nd'" "node_inv nd"
    and "future_status p nd' = Some Future_broken" "future_status p nd \<noteq> Some Future_broken"
  obtains rc where "\<not> tid_out_of_range t nd" "nd_reply_callback nd ! tid_index t nd = Some rc" "rc_promise rc = p"
proof -
  let ?i = "tid_index t nd"
  have r: "\<not> tid_out_of_range t nd" using assms by (auto simp: cancelTransaction_eq)
  then have nd': "nd' = drop_transaction ?i nd" using assms by (simp add: cancelTransaction_eq)
  have p: "p < length (nd_promises nd)" "nd_promises nd ! p = None"
    and out: "\<forall>j < id_count nd. \<forall>rc. nd_reply_callback nd' ! j = Some rc \<longrightarrow> rc_promise rc \<noteq> p"
    using assms(3) by (simp_all add: nd' future_status_broken_iff [OF drop_transaction_inv [OF assms(2) tid_index_less [OF r]]])
  from assms(4) p obtain j rc where j: "j < id_count nd" "nd_reply_callback nd ! j = Some rc" "rc_promise rc = p"
    by (auto simp: future_status_broken_iff [OF assms(2)])
  have "j = ?i"
  proof (rule ccontr)
    assume "j \<noteq> ?i"
    with j(2) have "nd_reply_callback nd' ! j = Some rc" by (simp add: nd' drop_transaction_def)
    with out j show False by blast
  qed
  with j r show thesis by (intro that) auto
qed

lemma drop_breaks:
  assumes "node_inv nd" "i < id_count nd" "nd_reply_callback nd ! i = Some rc"
  shows "future_status (rc_promise rc) (drop_transaction i nd) = Some Future_broken"
  unfolding future_status_broken_iff [OF drop_transaction_inv [OF assms(1,2)]] drop_transaction_simps
proof (intro conjI allI impI)
  show "rc_promise rc < length (nd_promises nd)" "nd_promises nd ! rc_promise rc = None"
    using assms by (auto elim: slot_cases)
  fix j rc' assume j: "j < id_count nd" "nd_reply_callback (drop_transaction i nd) ! j = Some rc'"
  then have "j \<noteq> i" "nd_reply_callback nd ! j = Some rc'"
    using shape_lengths(1) [OF assms(1)] by (cases "j = i"; simp add: drop_transaction_def)+
  then show "rc_promise rc' \<noteq> rc_promise rc"
    using assms j(1) by (auto simp: node_inv_def promises_distinct_def)
qed

section \<open>Derived classes\<close>

text \<open>
  The contract of the methods that a derived class supplies: shutting down does not touch the
  transaction table.
\<close>

locale node_derived =
  fixes this :: "('b, 'u) node_methods"
  assumes shutdown_table: "nm_shutdown this nd = Some (r, nd') \<Longrightarrow> table nd' = table nd"
begin

lemma safe_step_poll:
  assumes "poll B this nd = Some (r, nd')"
  shows "safe_step nd nd'"
proof -
  from assms obtain res nd1 where recv: "recvAndParseOnePacket B nd = Some (res, nd1)"
    and rest: "(case res of Inl e \<Rightarrow> Some (if nm_isShutdowned this nd1 then Inr False else Inl e, nd1)
      | Inr n \<Rightarrow> if n = 0 then do { (res, nd) \<leftarrow> nm_shutdown this nd1;
            case res of Inl e \<Rightarrow> Some (Inl e, nd) | Inr _ \<Rightarrow> Some (Inr False, nd) }
          else handle_packet B nd1) = Some (r, nd')"
    unfolding poll_def by (auto elim!: bind_SomeE)
  have "safe_step nd1 nd'"
  proof (cases res)
    case (Inr n)
    with rest show ?thesis
      by (cases "n = 0") (auto elim!: bind_SomeE dest!: shutdown_table intro: safe_step_packet
          split: sum.split_asm)
  qed (use rest in auto)
  with safe_step_core [OF recvAndParseOnePacket_core [OF recv]] show ?thesis by (rule safe_step_trans)
qed

lemma breaks_none_poll:
  assumes "poll B this nd = Some (r, nd')" "node_inv nd"
  shows "breaks_none nd nd'"
proof -
  from assms(1) obtain res nd1 where recv: "recvAndParseOnePacket B nd = Some (res, nd1)"
    and rest: "(case res of Inl e \<Rightarrow> Some (if nm_isShutdowned this nd1 then Inr False else Inl e, nd1)
      | Inr n \<Rightarrow> if n = 0 then do { (res, nd) \<leftarrow> nm_shutdown this nd1;
            case res of Inl e \<Rightarrow> Some (Inl e, nd) | Inr _ \<Rightarrow> Some (Inr False, nd) }
          else handle_packet B nd1) = Some (r, nd')"
    unfolding poll_def by (auto elim!: bind_SomeE)
  have core: "core nd1 = core nd" by (rule recvAndParseOnePacket_core [OF recv])
  have inv: "node_inv nd1" using node_inv_core [OF core] assms(2) by simp
  have "breaks_none nd1 nd'"
  proof (cases res)
    case (Inr n)
    with rest inv show ?thesis
      by (cases "n = 0") (auto elim!: bind_SomeE dest!: shutdown_table intro: breaks_none_packet breaks_none_table
          split: sum.split_asm)
  qed (use rest in \<open>auto intro: breaks_none_table\<close>)
  with breaks_none_table [OF table_core [OF core]] show ?thesis by (rule breaks_none_trans)
qed

lemma safe_step_run_loop:
  assumes "run_loop B this nd = Some (r, nd')"
  shows "safe_step nd nd'"
proof -
  have "this = this \<longrightarrow> safe_step nd (snd (r, nd'))"
  proof (rule run_loop.raw_induct [where P = "\<lambda>B this' nd y. this' = this \<longrightarrow> safe_step nd (snd y)",
        OF _ assms])
    fix loop B this' nd y
    assume IH: "\<And>B this' nd y. loop B this' nd = Some y \<Longrightarrow> this' = this \<longrightarrow> safe_step nd (snd y)"
      and step: "(if \<not> nd_running nd then Some (Inr (), nd)
        else do { (res, nd) \<leftarrow> poll B this' nd;
          case res of Inl e \<Rightarrow> Some (Inl e, nd)
          | Inr go_on \<Rightarrow> if \<not> go_on then Some (Inr (), nd) else loop B this' nd }) = Some y"
    show "this' = this \<longrightarrow> safe_step nd (snd y)"
    proof (intro impI)
      assume t: "this' = this"
      show "safe_step nd (snd y)"
      proof (cases "nd_running nd")
        case False
        with step show ?thesis by auto
      next
        case True
        with step obtain res nd1 where p: "poll B this nd = Some (res, nd1)"
          and rest: "(case res of Inl e \<Rightarrow> Some (Inl e, nd1)
            | Inr go_on \<Rightarrow> if \<not> go_on then Some (Inr (), nd1) else loop B this nd1) = Some y"
          unfolding t by (auto elim!: bind_SomeE)
        have "safe_step nd1 (snd y)"
          using rest IH [of B this nd1 y] by (cases res) (auto split: if_split_asm)
        with safe_step_poll [OF p] show ?thesis by (rule safe_step_trans)
      qed
    qed
  qed
  then show ?thesis by simp
qed

end
end
