(* ===== verification/Posix.thy ===== *)
theory Posix
  imports Tcp_Backend
begin

unbundle bit_operations_syntax

text \<open>
  The system calls that \<open>tcp_client.cc\<close> and \<open>tcp_server.cc\<close> make. The operating system is
  not part of the sources, so it is a parameter: a record of functions on an unspecified state
  \<open>'w\<close>, which the models of the two classes take as an argument. A call returns what the C
  function returns and the new state; \<open>errno\<close> is read from the state. \<open>recv\<close> returns the
  bytes it stored, \<open>None\<close> for a negative result. \<open>poll\<close> is only ever used on one descriptor
  for \<open>POLLOUT\<close>; it returns its result and \<open>revents\<close>.

  What the sources rely on is stated as the locales \<open>posix\<close>, \<open>posix_stream\<close>, \<open>posix_fds\<close> and
  \<open>posix_signals\<close>. The numeric constants are those of Linux.
\<close>

datatype sockopt = TCP_NODELAY | SO_REUSEADDR | SO_REUSEPORT | SO_SNDTIMEO int int

datatype ai_hints = Client_hints | Server_hints

text \<open>The fields of \<open>struct addrinfo\<close> that the sources read; \<open>ai_addrlen\<close> is the length of
  \<open>ai_addr\<close>, and the chain through \<open>ai_next\<close> is a list.\<close>

record addrinfo =
  ai_family :: int
  ai_socktype :: int
  ai_protocol :: int
  ai_addr :: bytes

record 'w sys =
  sys_errno :: "'w \<Rightarrow> int"
  sys_close :: "int \<Rightarrow> 'w \<Rightarrow> int \<times> 'w"
  sys_getfl :: "int \<Rightarrow> 'w \<Rightarrow> int \<times> 'w"
  sys_setfl :: "int \<Rightarrow> int \<Rightarrow> 'w \<Rightarrow> int \<times> 'w"
  sys_getfd :: "int \<Rightarrow> 'w \<Rightarrow> int \<times> 'w"
  sys_setfd :: "int \<Rightarrow> int \<Rightarrow> 'w \<Rightarrow> int \<times> 'w"
  sys_setsockopt :: "int \<Rightarrow> sockopt \<Rightarrow> 'w \<Rightarrow> int \<times> 'w"
  sys_get_so_error :: "int \<Rightarrow> 'w \<Rightarrow> int \<times> int \<times> 'w"
  sys_getaddrinfo :: "string \<Rightarrow> string \<Rightarrow> ai_hints \<Rightarrow> 'w \<Rightarrow> int \<times> addrinfo list \<times> 'w"
  sys_socket :: "int \<Rightarrow> int \<Rightarrow> int \<Rightarrow> 'w \<Rightarrow> int \<times> 'w"
  sys_connect :: "int \<Rightarrow> bytes \<Rightarrow> 'w \<Rightarrow> int \<times> 'w"
  sys_poll_out :: "int \<Rightarrow> int \<Rightarrow> 'w \<Rightarrow> int \<times> int \<times> 'w"
  sys_bind :: "int \<Rightarrow> bytes \<Rightarrow> 'w \<Rightarrow> int \<times> 'w"
  sys_listen :: "int \<Rightarrow> 'w \<Rightarrow> int \<times> 'w"
  sys_accept :: "int \<Rightarrow> 'w \<Rightarrow> int \<times> 'w"
  sys_send :: "int \<Rightarrow> bytes \<Rightarrow> 'w \<Rightarrow> int \<times> 'w"
  sys_recv :: "int \<Rightarrow> nat \<Rightarrow> 'w \<Rightarrow> bytes option \<times> 'w"
  sys_shutdown :: "int \<Rightarrow> 'w \<Rightarrow> int \<times> 'w"

definition EINTR :: int where "EINTR = 4"
definition EAGAIN :: int where "EAGAIN = 11"
definition EWOULDBLOCK :: int where "EWOULDBLOCK = 11"
definition EINPROGRESS :: int where "EINPROGRESS = 115"
definition ETIMEDOUT :: int where "ETIMEDOUT = 110"
definition EAI_SYSTEM :: int where "EAI_SYSTEM = -11"
definition FD_CLOEXEC :: int where "FD_CLOEXEC = 1"
definition O_NONBLOCK :: int where "O_NONBLOCK = 2048"
definition POLLOUT :: int where "POLLOUT = 4"
definition POLLERR :: int where "POLLERR = 8"
definition POLLHUP :: int where "POLLHUP = 16"
definition POLLNVAL :: int where "POLLNVAL = 32"

lemmas posix_consts = EINTR_def EAGAIN_def EWOULDBLOCK_def EINPROGRESS_def ETIMEDOUT_def EAI_SYSTEM_def
  FD_CLOEXEC_def O_NONBLOCK_def POLLOUT_def POLLERR_def POLLHUP_def POLLNVAL_def

abbreviation system_error :: "'w sys \<Rightarrow> 'w \<Rightarrow> error_code" where
  "system_error S w \<equiv> System_errno (sys_errno S w)"

text \<open>
  \<open>do { r = call(); } while (r < 0 && errno == EINTR);\<close> and its variants: the call is repeated
  while it fails with \<open>EINTR\<close>, possibly forever.
\<close>

partial_function (option) retry_eintr ::
    "'w sys \<Rightarrow> (int \<Rightarrow> bool) \<Rightarrow> ('w \<Rightarrow> int \<times> 'a \<times> 'w) \<Rightarrow> 'w \<Rightarrow> (int \<times> 'a \<times> 'w) option" where
  "retry_eintr S failed call w = (case call w of (r, x, w) \<Rightarrow>
     if failed r \<and> sys_errno S w = EINTR then retry_eintr S failed call w else Some (r, x, w))"

text \<open>\<open>close_retry_\<close>, the same in both files.\<close>

definition close_retry :: "'w sys \<Rightarrow> int \<Rightarrow> 'w \<Rightarrow> 'w option" where
  "close_retry S fd w =
    (if fd \<ge> 0 then do {
       (r, _, w) \<leftarrow> retry_eintr S (\<lambda>r. r < 0) (\<lambda>w. let (r, w) = sys_close S fd w in (r, (), w)) w;
       Some w
     }
     else Some w)"

section \<open>Documented behaviour\<close>

text \<open>No call reports more bytes than it was given room or data for.\<close>

locale posix =
  fixes S :: "'w sys"
  assumes recv_le: "sys_recv S fd n w = (Some bs, w') \<Longrightarrow> length bs \<le> n"
    and send_le: "sys_send S fd data w = (r, w') \<Longrightarrow> r \<le> int (length data)"

text \<open>
  A connected stream socket: \<open>inq\<close> is what the peer has sent and the program has not received,
  \<open>outq\<close> what the program has sent. While \<open>conn\<close> holds, \<open>recv\<close> delivers a non-empty
  prefix of what is there and \<open>send\<close> accepts at least one byte.
\<close>

locale posix_stream = posix S for S :: "'w sys" +
  fixes conn :: "int \<Rightarrow> 'w \<Rightarrow> bool" and inq :: "int \<Rightarrow> 'w \<Rightarrow> bytes" and outq :: "int \<Rightarrow> 'w \<Rightarrow> bytes"
  assumes conn_fd: "conn fd w \<Longrightarrow> 0 \<le> fd"
    and recv_some: "conn fd w \<Longrightarrow> 0 < n \<Longrightarrow> inq fd w \<noteq> [] \<Longrightarrow>
      \<exists>bs w'. sys_recv S fd n w = (Some bs, w') \<and> bs \<noteq> [] \<and> inq fd w = bs @ inq fd w' \<and>
        conn fd w' \<and> outq fd w' = outq fd w"
    and send_some: "conn fd w \<Longrightarrow> data \<noteq> [] \<Longrightarrow>
      \<exists>k w'. sys_send S fd data w = (int k, w') \<and> 0 < k \<and> outq fd w' = outq fd w @ take k data \<and>
        conn fd w' \<and> inq fd w' = inq fd w"

text \<open>At the end of the stream \<open>recv\<close> returns zero.\<close>

locale posix_stream_eof = posix_stream S conn inq outq for S :: "'w sys" and conn inq outq +
  assumes recv_end: "conn fd w \<Longrightarrow> 0 < n \<Longrightarrow> inq fd w = [] \<Longrightarrow> sys_recv S fd n w = (Some [], w)"

text \<open>
  The descriptor table: \<open>socket\<close> and \<open>accept\<close> return a descriptor that was not open,
  \<open>close\<close> closes its argument, except possibly when it is interrupted, and no other call opens
  or closes anything.
\<close>

locale posix_fds = posix S for S :: "'w sys" +
  fixes opened :: "'w \<Rightarrow> int set"
  assumes socket_opens: "sys_socket S family type protocol w = (fd, w') \<Longrightarrow>
      opened w' = (if fd < 0 then opened w else insert fd (opened w)) \<and> (0 \<le> fd \<longrightarrow> fd \<notin> opened w)"
    and accept_opens: "sys_accept S lfd w = (fd, w') \<Longrightarrow>
      opened w' = (if fd < 0 then opened w else insert fd (opened w)) \<and> (0 \<le> fd \<longrightarrow> fd \<notin> opened w)"
    and close_closes: "sys_close S fd w = (r, w') \<Longrightarrow>
      opened w' = opened w - {fd} \<or> r < 0 \<and> sys_errno S w' = EINTR \<and> opened w' = opened w"
    and keep_getfl: "sys_getfl S fd w = (r, w') \<Longrightarrow> opened w' = opened w"
    and keep_setfl: "sys_setfl S fd fl w = (r, w') \<Longrightarrow> opened w' = opened w"
    and keep_getfd: "sys_getfd S fd w = (r, w') \<Longrightarrow> opened w' = opened w"
    and keep_setfd: "sys_setfd S fd fl w = (r, w') \<Longrightarrow> opened w' = opened w"
    and keep_setsockopt: "sys_setsockopt S fd opt w = (r, w') \<Longrightarrow> opened w' = opened w"
    and keep_get_so_error: "sys_get_so_error S fd w = (r, e, w') \<Longrightarrow> opened w' = opened w"
    and keep_getaddrinfo: "sys_getaddrinfo S host port hints w = (r, ais, w') \<Longrightarrow> opened w' = opened w"
    and keep_connect: "sys_connect S fd addr w = (r, w') \<Longrightarrow> opened w' = opened w"
    and keep_poll: "sys_poll_out S fd ms w = (r, ev, w') \<Longrightarrow> opened w' = opened w"
    and keep_bind: "sys_bind S fd addr w = (r, w') \<Longrightarrow> opened w' = opened w"
    and keep_listen: "sys_listen S fd w = (r, w') \<Longrightarrow> opened w' = opened w"

text \<open>
  Interruptions come to an end: \<open>signals\<close> bounds how often calls can still be interrupted in a row. A call that fails with
  \<open>EINTR\<close> uses one up.
\<close>

locale posix_signals = posix S for S :: "'w sys" +
  fixes signals :: "'w \<Rightarrow> nat"
  assumes close_signal: "sys_close S fd w = (r, w') \<Longrightarrow> r < 0 \<Longrightarrow> sys_errno S w' = EINTR \<Longrightarrow> signals w' < signals w"
    and connect_signal: "sys_connect S fd addr w = (r, w') \<Longrightarrow> r \<noteq> 0 \<Longrightarrow> sys_errno S w' = EINTR \<Longrightarrow> signals w' < signals w"
    and poll_signal: "sys_poll_out S fd ms w = (r, ev, w') \<Longrightarrow> r < 0 \<Longrightarrow> sys_errno S w' = EINTR \<Longrightarrow> signals w' < signals w"
    and send_signal: "sys_send S fd data w = (r, w') \<Longrightarrow> r < 0 \<Longrightarrow> sys_errno S w' = EINTR \<Longrightarrow> signals w' < signals w"
    and recv_signal: "sys_recv S fd n w = (None, w') \<Longrightarrow> sys_errno S w' = EINTR \<Longrightarrow> signals w' < signals w"

text \<open>A call that is repeated ends with one that was not interrupted.\<close>

lemma retry_eintr_induct:
  fixes S :: "'w sys"
  assumes "retry_eintr S failed call w = Some (r, x, w')" and "P w"
    and keep: "\<And>w r x w'. call w = (r, x, w') \<Longrightarrow> failed r \<Longrightarrow> sys_errno S w' = EINTR \<Longrightarrow> P w \<Longrightarrow> P w'"
  shows "\<exists>w1. P w1 \<and> call w1 = (r, x, w') \<and> \<not> (failed r \<and> sys_errno S w' = EINTR)"
proof -
  let ?Q = "\<lambda>(S' :: 'w sys) failed' call' w (y :: int \<times> 'a \<times> 'w).
     S' = S \<and> failed' = failed \<and> call' = call \<and> P w \<longrightarrow>
     (\<exists>w1. P w1 \<and> call w1 = y \<and> \<not> (failed (fst y) \<and> sys_errno S (snd (snd y)) = EINTR))"
  have "?Q S failed call w (r, x, w')"
  proof (rule retry_eintr.raw_induct [where P = ?Q, OF _ assms(1)], intro impI)
    fix loop and S' :: "'w sys" and failed' call' w and y :: "int \<times> 'a \<times> 'w"
    assume IH: "\<And>S' failed' call' w y. loop S' failed' call' w = Some y \<Longrightarrow> ?Q S' failed' call' w y"
      and step: "(case call' w of (r, x, w) \<Rightarrow>
        if failed' r \<and> sys_errno S' w = EINTR then loop S' failed' call' w else Some (r, x, w)) = Some y"
      and eq: "S' = S \<and> failed' = failed \<and> call' = call \<and> P w"
    obtain r1 x1 w1 where c: "call w = (r1, x1, w1)" by (cases "call w")
    show "\<exists>w1. P w1 \<and> call w1 = y \<and> \<not> (failed (fst y) \<and> sys_errno S (snd (snd y)) = EINTR)"
    proof (cases "failed r1 \<and> sys_errno S w1 = EINTR")
      case True
      with step eq c keep [OF c] IH [of S failed call w1 y] show ?thesis by simp
    next
      case False
      with step eq c show ?thesis by (intro exI [of _ w]) auto
    qed
  qed
  with assms(2) show ?thesis by simp
qed

lemma retry_eintr_keeps:
  assumes "retry_eintr S failed call w = Some (r, x, w')"
    and "\<And>w r x w'. call w = (r, x, w') \<Longrightarrow> f w' = f w"
  shows "f w' = f w"
  using retry_eintr_induct [OF assms(1), of "\<lambda>v. f v = f w"] assms(2) by metis

text \<open>A call whose interruptions come to an end returns.\<close>

lemma retry_eintr_returns:
  fixes signals :: "'w \<Rightarrow> nat"
  assumes "\<And>w r x w'. call w = (r, x, w') \<Longrightarrow> failed r \<Longrightarrow> sys_errno S w' = EINTR \<Longrightarrow> signals w' < signals w"
  shows "\<exists>r x w'. retry_eintr S failed call w = Some (r, x, w')"
proof (induction "signals w" arbitrary: w rule: less_induct)
  case less
  obtain r x w1 where c: "call w = (r, x, w1)" by (cases "call w")
  show ?case
  proof (cases "failed r \<and> sys_errno S w1 = EINTR")
    case True
    with less.hyps [OF assms [OF c]] c show ?thesis by (subst retry_eintr.simps) simp
  next
    case False
    with c show ?thesis by (subst retry_eintr.simps) auto
  qed
qed

text \<open>Without interruptions the first call decides.\<close>

lemma retry_eintr_once:
  assumes "\<And>w. sys_errno S w \<noteq> EINTR"
  shows "retry_eintr S failed call w = Some (call w)"
  using assms by (subst retry_eintr.simps) (auto split: prod.split)

context posix_fds
begin

lemma close_retry_opened:
  assumes "close_retry S fd w = Some w'"
  shows "opened w' = (if fd < 0 then opened w else opened w - {fd})"
proof (cases "fd < 0")
  case False
  define call where "call = (\<lambda>w. let (r, w) = sys_close S fd w in (r, (), w))"
  from assms False obtain r where r: "retry_eintr S (\<lambda>r. r < 0) call w = Some (r, (), w')"
    by (auto simp: close_retry_def call_def elim!: bind_SomeE)
  have calls: "opened v' = opened v - {fd} \<or> r < 0 \<and> sys_errno S v' = EINTR \<and> opened v' = opened v"
    if "call v = (r, x, v')" for v r x v'
    using that close_closes [of fd v] by (auto simp: call_def split: prod.split_asm)
  define P where "P v \<longleftrightarrow> opened v = opened w \<or> opened v = opened w - {fd}" for v
  have keep: "P v'" if "call v = (r, x, v')" "P v" for v r x v'
    using calls [OF that(1)] that(2) unfolding P_def by (elim disjE conjE) simp_all
  have "P w" by (simp add: P_def)
  from retry_eintr_induct [where P = P, OF r this] keep obtain w1 where
    w1: "P w1" "call w1 = (r, (), w')" "\<not> (r < 0 \<and> sys_errno S w' = EINTR)" by metis
  have "opened w' = opened w - {fd}"
    using calls [OF w1(2)] w1(1,3) unfolding P_def by (elim disjE conjE) simp_all
  with False show ?thesis by simp
qed (use assms in \<open>simp add: close_retry_def\<close>)

end

end
