(* ===== verification/Tcp_Client.thy ===== *)
theory Tcp_Client
  imports Posix
begin

unbundle bit_operations_syntax

text \<open>
  \<open>TCPClient\<close> of \<open>src/src/tcp_client.cc\<close>. The state of the object is its descriptor and
  its two strings; the state of the operating system travels with it.
\<close>

section \<open>Definitions\<close>

record 'w tcp_client =
  tc_fd :: int
  tc_ip_address :: string
  tc_port :: string
  tc_sys :: 'w

definition TCPClient :: "'w \<Rightarrow> string \<Rightarrow> string \<Rightarrow> 'w tcp_client" where
  "TCPClient w ip_address port =
     \<lparr>tc_fd = -1, tc_ip_address = ip_address, tc_port = port, tc_sys = w\<rparr>"

definition set_cloexec :: "'w sys \<Rightarrow> int \<Rightarrow> 'w \<Rightarrow> (error_code + unit) \<times> 'w" where
  "set_cloexec S fd w =
    (let (fdflags, w) = sys_getfd S fd w
     in if fdflags < 0 then (Inl (system_error S w), w)
        else let (r, w) = sys_setfd S fd (fdflags OR FD_CLOEXEC) w
             in if r < 0 then (Inl (system_error S w), w) else (Inr (), w))"

definition set_sockopts :: "'w sys \<Rightarrow> int \<Rightarrow> 'w \<Rightarrow> (error_code + unit) \<times> 'w" where
  "set_sockopts S fd w =
    (let (r, w) = sys_setsockopt S fd TCP_NODELAY w
     in if r \<noteq> 0 then (Inl (system_error S w), w) else set_cloexec S fd w)"

text \<open>\<open>duration_cast<milliseconds>\<close> of the microseconds, clamped to \<open>int32_t\<close>.\<close>

definition timeout_ms :: "int \<Rightarrow> int" where
  "timeout_ms timeout = (let ms64 = timeout div 1000 in if ms64 > 2147483647 then 2147483647 else ms64)"

text \<open>The part of \<open>connect_with_timeout_\<close> during which \<open>Restore\<close> is alive.\<close>

definition connect_nonblocking ::
    "'w sys \<Rightarrow> int \<Rightarrow> addrinfo \<Rightarrow> int \<Rightarrow> 'w \<Rightarrow> ((error_code + unit) \<times> 'w) option" where
  "connect_nonblocking S fd ai ms w = do {
     (rc, _, w) \<leftarrow> retry_eintr S (\<lambda>r. r \<noteq> 0) (\<lambda>w. let (r, w) = sys_connect S fd (ai_addr ai) w in (r, (), w)) w;
     if rc = 0 then Some (Inr (), w)
     else if sys_errno S w \<noteq> EINPROGRESS then Some (Inl (system_error S w), w)
     else do {
       (prc, _, w) \<leftarrow> retry_eintr S (\<lambda>r. r < 0) (sys_poll_out S fd ms) w;
       if prc = 0 then Some (Inl (System_errno ETIMEDOUT), w)
       else if prc < 0 then Some (Inl (system_error S w), w)
       else
         (let (r, soerr, w) = sys_get_so_error S fd w
          in if r \<noteq> 0 then Some (Inl (system_error S w), w)
             else if soerr \<noteq> 0 then Some (Inl (System_errno soerr), w)
             else Some (Inr (), w))
     }
   }"

definition connect_with_timeout ::
    "'w sys \<Rightarrow> int \<Rightarrow> addrinfo \<Rightarrow> int \<Rightarrow> 'w \<Rightarrow> ((error_code + unit) \<times> 'w) option" where
  "connect_with_timeout S fd ai timeout w =
    (if timeout < 0 then Some (Inl (Generic invalid_argument), w)
     else
       let ms = timeout_ms timeout;
           (oldfl, w) = sys_getfl S fd w
       in if oldfl < 0 then Some (Inl (system_error S w), w)
          else
            let was_blocking = (oldfl AND O_NONBLOCK = 0);
                (r, w) = (if was_blocking then sys_setfl S fd (oldfl OR O_NONBLOCK) w else (0, w))
            in if was_blocking \<and> r < 0 then Some (Inl (system_error S w), w)
               else do {
                 (res, w) \<leftarrow> connect_nonblocking S fd ai ms w;
                 Some (res, if was_blocking then snd (sys_setfl S fd oldfl w) else w)
               })"

text \<open>The loop over the addresses; \<open>last\<close> is the error of the last attempt.\<close>

fun connect_loop ::
    "'w sys \<Rightarrow> int \<Rightarrow> addrinfo list \<Rightarrow> error_code + unit \<Rightarrow> 'w tcp_client \<Rightarrow>
     ((error_code + unit) \<times> 'w tcp_client) option" where
  "connect_loop S timeout [] result c = Some (result, c)"
| "connect_loop S timeout (ai # ais) result c =
    (let (fd, w) = sys_socket S (ai_family ai) (ai_socktype ai) (ai_protocol ai) (tc_sys c);
         c = c\<lparr>tc_fd := fd, tc_sys := w\<rparr>
     in if fd < 0 then do {
          let result = Inl (system_error S w);
          w \<leftarrow> close_retry S fd w;
          connect_loop S timeout ais result (c\<lparr>tc_fd := -1, tc_sys := w\<rparr>)
        }
        else do {
          let (opts, w) = set_sockopts S fd w;
          (result, w) \<leftarrow> (case opts of
              Inl e \<Rightarrow> Some (Inl e, w)
            | Inr _ \<Rightarrow> connect_with_timeout S fd ai timeout w);
          case result of
            Inl e \<Rightarrow> do {
              w \<leftarrow> close_retry S fd w;
              connect_loop S timeout ais (Inl e) (c\<lparr>tc_fd := -1, tc_sys := w\<rparr>)
            }
          | Inr _ \<Rightarrow> Some (Inr (), c\<lparr>tc_sys := w\<rparr>)
        })"

definition TCPClient_connect ::
    "'w sys \<Rightarrow> int \<Rightarrow> 'w tcp_client \<Rightarrow> ((error_code + unit) \<times> 'w tcp_client) option" where
  "TCPClient_connect S timeout c =
    (if tc_fd c \<ge> 0 then Some (Inl (Generic already_connected), c)
     else
       let (rc, res, w) = sys_getaddrinfo S (tc_ip_address c) (tc_port c) Client_hints (tc_sys c);
           c = c\<lparr>tc_sys := w\<rparr>
       in if rc \<noteq> 0 then
            Some (Inl (if rc = EAI_SYSTEM then system_error S w else Gai_code rc), c)
          else do {
            (result, c) \<leftarrow> connect_loop S timeout res (Inl (Generic invalid_argument)) c;
            Some (result, if tc_fd c < 0 then c\<lparr>tc_fd := -1\<rparr> else c)
          })"

definition TCPClient_disconnect :: "'w sys \<Rightarrow> 'w tcp_client \<Rightarrow> 'w tcp_client option" where
  "TCPClient_disconnect S c = do {
     w \<leftarrow> close_retry S (tc_fd c) (tc_sys c);
     Some (c\<lparr>tc_fd := -1, tc_sys := w\<rparr>)
   }"

definition TCPClient_setSendTimeout ::
    "'w sys \<Rightarrow> int \<Rightarrow> 'w tcp_client \<Rightarrow> ((error_code + unit) \<times> 'w tcp_client) option" where
  "TCPClient_setSendTimeout S timeout c =
    (if timeout < 0 then Some (Inl (Generic invalid_argument), c)
     else
       let tv_sec = timeout div 1000000; tv_usec = timeout mod 1000000;
           (r, w) = sys_setsockopt S (tc_fd c) (SO_SNDTIMEO tv_sec tv_usec) (tc_sys c);
           c = c\<lparr>tc_sys := w\<rparr>
       in Some (if r \<noteq> 0 then Inl (system_error S w) else Inr (), c))"

text \<open>\<open>send\<close> returned zero: wait up to 10 ms for the socket to become writable.\<close>

definition wait_writable :: "'w sys \<Rightarrow> int \<Rightarrow> 'w \<Rightarrow> ((error_code + unit) \<times> 'w) option" where
  "wait_writable S fd w = do {
     (prc, revents, w) \<leftarrow> retry_eintr S (\<lambda>r. r < 0) (sys_poll_out S fd 10) w;
     Some (if prc = 0 then Inl (Generic timed_out)
           else if prc < 0 then Inl (system_error S w)
           else if revents AND (POLLERR OR POLLHUP OR POLLNVAL) \<noteq> 0 then Inl (Generic connection_aborted)
           else if revents AND POLLOUT = 0 then Inl (Generic io_error)
           else Inr (), w)
   }"

partial_function (option) client_send_loop ::
    "'w sys \<Rightarrow> int \<Rightarrow> bool \<Rightarrow> bytes \<Rightarrow> 'w \<Rightarrow> ((error_code + unit) \<times> 'w) option" where
  "client_send_loop S fd retried_zero data w =
    (if data = [] then Some (Inr (), w)
     else case sys_send S fd data w of (n, w) \<Rightarrow>
       if n < 0 then
         if sys_errno S w = EINTR then client_send_loop S fd retried_zero data w
         else if sys_errno S w = EAGAIN \<or> sys_errno S w = EWOULDBLOCK then Some (Inl (Generic timed_out), w)
         else Some (Inl (system_error S w), w)
       else if n = 0 then
         if retried_zero then Some (Inl (Generic io_error), w)
         else do {
           (res, w) \<leftarrow> wait_writable S fd w;
           case res of
             Inl e \<Rightarrow> Some (Inl e, w)
           | Inr _ \<Rightarrow> client_send_loop S fd True data w
         }
       else do {
         data \<leftarrow> subspan_from data (nat n);
         client_send_loop S fd retried_zero data w
       })"

definition TCPClient_sendAll ::
    "'w sys \<Rightarrow> bytes \<Rightarrow> 'w tcp_client \<Rightarrow> ((error_code + unit) \<times> 'w tcp_client) option" where
  "TCPClient_sendAll S data c =
    (if tc_fd c < 0 then Some (Inl (Generic not_connected), c)
     else do {
       (res, w) \<leftarrow> client_send_loop S (tc_fd c) False data (tc_sys c);
       Some (res, c\<lparr>tc_sys := w\<rparr>)
     })"

partial_function (option) client_recv_loop ::
    "'w sys \<Rightarrow> int \<Rightarrow> nat \<Rightarrow> 'w \<Rightarrow> ((error_code + bytes) \<times> 'w) option" where
  "client_recv_loop S fd n w = (case sys_recv S fd n w of
       (None, w) \<Rightarrow>
         if sys_errno S w = EINTR then client_recv_loop S fd n w
         else if sys_errno S w = EAGAIN \<or> sys_errno S w = EWOULDBLOCK then Some (Inl (Generic timed_out), w)
         else Some (Inl (system_error S w), w)
     | (Some bs, w) \<Rightarrow> if bs = [] then Some (Inl (Generic io_error), w) else Some (Inr bs, w))"

definition TCPClient_recvSome ::
    "'w sys \<Rightarrow> nat \<Rightarrow> 'w tcp_client \<Rightarrow> ((error_code + bytes) \<times> 'w tcp_client) option" where
  "TCPClient_recvSome S n c =
    (if n = 0 then Some (Inr [], c)
     else do {
       (res, w) \<leftarrow> client_recv_loop S (tc_fd c) n (tc_sys c);
       Some (res, c\<lparr>tc_sys := w\<rparr>)
     })"

definition TCPClient_shutdown ::
    "'w sys \<Rightarrow> 'w tcp_client \<Rightarrow> ((error_code + unit) \<times> 'w tcp_client) option" where
  "TCPClient_shutdown S c =
    (if tc_fd c < 0 then Some (Inl (Generic bad_file_descriptor), c)
     else
       let (r, w) = sys_shutdown S (tc_fd c) (tc_sys c); c = c\<lparr>tc_sys := w\<rparr>
       in Some (if r < 0 then Inl (Generic_errno (sys_errno S w)) else Inr (), c))"

definition TCPClient_destroy :: "'w sys \<Rightarrow> 'w tcp_client \<Rightarrow> 'w tcp_client option" where
  "TCPClient_destroy S c = do { c \<leftarrow> TCPClient_disconnect S c; Some (c\<lparr>tc_fd := -1\<rparr>) }"

definition TCPClient_setIpAddress :: "string \<Rightarrow> 'w tcp_client \<Rightarrow> 'w tcp_client" where
  "TCPClient_setIpAddress ip_address c = c\<lparr>tc_ip_address := ip_address\<rparr>"

definition TCPClient_setPort :: "string \<Rightarrow> 'w tcp_client \<Rightarrow> 'w tcp_client" where
  "TCPClient_setPort port c = c\<lparr>tc_port := port\<rparr>"

definition TCPClient_backend :: "'w sys \<Rightarrow> 'w tcp_client backend" where
  "TCPClient_backend S =
     \<lparr>be_getIpAddress = tc_ip_address, be_setIpAddress = TCPClient_setIpAddress,
      be_getPort = tc_port, be_setPort = TCPClient_setPort,
      be_recvSome = TCPClient_recvSome S, be_sendAll = TCPClient_sendAll S,
      be_setSendTimeout = TCPClient_setSendTimeout S\<rparr>"

end
