(* ===== verification/Tcp_Server.thy ===== *)
theory Tcp_Server
  imports Tcp_Client
begin

unbundle bit_operations_syntax

text \<open>
  \<open>TCPServer\<close> of \<open>src/src/tcp_server.cc\<close>: a listening and a client descriptor, and the
  operations of the backend concept on the latter.
\<close>

section \<open>Definitions\<close>

record 'w tcp_server =
  ts_listen_fd :: int
  ts_client_fd :: int
  ts_bind_address :: string
  ts_port :: string
  ts_sys :: 'w

definition TCPServer :: "'w \<Rightarrow> string \<Rightarrow> string \<Rightarrow> 'w tcp_server" where
  "TCPServer w bind_address port =
     \<lparr>ts_listen_fd = -1, ts_client_fd = -1, ts_bind_address = bind_address, ts_port = port, ts_sys = w\<rparr>"

text \<open>The results of the two \<open>setsockopt\<close> calls are ignored.\<close>

definition set_listening_sockopt :: "'w sys \<Rightarrow> int \<Rightarrow> 'w \<Rightarrow> (error_code + unit) \<times> 'w" where
  "set_listening_sockopt S fd w =
    (let (_, w) = sys_setsockopt S fd SO_REUSEADDR w;
         (_, w) = sys_setsockopt S fd SO_REUSEPORT w
     in set_cloexec S fd w)"

definition server_set_sockopts :: "'w sys \<Rightarrow> int \<Rightarrow> 'w \<Rightarrow> (error_code + unit) \<times> 'w" where
  "server_set_sockopts S fd w =
    (let (r, w) = sys_setsockopt S fd TCP_NODELAY w
     in if r \<noteq> 0 then (Inl (system_error S w), w) else set_cloexec S fd w)"

text \<open>\<open>close_retry_(listen_fd_); listen_fd_ = -1;\<close>\<close>

definition close_listen :: "'w sys \<Rightarrow> 'w tcp_server \<Rightarrow> 'w tcp_server option" where
  "close_listen S s = do {
     w \<leftarrow> close_retry S (ts_listen_fd s) (ts_sys s);
     Some (s\<lparr>ts_listen_fd := -1, ts_sys := w\<rparr>)
   }"

definition close_client :: "'w sys \<Rightarrow> 'w tcp_server \<Rightarrow> 'w tcp_server option" where
  "close_client S s = do {
     w \<leftarrow> close_retry S (ts_client_fd s) (ts_sys s);
     Some (s\<lparr>ts_client_fd := -1, ts_sys := w\<rparr>)
   }"

text \<open>Socket, options, bind and listen for one address.\<close>

definition open_listen ::
    "'w sys \<Rightarrow> addrinfo \<Rightarrow> 'w tcp_server \<Rightarrow> ((error_code + unit) \<times> 'w tcp_server) option" where
  "open_listen S ai s =
    (let (fd, w) = sys_socket S (ai_family ai) (ai_socktype ai) (ai_protocol ai) (ts_sys s);
         s = s\<lparr>ts_listen_fd := fd, ts_sys := w\<rparr>
     in if fd < 0 then Some (Inl (system_error S w), s)
        else
          let (opts, w) = set_listening_sockopt S fd w; s = s\<lparr>ts_sys := w\<rparr>
          in case opts of
               Inl e \<Rightarrow> do { s \<leftarrow> close_listen S s; Some (Inl e, s) }
             | Inr _ \<Rightarrow>
                 let (r, w) = sys_bind S fd (ai_addr ai) w; s = s\<lparr>ts_sys := w\<rparr>
                 in if r \<noteq> 0 then do { s' \<leftarrow> close_listen S s; Some (Inl (system_error S w), s') }
                    else
                      let (r, w) = sys_listen S fd w; s = s\<lparr>ts_sys := w\<rparr>
                      in if r \<noteq> 0 then do { s' \<leftarrow> close_listen S s; Some (Inl (system_error S w), s') }
                         else Some (Inr (), s))"

definition accept_client ::
    "'w sys \<Rightarrow> 'w tcp_server \<Rightarrow> ((error_code + unit) \<times> 'w tcp_server) option" where
  "accept_client S s = do {
     (fd, _, w) \<leftarrow> retry_eintr S (\<lambda>r. r < 0)
       (\<lambda>w. let (r, w) = sys_accept S (ts_listen_fd s) w in (r, (), w)) (ts_sys s);
     let s = s\<lparr>ts_client_fd := fd, ts_sys := w\<rparr>;
     if fd < 0 then do { s' \<leftarrow> close_listen S s; Some (Inl (system_error S w), s') }
     else
       let (opts, w) = server_set_sockopts S fd w; s = s\<lparr>ts_sys := w\<rparr>
       in case opts of
            Inl e \<Rightarrow> do { s \<leftarrow> close_listen S s; s \<leftarrow> close_client S s; Some (Inl e, s) }
          | Inr _ \<Rightarrow> Some (Inr (), s)
   }"

text \<open>The loop over the addresses. It has no \<open>break\<close>: after a client has been accepted it goes on
  with the next address.\<close>

fun accept_loop ::
    "'w sys \<Rightarrow> addrinfo list \<Rightarrow> error_code + unit \<Rightarrow> 'w tcp_server \<Rightarrow>
     ((error_code + unit) \<times> 'w tcp_server) option" where
  "accept_loop S [] result s = Some (result, s)"
| "accept_loop S (ai # ais) result s = do {
     (opened, s) \<leftarrow> open_listen S ai s;
     case opened of
       Inl e \<Rightarrow> accept_loop S ais (Inl e) s
     | Inr _ \<Rightarrow> do {
         (result, s) \<leftarrow> accept_client S s;
         accept_loop S ais result s
       }
   }"

definition TCPServer_accept_once ::
    "'w sys \<Rightarrow> 'w tcp_server \<Rightarrow> ((error_code + unit) \<times> 'w tcp_server) option" where
  "TCPServer_accept_once S s =
    (let (rc, res, w) = sys_getaddrinfo S (ts_bind_address s) (ts_port s) Server_hints (ts_sys s);
         s = s\<lparr>ts_sys := w\<rparr>
     in if rc \<noteq> 0 then Some (Inl (Gai_code rc), s)
        else do {
          (result, s) \<leftarrow> accept_loop S res (Inl (Generic invalid_argument)) s;
          if ts_client_fd s < 0 then Some (result, s\<lparr>ts_client_fd := -1\<rparr>)
          else do { s \<leftarrow> close_listen S s; Some (Inr (), s) }
        })"

definition TCPServer_destroy :: "'w sys \<Rightarrow> 'w tcp_server \<Rightarrow> 'w tcp_server option" where
  "TCPServer_destroy S s = do { s \<leftarrow> close_client S s; close_listen S s }"

definition TCPServer_setSendTimeout ::
    "'w sys \<Rightarrow> int \<Rightarrow> 'w tcp_server \<Rightarrow> ((error_code + unit) \<times> 'w tcp_server) option" where
  "TCPServer_setSendTimeout S timeout s =
    (if timeout < 0 then Some (Inl (Generic invalid_argument), s)
     else
       let tv_sec = timeout div 1000000; tv_usec = timeout mod 1000000;
           (r, w) = sys_setsockopt S (ts_client_fd s) (SO_SNDTIMEO tv_sec tv_usec) (ts_sys s);
           s = s\<lparr>ts_sys := w\<rparr>
       in Some (if r \<noteq> 0 then Inl (system_error S w) else Inr (), s))"

partial_function (option) server_send_loop ::
    "'w sys \<Rightarrow> int \<Rightarrow> bytes \<Rightarrow> 'w \<Rightarrow> ((error_code + unit) \<times> 'w) option" where
  "server_send_loop S fd data w =
    (if data = [] then Some (Inr (), w)
     else case sys_send S fd data w of (n, w) \<Rightarrow>
       if n < 0 then
         if sys_errno S w = EINTR then server_send_loop S fd data w
         else if sys_errno S w = EAGAIN \<or> sys_errno S w = EWOULDBLOCK then Some (Inl (Generic timed_out), w)
         else Some (Inl (system_error S w), w)
       else if n = 0 then server_send_loop S fd data w
       else do {
         data \<leftarrow> subspan_from data (nat n);
         server_send_loop S fd data w
       })"

definition TCPServer_sendAll ::
    "'w sys \<Rightarrow> bytes \<Rightarrow> 'w tcp_server \<Rightarrow> ((error_code + unit) \<times> 'w tcp_server) option" where
  "TCPServer_sendAll S data s = do {
     (res, w) \<leftarrow> server_send_loop S (ts_client_fd s) data (ts_sys s);
     Some (res, s\<lparr>ts_sys := w\<rparr>)
   }"

partial_function (option) server_recv_loop ::
    "'w sys \<Rightarrow> int \<Rightarrow> nat \<Rightarrow> 'w \<Rightarrow> ((error_code + bytes) \<times> 'w) option" where
  "server_recv_loop S fd n w = (case sys_recv S fd n w of
       (None, w) \<Rightarrow>
         if sys_errno S w = EINTR then server_recv_loop S fd n w
         else if sys_errno S w = EAGAIN \<or> sys_errno S w = EWOULDBLOCK then Some (Inl (Generic timed_out), w)
         else Some (Inl (system_error S w), w)
     | (Some bs, w) \<Rightarrow> Some (Inr bs, w))"

definition TCPServer_recvSome ::
    "'w sys \<Rightarrow> nat \<Rightarrow> 'w tcp_server \<Rightarrow> ((error_code + bytes) \<times> 'w tcp_server) option" where
  "TCPServer_recvSome S n s =
    (if n = 0 then Some (Inr [], s)
     else do {
       (res, w) \<leftarrow> server_recv_loop S (ts_client_fd s) n (ts_sys s);
       Some (res, s\<lparr>ts_sys := w\<rparr>)
     })"

definition TCPServer_shutdown ::
    "'w sys \<Rightarrow> 'w tcp_server \<Rightarrow> ((error_code + unit) \<times> 'w tcp_server) option" where
  "TCPServer_shutdown S s =
    (if ts_client_fd s < 0 then Some (Inl (Generic bad_file_descriptor), s)
     else
       let (r, w) = sys_shutdown S (ts_client_fd s) (ts_sys s); s = s\<lparr>ts_sys := w\<rparr>
       in Some (if r < 0 then Inl (Generic_errno (sys_errno S w)) else Inr (), s))"

definition TCPServer_setIpAddress :: "string \<Rightarrow> 'w tcp_server \<Rightarrow> 'w tcp_server" where
  "TCPServer_setIpAddress ip_address s = s\<lparr>ts_bind_address := ip_address\<rparr>"

definition TCPServer_setPort :: "string \<Rightarrow> 'w tcp_server \<Rightarrow> 'w tcp_server" where
  "TCPServer_setPort port s = s\<lparr>ts_port := port\<rparr>"

definition TCPServer_backend :: "'w sys \<Rightarrow> 'w tcp_server backend" where
  "TCPServer_backend S =
     \<lparr>be_getIpAddress = ts_bind_address, be_setIpAddress = TCPServer_setIpAddress,
      be_getPort = ts_port, be_setPort = TCPServer_setPort,
      be_recvSome = TCPServer_recvSome S, be_sendAll = TCPServer_sendAll S,
      be_setSendTimeout = TCPServer_setSendTimeout S\<rparr>"

end
