(* ===== verification/Tcp_Node.thy ===== *)
theory Tcp_Node
  imports Node_Poll Tcp_Client Tcp_Server
begin

text \<open>
  \<open>SpwRmapTCPClient\<close> and \<open>SpwRmapTCPServer\<close> of \<open>include/spw_rmap/spw_rmap_tcp_node.hh\<close>:
  the node over each of the two backends, with connecting, accepting and shutting down.
  \<open>getBackend_()-> ...\<close> on an empty pointer is undefined.
\<close>

section \<open>Definitions\<close>

text \<open>Calling a method of \<open>*tcp_backend_\<close>.\<close>

definition on_backend ::
    "('b \<Rightarrow> ('a \<times> 'b) option) \<Rightarrow> ('b, 'u) node \<Rightarrow> ('a \<times> ('b, 'u) node) option" where
  "on_backend f nd = do {
     b \<leftarrow> nd_tcp_backend nd;
     (x, b) \<leftarrow> f b;
     Some (x, nd\<lparr>nd_tcp_backend := Some b\<rparr>)
   }"

definition client_disconnect :: "'w sys \<Rightarrow> ('w tcp_client, 'u) node \<Rightarrow> ('w tcp_client, 'u) node option" where
  "client_disconnect S nd = do {
     (_, nd) \<leftarrow> on_backend (\<lambda>c. do { c \<leftarrow> TCPClient_disconnect S c; Some ((), c) }) nd;
     Some nd
   }"

definition SpwRmapTCPClient_connect ::
    "'w sys \<Rightarrow> int \<Rightarrow> ('w tcp_client, 'u) node \<Rightarrow>
     ((error_code + unit) \<times> ('w tcp_client, 'u) node) option" where
  "SpwRmapTCPClient_connect S connect_timeout nd = do {
     (res, nd) \<leftarrow> on_backend (TCPClient_connect S connect_timeout) nd;
     let nd = nd\<lparr>nd_shutdowned := False\<rparr>;
     case res of
       Inl e \<Rightarrow> do { nd \<leftarrow> client_disconnect S nd; Some (Inl e, nd) }
     | Inr _ \<Rightarrow> do {
         (res, nd) \<leftarrow> on_backend (TCPClient_setSendTimeout S (nd_send_timeout nd)) nd;
         case res of
           Inl e \<Rightarrow> do { nd \<leftarrow> client_disconnect S nd; Some (Inl e, nd) }
         | Inr _ \<Rightarrow> Some (Inr (), nd)
       }
   }"

definition SpwRmapTCPClient_setSendTimeout ::
    "'w sys \<Rightarrow> int \<Rightarrow> ('w tcp_client, 'u) node \<Rightarrow>
     ((error_code + unit) \<times> ('w tcp_client, 'u) node) option" where
  "SpwRmapTCPClient_setSendTimeout S timeout nd =
     setSendTimeoutInternal (TCPClient_backend S) timeout nd"

text \<open>
  \<open>getBackend_() = nullptr\<close> destroys the client, whose destructor closes the descriptor; the
  state of the operating system behind the closed connection is then no longer reachable from the
  node.
\<close>

definition SpwRmapTCPClient_shutdown ::
    "'w sys \<Rightarrow> ('w tcp_client, 'u) node \<Rightarrow>
     ((error_code + unit) \<times> ('w tcp_client, 'u) node) option" where
  "SpwRmapTCPClient_shutdown S nd =
    (if nd_tcp_backend nd = None then Some (Inr (), nd)
     else do {
       (res, nd) \<leftarrow> on_backend (TCPClient_shutdown S) nd;
       let nd = nd\<lparr>nd_shutdowned := True\<rparr>;
       case res of
         Inl e \<Rightarrow> Some (Inl e, nd)
       | Inr _ \<Rightarrow> do {
           nd \<leftarrow> client_disconnect S nd;
           Some (Inr (), nd\<lparr>nd_tcp_backend := None\<rparr>)
         }
     })"

definition SpwRmapTCPClient_methods :: "'w sys \<Rightarrow> ('w tcp_client, 'u) node_methods" where
  "SpwRmapTCPClient_methods S =
     \<lparr>nm_shutdown = SpwRmapTCPClient_shutdown S, nm_isShutdowned = nd_shutdowned\<rparr>"

definition SpwRmapTCPServer_acceptOnce ::
    "'w sys \<Rightarrow> ('w tcp_server, 'u) node \<Rightarrow>
     ((error_code + unit) \<times> ('w tcp_server, 'u) node) option" where
  "SpwRmapTCPServer_acceptOnce S nd = do {
     (res, nd) \<leftarrow> on_backend (TCPServer_accept_once S) nd;
     case res of
       Inl e \<Rightarrow> Some (Inl e, nd)
     | Inr _ \<Rightarrow> do {
         (res, nd) \<leftarrow> on_backend (TCPServer_setSendTimeout S (nd_send_timeout nd)) nd;
         case res of
           Inl e \<Rightarrow> do {
             (res, nd) \<leftarrow> on_backend (TCPServer_shutdown S) nd;
             case res of
               Inl e' \<Rightarrow> Some (Inl e', nd)
             | Inr _ \<Rightarrow> Some (Inl e, nd)
           }
         | Inr _ \<Rightarrow> Some (Inr (), nd\<lparr>nd_shutdowned := False\<rparr>)
       }
   }"

definition SpwRmapTCPServer_setSendTimeout ::
    "'w sys \<Rightarrow> int \<Rightarrow> ('w tcp_server, 'u) node \<Rightarrow>
     ((error_code + unit) \<times> ('w tcp_server, 'u) node) option" where
  "SpwRmapTCPServer_setSendTimeout S timeout nd =
     setSendTimeoutInternal (TCPServer_backend S) timeout nd"

definition SpwRmapTCPServer_shutdown ::
    "'w sys \<Rightarrow> ('w tcp_server, 'u) node \<Rightarrow>
     ((error_code + unit) \<times> ('w tcp_server, 'u) node) option" where
  "SpwRmapTCPServer_shutdown S nd =
    (if nd_tcp_backend nd = None then Some (Inr (), nd)
     else do {
       (res, nd) \<leftarrow> on_backend (TCPServer_shutdown S) nd;
       Some (res, nd\<lparr>nd_shutdowned := True\<rparr>)
     })"

definition SpwRmapTCPServer_methods :: "'w sys \<Rightarrow> ('w tcp_server, 'u) node_methods" where
  "SpwRmapTCPServer_methods S =
     \<lparr>nm_shutdown = SpwRmapTCPServer_shutdown S, nm_isShutdowned = nd_shutdowned\<rparr>"

section \<open>The derived classes keep the contract\<close>

lemma on_backend_table: "on_backend f nd = Some (x, nd') \<Longrightarrow> table nd' = table nd"
  by (auto simp: on_backend_def elim!: bind_SomeE)

lemma client_disconnect_table: "client_disconnect S nd = Some nd' \<Longrightarrow> table nd' = table nd"
  by (auto simp: client_disconnect_def elim!: bind_SomeE dest: on_backend_table)

interpretation client_node: node_derived "SpwRmapTCPClient_methods S" for S
  by unfold_locales
    (auto simp: SpwRmapTCPClient_methods_def SpwRmapTCPClient_shutdown_def Let_def
      elim!: bind_SomeE dest!: on_backend_table client_disconnect_table split: if_split_asm sum.split_asm)

interpretation server_node: node_derived "SpwRmapTCPServer_methods S" for S
  by unfold_locales
    (auto simp: SpwRmapTCPServer_methods_def SpwRmapTCPServer_shutdown_def Let_def
      elim!: bind_SomeE dest!: on_backend_table split: if_split_asm)

end
