(* ===== verification/Posix_Backends.thy ===== *)
theory Posix_Backends
  imports Tcp_Node
begin

text \<open>
  The two backends keep the contract that the node relies on, over every operating system that
  behaves as documented, and a concrete operating system that does: one connection whose two
  directions are byte queues and which moves a bounded number of bytes per call.
\<close>

section \<open>Receiving\<close>

lemma client_recv_loop_result:
  assumes "client_recv_loop S fd n w = Some (Inr bs, w')"
  shows "bs \<noteq> [] \<and> (\<exists>w0. sys_recv S fd n w0 = (Some bs, w'))"
proof -
  let ?P = "\<lambda>(S :: 'a sys) fd n (w :: 'a) (y :: (error_code + bytes) \<times> 'a). \<forall>bs w'. y = (Inr bs, w') \<longrightarrow>
     bs \<noteq> [] \<and> (\<exists>w0. sys_recv S fd n w0 = (Some bs, w'))"
  have "?P S fd n w (Inr bs, w')"
  proof (rule client_recv_loop.raw_induct [where P = ?P, OF _ assms], intro allI impI)
    fix loop and S :: "'a sys" and fd n and w :: 'a and y bs w'
    assume IH: "\<And>S fd n w y. loop S fd n w = Some y \<Longrightarrow> ?P S fd n w y"
      and step: "(case sys_recv S fd n w of
         (None, w) \<Rightarrow>
           if sys_errno S w = EINTR then loop S fd n w
           else if sys_errno S w = EAGAIN \<or> sys_errno S w = EWOULDBLOCK then Some (Inl (Generic timed_out), w)
           else Some (Inl (system_error S w), w)
       | (Some bs, w) \<Rightarrow> if bs = [] then Some (Inl (Generic io_error), w) else Some (Inr bs, w)) = Some y"
      and y: "y = (Inr bs, w')"
    from step y show "bs \<noteq> [] \<and> (\<exists>w0. sys_recv S fd n w0 = (Some bs, w'))"
      by (auto split: option.split_asm prod.split_asm if_split_asm dest!: IH)
  qed
  then show ?thesis by simp
qed

lemma server_recv_loop_result:
  assumes "server_recv_loop S fd n w = Some (Inr bs, w')"
  shows "\<exists>w0. sys_recv S fd n w0 = (Some bs, w')"
proof -
  let ?P = "\<lambda>(S :: 'a sys) fd n (w :: 'a) (y :: (error_code + bytes) \<times> 'a). \<forall>bs w'. y = (Inr bs, w') \<longrightarrow>
     (\<exists>w0. sys_recv S fd n w0 = (Some bs, w'))"
  have "?P S fd n w (Inr bs, w')"
  proof (rule server_recv_loop.raw_induct [where P = ?P, OF _ assms], intro allI impI)
    fix loop and S :: "'a sys" and fd n and w :: 'a and y bs w'
    assume IH: "\<And>S fd n w y. loop S fd n w = Some y \<Longrightarrow> ?P S fd n w y"
      and step: "(case sys_recv S fd n w of
         (None, w) \<Rightarrow>
           if sys_errno S w = EINTR then loop S fd n w
           else if sys_errno S w = EAGAIN \<or> sys_errno S w = EWOULDBLOCK then Some (Inl (Generic timed_out), w)
           else Some (Inl (system_error S w), w)
       | (Some bs, w) \<Rightarrow> Some (Inr bs, w)) = Some y"
      and y: "y = (Inr bs, w')"
    from step y show "\<exists>w0. sys_recv S fd n w0 = (Some bs, w')"
      by (auto split: option.split_asm prod.split_asm if_split_asm dest!: IH)
  qed
  then show ?thesis by simp
qed

sublocale posix \<subseteq> client: tcp_backend "TCPClient_backend S"
  by unfold_locales
    (auto simp: TCPClient_backend_def TCPClient_recvSome_def elim!: bind_SomeE
      dest!: client_recv_loop_result recv_le split: if_split_asm)

sublocale posix \<subseteq> server: tcp_backend "TCPServer_backend S"
  by unfold_locales
    (auto simp: TCPServer_backend_def TCPServer_recvSome_def elim!: bind_SomeE
      dest!: server_recv_loop_result recv_le split: if_split_asm)

section \<open>Streams\<close>

context posix_stream
begin

lemma client_send_stream:
  assumes "conn fd w"
  shows "\<exists>w'. client_send_loop S fd z data w = Some (Inr (), w') \<and> outq fd w' = outq fd w @ data \<and>
     conn fd w' \<and> inq fd w' = inq fd w"
  using assms
proof (induction "length data" arbitrary: data w rule: less_induct)
  case less
  show ?case
  proof (cases "data = []")
    case True
    with less.prems show ?thesis by (simp add: client_send_loop.simps)
  next
    case False
    with send_some [OF less.prems] obtain k w1 where s: "sys_send S fd data w = (int k, w1)" "0 < k"
      "outq fd w1 = outq fd w @ take k data" "conn fd w1" "inq fd w1 = inq fd w" by blast
    have k: "k \<le> length data" using send_le [OF s(1)] by simp
    have "length (drop k data) < length data" using s(2) False by simp
    from less.hyps [OF this s(4)] show ?thesis
      using s k False by (subst client_send_loop.simps) auto
  qed
qed

lemma server_send_stream:
  assumes "conn fd w"
  shows "\<exists>w'. server_send_loop S fd data w = Some (Inr (), w') \<and> outq fd w' = outq fd w @ data \<and>
     conn fd w' \<and> inq fd w' = inq fd w"
  using assms
proof (induction "length data" arbitrary: data w rule: less_induct)
  case less
  show ?case
  proof (cases "data = []")
    case True
    with less.prems show ?thesis by (simp add: server_send_loop.simps)
  next
    case False
    with send_some [OF less.prems] obtain k w1 where s: "sys_send S fd data w = (int k, w1)" "0 < k"
      "outq fd w1 = outq fd w @ take k data" "conn fd w1" "inq fd w1 = inq fd w" by blast
    have k: "k \<le> length data" using send_le [OF s(1)] by simp
    have "length (drop k data) < length data" using s(2) False by simp
    from less.hyps [OF this s(4)] show ?thesis
      using s k False by (subst server_send_loop.simps) auto
  qed
qed

lemma client_recv_stream:
  assumes "conn fd w" "0 < n" "inq fd w \<noteq> []"
  shows "\<exists>bs w'. client_recv_loop S fd n w = Some (Inr bs, w') \<and> bs \<noteq> [] \<and>
     inq fd w = bs @ inq fd w' \<and> conn fd w' \<and> outq fd w' = outq fd w"
  using recv_some [OF assms] by (subst client_recv_loop.simps) auto

lemma server_recv_stream:
  assumes "conn fd w" "0 < n" "inq fd w \<noteq> []"
  shows "\<exists>bs w'. server_recv_loop S fd n w = Some (Inr bs, w') \<and> bs \<noteq> [] \<and>
     inq fd w = bs @ inq fd w' \<and> conn fd w' \<and> outq fd w' = outq fd w"
  using recv_some [OF assms] by (subst server_recv_loop.simps) auto

end

sublocale posix_stream \<subseteq> client: tcp_stream "TCPClient_backend S"
  "\<lambda>c. conn (tc_fd c) (tc_sys c)" "\<lambda>c. inq (tc_fd c) (tc_sys c)" "\<lambda>c. outq (tc_fd c) (tc_sys c)"
proof unfold_locales
  fix b :: "'w tcp_client" and n
  assume "conn (tc_fd b) (tc_sys b)" "0 < (n :: nat)" "inq (tc_fd b) (tc_sys b) \<noteq> []"
  from client_recv_stream [OF this] this(2) show "\<exists>bs b'. be_recvSome (TCPClient_backend S) n b = Some (Inr bs, b') \<and> bs \<noteq> [] \<and>
      inq (tc_fd b) (tc_sys b) = bs @ inq (tc_fd b') (tc_sys b') \<and> conn (tc_fd b') (tc_sys b') \<and>
      outq (tc_fd b') (tc_sys b') = outq (tc_fd b) (tc_sys b)"
    by (force simp: TCPClient_backend_def TCPClient_recvSome_def)
next
  fix b :: "'w tcp_client" and data
  assume c: "conn (tc_fd b) (tc_sys b)"
  from client_send_stream [OF c, of False data] conn_fd [OF c]
  show "\<exists>b'. be_sendAll (TCPClient_backend S) data b = Some (Inr (), b') \<and>
      outq (tc_fd b') (tc_sys b') = outq (tc_fd b) (tc_sys b) @ data \<and> conn (tc_fd b') (tc_sys b') \<and>
      inq (tc_fd b') (tc_sys b') = inq (tc_fd b) (tc_sys b)"
    by (force simp: TCPClient_backend_def TCPClient_sendAll_def)
qed

sublocale posix_stream \<subseteq> server: tcp_stream "TCPServer_backend S"
  "\<lambda>s. conn (ts_client_fd s) (ts_sys s)" "\<lambda>s. inq (ts_client_fd s) (ts_sys s)"
  "\<lambda>s. outq (ts_client_fd s) (ts_sys s)"
proof unfold_locales
  fix b :: "'w tcp_server" and n
  assume "conn (ts_client_fd b) (ts_sys b)" "0 < (n :: nat)" "inq (ts_client_fd b) (ts_sys b) \<noteq> []"
  from server_recv_stream [OF this] this(2) show "\<exists>bs b'. be_recvSome (TCPServer_backend S) n b = Some (Inr bs, b') \<and> bs \<noteq> [] \<and>
      inq (ts_client_fd b) (ts_sys b) = bs @ inq (ts_client_fd b') (ts_sys b') \<and>
      conn (ts_client_fd b') (ts_sys b') \<and>
      outq (ts_client_fd b') (ts_sys b') = outq (ts_client_fd b) (ts_sys b)"
    by (force simp: TCPServer_backend_def TCPServer_recvSome_def)
next
  fix b :: "'w tcp_server" and data
  assume c: "conn (ts_client_fd b) (ts_sys b)"
  from server_send_stream [OF c, of data]
  show "\<exists>b'. be_sendAll (TCPServer_backend S) data b = Some (Inr (), b') \<and>
      outq (ts_client_fd b') (ts_sys b') = outq (ts_client_fd b) (ts_sys b) @ data \<and>
      conn (ts_client_fd b') (ts_sys b') \<and>
      inq (ts_client_fd b') (ts_sys b') = inq (ts_client_fd b) (ts_sys b)"
    by (force simp: TCPServer_backend_def TCPServer_sendAll_def)
qed

text \<open>The server passes the end of the stream on to the node; the client makes an error of it.\<close>

sublocale posix_stream_eof \<subseteq> server_eof: tcp_stream_eof "TCPServer_backend S"
  "\<lambda>s. conn (ts_client_fd s) (ts_sys s)" "\<lambda>s. inq (ts_client_fd s) (ts_sys s)"
  "\<lambda>s. outq (ts_client_fd s) (ts_sys s)"
  by unfold_locales
    (simp add: TCPServer_backend_def TCPServer_recvSome_def server_recv_loop.simps recv_end)

section \<open>A concrete operating system\<close>

record pipe =
  pp_in :: bytes
  pp_out :: bytes
  pp_step :: nat
  pp_open :: "int list"

text \<open>A new descriptor is one above all open ones, the first is 3.\<close>

definition new_fd :: "'a pipe_scheme \<Rightarrow> int \<times> 'a pipe_scheme" where
  "new_fd w = (let fd = foldr max (pp_open w) 2 + 1 in (fd, w\<lparr>pp_open := fd # pp_open w\<rparr>))"

text \<open>Descriptor 3 is the connection; at most \<open>pp_step + 1\<close> bytes move per call. Nothing else fails,
  and nothing to receive is the end of the stream.\<close>

definition pipe_sys :: "'a pipe_scheme sys" where
  "pipe_sys = \<lparr>
     sys_errno = (\<lambda>w. EAGAIN),
     sys_close = (\<lambda>fd w. (0, w\<lparr>pp_open := filter (\<lambda>x. x \<noteq> fd) (pp_open w)\<rparr>)),
     sys_getfl = (\<lambda>fd w. (0, w)),
     sys_setfl = (\<lambda>fd fl w. (0, w)),
     sys_getfd = (\<lambda>fd w. (0, w)),
     sys_setfd = (\<lambda>fd fl w. (0, w)),
     sys_setsockopt = (\<lambda>fd opt w. (0, w)),
     sys_get_so_error = (\<lambda>fd w. (0, 0, w)),
     sys_getaddrinfo = (\<lambda>host port hints w.
       (0, [\<lparr>ai_family = 2, ai_socktype = 1, ai_protocol = 6, ai_addr = []\<rparr>], w)),
     sys_socket = (\<lambda>family type protocol w. new_fd w),
     sys_connect = (\<lambda>fd addr w. (0, w)),
     sys_poll_out = (\<lambda>fd ms w. (1, POLLOUT, w)),
     sys_bind = (\<lambda>fd addr w. (0, w)),
     sys_listen = (\<lambda>fd w. (0, w)),
     sys_accept = (\<lambda>fd w. new_fd w),
     sys_send = (\<lambda>fd data w. let n = min (length data) (Suc (pp_step w))
       in (int n, w\<lparr>pp_out := pp_out w @ take n data\<rparr>)),
     sys_recv = (\<lambda>fd n w. if pp_in w = [] then (Some [], w)
       else let k = min n (Suc (pp_step w)) in (Some (take k (pp_in w)), w\<lparr>pp_in := drop k (pp_in w)\<rparr>)),
     sys_shutdown = (\<lambda>fd w. (0, w))\<rparr>"

interpretation pipe: posix_stream_eof pipe_sys "\<lambda>fd w. fd = 3" "\<lambda>fd w. pp_in w" "\<lambda>fd w. pp_out w"
  by unfold_locales (auto simp: pipe_sys_def Let_def split: if_split_asm)

lemma foldr_max_ge: "x \<in> set xs \<Longrightarrow> x \<le> foldr max xs (b :: int)"
  by (induction xs) (auto simp: le_max_iff_disj)

lemma foldr_max_base: "b \<le> foldr max xs (b :: int)"
  by (induction xs) (auto simp: le_max_iff_disj)

lemma new_fd_fresh: "new_fd w = (fd, w') \<Longrightarrow> 0 \<le> fd \<and> fd \<notin> set (pp_open w) \<and> set (pp_open w') = insert fd (set (pp_open w))"
  using foldr_max_base [of 2 "pp_open w"] by (auto simp: new_fd_def Let_def dest: foldr_max_ge [where b = 2])

interpretation pipe_fds: posix_fds pipe_sys "\<lambda>w. set (pp_open w)"
  by unfold_locales (auto simp: pipe_sys_def Let_def dest: new_fd_fresh split: if_split_asm)

section \<open>Signals\<close>

text \<open>
  An operating system that interrupts: the next \<open>sg_left\<close> calls that a signal can interrupt fail with \<open>EINTR\<close>, then it behaves
  as \<open>S\<close> does.
\<close>

record 'w signalled =
  sg_sys :: 'w
  sg_left :: nat
  sg_interrupted :: bool

definition undisturbed :: "('w \<Rightarrow> 'r \<times> 'w) \<Rightarrow> 'w signalled \<Rightarrow> 'r \<times> 'w signalled" where
  "undisturbed call v = (let (r, w) = call (sg_sys v) in (r, v\<lparr>sg_sys := w, sg_interrupted := False\<rparr>))"

definition interruptible :: "'r \<Rightarrow> ('w \<Rightarrow> 'r \<times> 'w) \<Rightarrow> 'w signalled \<Rightarrow> 'r \<times> 'w signalled" where
  "interruptible failure call v = (case sg_left v of
       0 \<Rightarrow> undisturbed call v
     | Suc k \<Rightarrow> (failure, v\<lparr>sg_left := k, sg_interrupted := True\<rparr>))"

definition flat :: "('r \<times> 'e) \<times> 'w \<Rightarrow> 'r \<times> 'e \<times> 'w" where
  "flat x = (case x of ((r, e), w) \<Rightarrow> (r, e, w))"

definition unflat :: "'r \<times> 'e \<times> 'w \<Rightarrow> ('r \<times> 'e) \<times> 'w" where
  "unflat x = (case x of (r, e, w) \<Rightarrow> ((r, e), w))"

definition signal_sys :: "'w sys \<Rightarrow> 'w signalled sys" where
  "signal_sys S = \<lparr>
     sys_errno = (\<lambda>v. if sg_interrupted v then EINTR else sys_errno S (sg_sys v)),
     sys_close = (\<lambda>fd. interruptible (-1) (sys_close S fd)),
     sys_getfl = (\<lambda>fd. undisturbed (sys_getfl S fd)),
     sys_setfl = (\<lambda>fd fl. undisturbed (sys_setfl S fd fl)),
     sys_getfd = (\<lambda>fd. undisturbed (sys_getfd S fd)),
     sys_setfd = (\<lambda>fd fl. undisturbed (sys_setfd S fd fl)),
     sys_setsockopt = (\<lambda>fd opt. undisturbed (sys_setsockopt S fd opt)),
     sys_get_so_error = (\<lambda>fd v. flat (undisturbed (\<lambda>w. unflat (sys_get_so_error S fd w)) v)),
     sys_getaddrinfo = (\<lambda>host port hints v. flat (undisturbed (\<lambda>w. unflat (sys_getaddrinfo S host port hints w)) v)),
     sys_socket = (\<lambda>family type protocol. undisturbed (sys_socket S family type protocol)),
     sys_connect = (\<lambda>fd addr. interruptible (-1) (sys_connect S fd addr)),
     sys_poll_out = (\<lambda>fd ms v. flat (interruptible (-1, 0) (\<lambda>w. unflat (sys_poll_out S fd ms w)) v)),
     sys_bind = (\<lambda>fd addr. undisturbed (sys_bind S fd addr)),
     sys_listen = (\<lambda>fd. undisturbed (sys_listen S fd)),
     sys_accept = (\<lambda>fd. interruptible (-1) (sys_accept S fd)),
     sys_send = (\<lambda>fd data. interruptible (-1) (sys_send S fd data)),
     sys_recv = (\<lambda>fd n. interruptible None (sys_recv S fd n)),
     sys_shutdown = (\<lambda>fd. undisturbed (sys_shutdown S fd))\<rparr>"

lemma pipe_no_eintr: "sys_errno pipe_sys w \<noteq> EINTR"
  by (simp add: pipe_sys_def posix_consts)

lemma interrupted_less:
  assumes "\<And>w. sys_errno S w \<noteq> EINTR" "interruptible failure call v = (r, v')"
    "sys_errno (signal_sys S) v' = EINTR"
  shows "sg_left v' < sg_left v"
  using assms by (auto simp: interruptible_def undisturbed_def signal_sys_def split: nat.split_asm prod.split_asm if_split_asm)

lemma flat_eq: "flat x = (r, e, w) \<longleftrightarrow> x = ((r, e), w)"
  by (auto simp: flat_def split: prod.split)

interpretation pipe_signals: posix_signals "signal_sys pipe_sys" sg_left
proof
  fix fd n v bs v' assume "sys_recv (signal_sys pipe_sys) fd n v = (Some bs, v')"
  then show "length bs \<le> n"
    using pipe.recv_le by (auto simp: signal_sys_def interruptible_def undisturbed_def split: nat.split_asm prod.split_asm)
next
  fix fd data v r v' assume "sys_send (signal_sys pipe_sys) fd data v = (r, v')"
  then show "r \<le> int (length data)"
    using pipe.send_le by (auto simp: signal_sys_def interruptible_def undisturbed_def split: nat.split_asm prod.split_asm)
qed (rule interrupted_less [OF pipe_no_eintr]; simp add: signal_sys_def flat_eq)+

end
