(* ===== verification/Node_Exchange.thy ===== *)
theory Node_Exchange
  imports Posix_Backends
begin

unbundle bit_operations_syntax

text \<open>
  What two nodes do to each other over a connection: what \<open>poll\<close> does with one packet that
  arrives, what starting an operation puts on the wire, and the step relation of a node with the
  invariant of its reachable states. The lemmas are proved in the locales of the backend and of
  the packet codecs; the theorems instantiate them for the four codecs and both derived classes.
\<close>

section \<open>Replies\<close>

text \<open>Room to send \<open>n\<close> bytes of packet behind the frame header.\<close>

definition send_room :: "('b, 'u) node \<Rightarrow> nat \<Rightarrow> bool" where
  "send_room nd n \<longleftrightarrow> n \<le> INT_MAX \<and> (nd_buffer_policy nd = Fixed \<longrightarrow> n + 12 \<le> length (nd_send_buf nd))"

context packet_codec
begin

lemma send_reply_eq:
  assumes "admissible c" "send_room nd (getTotalSize c)" "nd_tcp_backend nd = Some b"
  shows "send_reply B getTotalSize build c nd = do {
     (res, nd') \<leftarrow> send_frame B (encode c) b nd;
     Some (case res of Inl e \<Rightarrow> Inl e | Inr _ \<Rightarrow> Inr True, nd')
   }"
proof -
  define n where "n = getTotalSize c"
  define buf where "buf = take (n + 12) (nd_send_buf nd) @ replicate (n + 12 - length (nd_send_buf nd)) 0 @
    drop (n + 12) (nd_send_buf nd)"
  have n: "getTotalSize c \<le> INT_MAX" "n \<le> INT_MAX" using assms(2) by (simp_all add: send_room_def n_def)
  have res: "reserve_send (n + 12) nd = Some (Inr (), nd\<lparr>nd_send_buf := buf\<rparr>)"
    using assms(2) n by (auto simp: reserve_send_def buf_def send_room_def n_def INT_MAX_def VECTOR_MAX_SIZE_def)
  have len: "n + 12 \<le> length buf" "drop (n + 12) buf = drop (n + 12) (nd_send_buf nd)"
    by (auto simp: buf_def)
  have le: "n + 12 \<le> length (nd_send_buf (nd\<lparr>nd_send_buf := buf\<rparr>))"
    "nd_tcp_backend (nd\<lparr>nd_send_buf := buf\<rparr>) = Some b" using len assms(3) by simp_all
  note bs = build_send [OF assms(1) n(1), where nd = "nd\<lparr>nd_send_buf := buf\<rparr>" and b = b, folded n_def, OF le]
  show ?thesis
    unfolding send_reply_def n_def [symmetric] res
    using bs by (cases "be_sendAll B (frame 0 (encode c)) b")
      (auto simp: len send_frame_def length_encode n_def [symmetric] split: sum.splits)
qed

end

section \<open>Operations over a connection\<close>

definition answered :: "('b, 'u) node \<Rightarrow> ('b, 'u) node \<Rightarrow> 'u \<Rightarrow> bool" where
  "answered nd nd' user \<longleftrightarrow> core nd' = core (nd\<lparr>nd_user := user\<rparr>) \<and>
     (nd_buffer_policy nd = Fixed \<longrightarrow> length (nd_recv_buf nd') = length (nd_recv_buf nd)) \<and>
     length (nd_send_buf nd) \<le> length (nd_send_buf nd')"

lemma answered_fields:
  assumes "answered nd nd' user"
  shows "nd_user nd' = user" "table nd' = table nd" "nd_buffer_policy nd' = nd_buffer_policy nd"
    "nd_on_write nd' = nd_on_write nd" "nd_on_read nd' = nd_on_read nd" "nd_running nd' = nd_running nd"
    "nd_shutdowned nd' = nd_shutdowned nd"
  using assms core_fields [of nd' "nd\<lparr>nd_user := user\<rparr>"] table_core [of nd' "nd\<lparr>nd_user := user\<rparr>"]
  by (simp_all add: answered_def)

lemma core_settle: "core (settle i p v nd) = settle i p v (core nd)"
  by (simp add: core_def settle_def drop_transaction_def)

context tcp_stream
begin

lemma send_frame_stream:
  assumes "live b"
  shows "\<exists>b' buf. send_frame B p b nd = Some (Inr (), nd\<lparr>nd_send_buf := buf, nd_tcp_backend := Some b'\<rparr>) \<and>
     sent b' = sent b @ frame 0 p \<and> pending b' = pending b \<and> live b' \<and>
     length (nd_send_buf nd) \<le> length buf"
proof -
  from send_all [OF assms, of "frame 0 p"] obtain b' where
    "be_sendAll B (frame 0 p) b = Some (Inr (), b')" "sent b' = sent b @ frame 0 p" "live b'"
    "pending b' = pending b" by blast
  then show ?thesis
    by (intro exI [of _ b'] exI [of _ "frame 0 p @ drop (length p + 12) (nd_send_buf nd)"])
      (simp add: send_frame_def frame_def)
qed

lemma recv_one_frame:
  assumes "nd_tcp_backend nd = Some b" "live b" "pending b = frame 0 p @ rest" "p \<noteq> []"
    and "recv_room (nd_buffer_policy nd) (length (nd_recv_buf nd)) (length p)"
    and "parse (nd_packet nd) p = Some (st, pk)"
  shows "\<exists>b' buf. recvAndParseOnePacket B nd =
      Some (if st = Success then Inr (length p) else Inl (make_error_code st),
        nd\<lparr>nd_tcp_backend := Some b', nd_recv_buf := buf, nd_packet := pk\<rparr>) \<and>
    pending b' = rest \<and> live b' \<and> sent b' = sent b \<and>
    (nd_buffer_policy nd = Fixed \<longrightarrow> length buf = length (nd_recv_buf nd))"
proof -
  from recv_packet_loop_stream [OF assms(1,2), of "[]" p rest "[]" st pk] assms obtain b' buf where
    "recv_packet_loop B 0 0 nd = Some (if st = Success then Inr (length p) else Inl (make_error_code st),
        nd\<lparr>nd_tcp_backend := Some b', nd_recv_buf := buf, nd_packet := pk\<rparr>)"
    "pending b' = rest" "live b'" "sent b' = sent b"
    "nd_buffer_policy nd = Fixed \<longrightarrow> length buf = length (nd_recv_buf nd)" by auto
  with assms(1) show ?thesis
    by (intro exI [of _ b'] exI [of _ buf]) (simp add: recvAndParseOnePacket_def)
qed

text \<open>One packet that arrives and parses is one call of its handler.\<close>

lemma poll_frame:
  assumes "nd_tcp_backend nd = Some b" "live b" "pending b = frame 0 p @ rest" "p \<noteq> []"
    and "recv_room (nd_buffer_policy nd) (length (nd_recv_buf nd)) (length p)"
    and "parse (nd_packet nd) p = Some (Success, pk)"
  obtains b' buf where "poll B this nd =
      handle_packet B (nd\<lparr>nd_tcp_backend := Some b', nd_recv_buf := buf, nd_packet := pk\<rparr>)"
    "pending b' = rest" "live b'" "sent b' = sent b"
    "nd_buffer_policy nd = Fixed \<longrightarrow> length buf = length (nd_recv_buf nd)"
  using recv_one_frame [OF assms(1-6)] assms(4) by (auto simp: poll_def)

lemma poll_reply:
  assumes "nd_tcp_backend nd = Some b" "live b" "pending b = frame 0 p @ rest" "p \<noteq> []"
    and "recv_room (nd_buffer_policy nd) (length (nd_recv_buf nd)) (length p)"
    and "parse (nd_packet nd) p = Some (Success, pk)"
    and "pk_type pk = PT_ReadReply \<or> pk_type pk = PT_WriteReply"
    and inv: "node_inv nd" and i: "i < id_count nd" and rc: "nd_reply_callback nd ! i = Some rc"
    and tid: "pk_transactionID pk = slot_id nd i"
    and cb: "rc_on_complete rc pk (nd_user nd) = Some (out, user)"
  shows "\<exists>b' nd'. poll B this nd = Some (Inr True, nd') \<and> nd_tcp_backend nd' = Some b' \<and>
     pending b' = rest \<and> live b' \<and> sent b' = sent b \<and> node_inv nd' \<and> nd_user nd' = user \<and>
     nd_promises nd' = (nd_promises nd)[rc_promise rc := Some (reply_value out)] \<and>
     nd_available nd' = (nd_available nd)[i := True] \<and> nd_send_buf nd' = nd_send_buf nd \<and>
     core nd' = core ((settle i (rc_promise rc) (reply_value out) nd)\<lparr>nd_user := user\<rparr>)"
proof -
  from poll_frame [OF assms(1-6)] obtain b' buf where p: "poll B this nd =
      handle_packet B (nd\<lparr>nd_tcp_backend := Some b', nd_recv_buf := buf, nd_packet := pk\<rparr>)"
    and b': "pending b' = rest" "live b'" "sent b' = sent b" by metis
  let ?nd1 = "nd\<lparr>nd_tcp_backend := Some b', nd_recv_buf := buf, nd_packet := pk\<rparr>"
  have core: "core ?nd1 = core nd" by simp
  have inv1: "node_inv ?nd1" using node_inv_core [OF core] inv by simp
  have idx: "tid_index (pk_transactionID pk) ?nd1 = i" "\<not> tid_out_of_range (pk_transactionID pk) ?nd1"
    using tid_index_slot_id [OF i] tid by (simp_all add: tid_index_def tid_out_of_range_def)
  have "handle_packet B ?nd1 = handle_reply pk ?nd1"
    using assms(7) by (auto simp: handle_packet_def)
  also have "\<dots> = Some (Inr True, (settle i (rc_promise rc) (reply_value out) ?nd1)\<lparr>nd_user := user\<rparr>)"
    using handle_reply_eq [OF inv1, of pk] idx rc cb by simp
  finally have p': "poll B this nd = Some (Inr True, (settle i (rc_promise rc) (reply_value out) ?nd1)\<lparr>nd_user := user\<rparr>)"
    using p by simp
  have "node_inv (settle i (rc_promise rc) (reply_value out) ?nd1)"
    using i rc by (intro settle_inv [OF inv1]) (simp_all add: id_count_def)
  then have "node_inv ((settle i (rc_promise rc) (reply_value out) ?nd1)\<lparr>nd_user := user\<rparr>)"
    using node_inv_table by (metis table_simps(1))
  with p' b' show ?thesis by (simp add: settle_def drop_transaction_def core_def)
qed

text \<open>A command: the user's handler runs and one reply goes out. The node keeps everything but the
  user's state, its parser and its buffers, which do not shrink.\<close>

lemma poll_write_command:
  assumes "nd_tcp_backend nd = Some b" "live b" "pending b = frame 0 (write_packet c) @ rest"
    and wf: "write_wf c"
    and "recv_room (nd_buffer_policy nd) (length (nd_recv_buf nd)) (WritePacketBuilder_getTotalSize c)"
    and f: "nd_on_write nd = Some f"
    and out: "f (write_decoded c (nd_packet nd)) (nd_user nd) = Some (Returns (), user)"
    and room: "send_room nd (length (wr_replyAddress c) + 8)"
  shows "\<exists>b' nd'. poll B this nd = Some (Inr True, nd') \<and> nd_tcp_backend nd' = Some b' \<and>
     sent b' = sent b @ frame 0 (write_reply_packet (write_reply_config (write_decoded c (nd_packet nd)))) \<and>
     pending b' = rest \<and> live b' \<and> answered nd nd' user \<and> nd_packet nd' = write_decoded c (nd_packet nd)"
proof -
  let ?pk = "write_decoded c (nd_packet nd)" and ?r = "write_reply_config (write_decoded c (nd_packet nd))"
  have ne: "write_packet c \<noteq> []" by (simp add: write_packet_def)
  have len: "length (write_packet c) = WritePacketBuilder_getTotalSize c" by (rule length_write_packet)
  from poll_frame [OF assms(1-3) ne _ parse_write_packet [OF wf]] assms(5) obtain b1 buf where
    p: "poll B this nd = handle_packet B (nd\<lparr>nd_tcp_backend := Some b1, nd_recv_buf := buf, nd_packet := ?pk\<rparr>)"
    and b1: "pending b1 = rest" "live b1" "sent b1 = sent b"
      "nd_buffer_policy nd = Fixed \<longrightarrow> length buf = length (nd_recv_buf nd)" by (metis len)
  define nd2 where "nd2 = nd\<lparr>nd_tcp_backend := Some b1, nd_recv_buf := buf, nd_packet := ?pk, nd_user := user\<rparr>"
  have "pk_type ?pk = PT_Write" by (simp add: write_decoded_def)
  then have h: "handle_packet B (nd\<lparr>nd_tcp_backend := Some b1, nd_recv_buf := buf, nd_packet := ?pk\<rparr>) =
      send_reply B WriteReplyPacketBuilder_getTotalSize WriteReplyPacketBuilder_build ?r nd2"
    using f out by (simp add: handle_packet_def handle_write_def nd2_def)
  have "WriteReplyPacketBuilder_getTotalSize ?r = length (wr_replyAddress c) + 8"
    by (simp add: WriteReplyPacketBuilder_getTotalSize_def write_reply_config_def write_decoded_def)
  then have room2: "send_room nd2 (WriteReplyPacketBuilder_getTotalSize ?r)"
    using room by (simp add: send_room_def nd2_def)
  have "nd_tcp_backend nd2 = Some b1" by (simp add: nd2_def)
  from write_reply_codec.send_reply_eq [OF TrueI room2 this, of B]
    send_frame_stream [OF b1(2), of "write_reply_packet ?r" nd2]
  show ?thesis using p h b1 by (auto simp: nd2_def answered_def core_def)
qed

lemma poll_read_command:
  assumes "nd_tcp_backend nd = Some b" "live b" "pending b = frame 0 (read_packet c) @ rest"
    and wf: "read_wf c"
    and "recv_room (nd_buffer_policy nd) (length (nd_recv_buf nd)) (ReadPacketBuilder_getTotalSize c)"
    and f: "nd_on_read nd = Some f"
    and out: "f (read_decoded c (nd_packet nd)) (nd_user nd) = Some (Returns data, user)"
    and room: "send_room nd (length (rd_replyAddress c) + 12 + length data + 1)"
  shows "\<exists>b' nd'. poll B this nd = Some (Inr True, nd') \<and> nd_tcp_backend nd' = Some b' \<and>
     sent b' = sent b @ frame 0 (read_reply_packet (read_reply_config (read_decoded c (nd_packet nd)) data)) \<and>
     pending b' = rest \<and> live b' \<and> answered nd nd' user \<and> nd_packet nd' = read_decoded c (nd_packet nd)"
proof -
  let ?pk = "read_decoded c (nd_packet nd)" and ?r = "read_reply_config (read_decoded c (nd_packet nd)) data"
  have ne: "read_packet c \<noteq> []" by (simp add: read_packet_def)
  have len: "length (read_packet c) = ReadPacketBuilder_getTotalSize c" by (rule length_read_packet)
  from poll_frame [OF assms(1-3) ne _ parse_read_packet [OF wf]] assms(5) obtain b1 buf where
    p: "poll B this nd = handle_packet B (nd\<lparr>nd_tcp_backend := Some b1, nd_recv_buf := buf, nd_packet := ?pk\<rparr>)"
    and b1: "pending b1 = rest" "live b1" "sent b1 = sent b"
      "nd_buffer_policy nd = Fixed \<longrightarrow> length buf = length (nd_recv_buf nd)" by (metis len)
  define nd2 where "nd2 = nd\<lparr>nd_tcp_backend := Some b1, nd_recv_buf := buf, nd_packet := ?pk, nd_user := user\<rparr>"
  have "pk_type ?pk = PT_Read" by (simp add: read_decoded_def)
  then have h: "handle_packet B (nd\<lparr>nd_tcp_backend := Some b1, nd_recv_buf := buf, nd_packet := ?pk\<rparr>) =
      send_reply B ReadReplyPacketBuilder_getTotalSize ReadReplyPacketBuilder_build ?r nd2"
    using f out by (simp add: handle_packet_def handle_read_def nd2_def)
  have "ReadReplyPacketBuilder_getTotalSize ?r = length (rd_replyAddress c) + 12 + length data + 1"
    by (simp add: ReadReplyPacketBuilder_getTotalSize_def read_reply_config_def read_decoded_def)
  then have room2: "send_room nd2 (ReadReplyPacketBuilder_getTotalSize ?r)"
    using room by (simp add: send_room_def nd2_def)
  have "nd_tcp_backend nd2 = Some b1" by (simp add: nd2_def)
  from read_reply_codec.send_reply_eq [OF TrueI room2 this, of B]
    send_frame_stream [OF b1(2), of "read_reply_packet ?r" nd2]
  show ?thesis using p h b1 by (auto simp: nd2_def answered_def core_def)
qed

end

section \<open>Starting an operation over a connection\<close>

lemma acquired_first_free:
  assumes "first_free nd = Some i"
  shows "acquired clock (nd\<lparr>nd_promises := ps\<rparr>) = Some (i, acquire i (clock 0) (nd\<lparr>nd_promises := ps\<rparr>))"
proof -
  have "first_free (nd\<lparr>nd_promises := ps\<rparr>) = first_free nd"
    by (simp add: first_free_def id_count_def)
  with assms show ?thesis by (simp add: acquired_def)
qed

text \<open>The node in which an operation has been registered, before its packet is sent.\<close>

definition registered :: "nat \<Rightarrow> (nat \<Rightarrow> int) \<Rightarrow> 'u completion \<Rightarrow> ('b, 'u) node \<Rightarrow> ('b, 'u) node" where
  "registered i clock on_complete nd = register i (length (nd_promises nd)) on_complete
     (acquire i (clock 0) (nd\<lparr>nd_promises := nd_promises nd @ [None]\<rparr>))"

lemma registered_fields [simp]:
  "nd_tcp_backend (registered i clock oc nd) = nd_tcp_backend nd"
  "nd_send_buf (registered i clock oc nd) = nd_send_buf nd"
  "nd_buffer_policy (registered i clock oc nd) = nd_buffer_policy nd"
  "nd_promises (registered i clock oc nd) = nd_promises nd @ [None]"
  "nd_user (registered i clock oc nd) = nd_user nd"
  "read_config t tid a l (registered i clock oc nd) = read_config t tid a l nd"
  "write_config t tid a data (registered i clock oc nd) = write_config t tid a data nd"
  by (simp_all add: registered_def register_def acquire_def read_config_def write_config_def)

text \<open>The members that only the setters change.\<close>

definition settings :: "('b, 'u) node \<Rightarrow> _" where
  "settings nd = (nd_initiator_logical_address nd, nd_transaction_id_min nd, nd_transaction_id_max nd,
     nd_buffer_policy nd, nd_transaction_timeout nd, nd_running nd, nd_on_write nd, nd_on_read nd, nd_verify_mode nd)"

lemma settings_of_core: "settings (core nd) = settings nd"
  by (simp add: settings_def core_def)

lemma settings_core: "core nd = core nd' \<Longrightarrow> settings nd = settings nd'"
  by (metis settings_of_core)

lemma settings_simps [simp]:
  "settings (registered i clock oc nd) = settings nd"
  "settings (nd\<lparr>nd_user := u\<rparr>) = settings nd" "settings (settle i p v nd) = settings nd"
  "settings (nd\<lparr>nd_tcp_backend := b\<rparr>) = settings nd"
  by (simp_all add: settings_def settle_def drop_transaction_def registered_def register_def acquire_def)

lemma settings_acquired: "acquired clock nd = Some (i, nd') \<Longrightarrow> settings nd' = settings nd"
  by (auto simp: acquired_def acquire_def evict_def settings_def settle_def drop_transaction_def split: option.split_asm)

lemma settings_start:
  assumes "startAsyncOperation sender clock on_complete nd = Some (opn, nd')" "node_inv nd" "clock_ok clock" "keeps_core sender"
  shows "settings nd' = settings nd"
proof -
  let ?nd0 = "nd\<lparr>nd_promises := nd_promises nd @ [None]\<rparr>" and ?p = "length (nd_promises nd)"
  note start = assms(1) [unfolded startAsyncOperation_eq [OF assms(2-4)]]
  show ?thesis
  proof (cases "acquired clock ?nd0")
    case None
    then show ?thesis using start by (auto simp: settings_def)
  next
    case (Some a)
    obtain i nd1 where a: "a = (i, nd1)" by (cases a)
    from start Some a obtain res nd2 where s: "sender (slot_id nd i) (register i ?p on_complete nd1) = Some (res, nd2)"
      and nd': "nd' = (case res of Inl e \<Rightarrow> settle i ?p (Inl e) nd2 | Inr _ \<Rightarrow> nd2)"
      by (auto elim!: bind_SomeE split: sum.split_asm)
    have "settings nd2 = settings (register i ?p on_complete nd1)"
      using assms(4) s settings_core unfolding keeps_core_def by blast
    also have "\<dots> = settings nd"
      using settings_acquired [OF Some [unfolded a]] by (simp add: register_def settings_def)
    finally show ?thesis using nd' by (simp split: sum.split)
  qed
qed

lemma start_first_free:
  assumes "node_inv nd" "clock_ok clock" "keeps_core sender" "first_free nd = Some i"
    and "sender (slot_id nd i) (registered i clock oc nd) = Some (Inr (), nd')"
  shows "startAsyncOperation sender clock oc nd =
      Some (\<lparr>op_future = length (nd_promises nd), op_transaction_id = Some (slot_id nd i)\<rparr>, nd')"
    and "node_inv nd'"
    and "nd_reply_callback nd' ! i = Some \<lparr>rc_on_complete = oc, rc_promise = length (nd_promises nd),
      rc_transaction_id = slot_id nd i, rc_tx_index = i\<rparr>"
    and "i < id_count nd" "id_count nd' = id_count nd" "slot_id nd' i = slot_id nd i"
    and "nd_promises nd' = nd_promises nd @ [None]"
proof -
  note acq = acquired_first_free [OF assms(4), where clock = clock and ps = "nd_promises nd @ [None]"]
  note st = started_inv [OF assms(1,2) acq, folded registered_def]
  show "startAsyncOperation sender clock oc nd =
      Some (\<lparr>op_future = length (nd_promises nd), op_transaction_id = Some (slot_id nd i)\<rparr>, nd')"
    unfolding startAsyncOperation_eq [OF assms(1-3)] acq
    using assms(5) by (simp add: registered_def [symmetric])
  have core: "core nd' = core (registered i clock oc nd)"
    using assms(3,5) by (simp add: keeps_core_def)
  show "node_inv nd'" using node_inv_core [OF core] st(1) by simp
  show "nd_reply_callback nd' ! i = Some \<lparr>rc_on_complete = oc, rc_promise = length (nd_promises nd),
      rc_transaction_id = slot_id nd i, rc_tx_index = i\<rparr>"
    using core_fields(1) [OF core] st(2,4,5) by (simp add: registered_def register_def)
  show "i < id_count nd" by (rule st(2))
  show "id_count nd' = id_count nd" "slot_id nd' i = slot_id nd i"
    using core_fields(6,7) [OF core]
    by (simp_all add: registered_def register_def acquire_def id_count_def slot_id_def)
  show "nd_promises nd' = nd_promises nd @ [None]" using core_fields(16) [OF core] by simp
qed

context tcp_stream
begin

lemma startWrite_stream:
  assumes "node_inv nd" "clock_ok clock" "first_free nd = Some i"
    and "nd_tcp_backend nd = Some b" "live b"
    and "length (getReplyAddress t) \<le> 12"
    and room: "send_room nd (WritePacketBuilder_getTotalSize (write_config t (slot_id nd i) a data nd))"
  obtains nd' b' where "startWriteAsyncOperation B clock t a data oc nd =
      Some (\<lparr>op_future = length (nd_promises nd), op_transaction_id = Some (slot_id nd i)\<rparr>, nd')"
    "nd_tcp_backend nd' = Some b'" "live b'" "pending b' = pending b"
    "sent b' = sent b @ frame 0 (write_packet (write_config t (slot_id nd i) a data nd))"
    "node_inv nd'" "nd_reply_callback nd' ! i = Some \<lparr>rc_on_complete = oc,
       rc_promise = length (nd_promises nd), rc_transaction_id = slot_id nd i, rc_tx_index = i\<rparr>"
    "i < id_count nd" "id_count nd' = id_count nd" "slot_id nd' i = slot_id nd i"
    "nd_promises nd' = nd_promises nd @ [None]" "nd_user nd' = nd_user nd"
    "nd_recv_buf nd' = nd_recv_buf nd" "nd_buffer_policy nd' = nd_buffer_policy nd"
    "core nd' = core (registered i clock oc nd)" "length (nd_send_buf nd) \<le> length (nd_send_buf nd')"
    "nd_packet nd' = nd_packet nd"
proof -
  let ?c = "write_config t (slot_id nd i) a data nd" and ?nd1 = "registered i clock oc nd"
  have size: "WritePacketBuilder_getTotalSize (write_config t (slot_id nd i) a data ?nd1) \<le> INT_MAX"
    using room by (simp add: send_room_def)
  have eq: "sendWritePacket B t (slot_id nd i) a data ?nd1 = send_frame B (write_packet ?c) b ?nd1"
    unfolding sendWritePacket_eq [OF assms(6) size] using assms(4) room by (auto simp: send_room_def)
  from send_frame_stream [OF assms(5), of "write_packet ?c" ?nd1] obtain b' buf where
    s: "send_frame B (write_packet ?c) b ?nd1 =
      Some (Inr (), ?nd1\<lparr>nd_send_buf := buf, nd_tcp_backend := Some b'\<rparr>)"
    and b': "sent b' = sent b @ frame 0 (write_packet ?c)" "pending b' = pending b" "live b'"
      "length (nd_send_buf nd) \<le> length buf" by auto
  note st = start_first_free [OF assms(1,2) senders_keep_core(1) assms(3) eq [unfolded s]]
  show thesis
    by (rule that [OF st(1) [folded startWriteAsyncOperation_def] _ b'(3,2,1) st(2-7)])
      (use b'(4) in \<open>simp_all add: registered_def register_def acquire_def\<close>)
qed

lemma startRead_stream:
  assumes "node_inv nd" "clock_ok clock" "first_free nd = Some i"
    and "nd_tcp_backend nd = Some b" "live b"
    and "length (getReplyAddress t) \<le> 12"
    and size: "ReadPacketBuilder_getTotalSize (read_config t (slot_id nd i) a l nd) \<le> INT_MAX"
    and room: "ReadPacketBuilder_getTotalSize (read_config t (slot_id nd i) a l nd) + 12 \<le> length (nd_send_buf nd)"
  obtains nd' b' where "startReadAsyncOperation B clock t a l oc nd =
      Some (\<lparr>op_future = length (nd_promises nd), op_transaction_id = Some (slot_id nd i)\<rparr>, nd')"
    "nd_tcp_backend nd' = Some b'" "live b'" "pending b' = pending b"
    "sent b' = sent b @ frame 0 (read_packet (read_config t (slot_id nd i) a l nd))"
    "node_inv nd'" "nd_reply_callback nd' ! i = Some \<lparr>rc_on_complete = oc,
       rc_promise = length (nd_promises nd), rc_transaction_id = slot_id nd i, rc_tx_index = i\<rparr>"
    "i < id_count nd" "id_count nd' = id_count nd" "slot_id nd' i = slot_id nd i"
    "nd_promises nd' = nd_promises nd @ [None]" "nd_user nd' = nd_user nd"
    "nd_recv_buf nd' = nd_recv_buf nd" "nd_buffer_policy nd' = nd_buffer_policy nd"
    "core nd' = core (registered i clock oc nd)" "length (nd_send_buf nd) \<le> length (nd_send_buf nd')"
    "nd_packet nd' = nd_packet nd"
proof -
  let ?c = "read_config t (slot_id nd i) a l nd" and ?nd1 = "registered i clock oc nd"
  have size': "ReadPacketBuilder_getTotalSize (read_config t (slot_id nd i) a l ?nd1) \<le> INT_MAX"
    using size by simp
  have eq: "sendReadPacket B t (slot_id nd i) a l ?nd1 = send_frame B (read_packet ?c) b ?nd1"
    unfolding sendReadPacket_eq [OF assms(6) size'] using assms(4) room by auto
  from send_frame_stream [OF assms(5), of "read_packet ?c" ?nd1] obtain b' buf where
    s: "send_frame B (read_packet ?c) b ?nd1 =
      Some (Inr (), ?nd1\<lparr>nd_send_buf := buf, nd_tcp_backend := Some b'\<rparr>)"
    and b': "sent b' = sent b @ frame 0 (read_packet ?c)" "pending b' = pending b" "live b'"
      "length (nd_send_buf nd) \<le> length buf" by auto
  note st = start_first_free [OF assms(1,2) senders_keep_core(2) assms(3) eq [unfolded s]]
  show thesis
    by (rule that [OF st(1) [folded startReadAsyncOperation_def] _ b'(3,2,1) st(2-7)])
      (use b'(4) in \<open>simp_all add: registered_def register_def acquire_def\<close>)
qed

end

context tcp_stream
begin

text \<open>The reply to an operation that has been started fulfils its promise and frees its slot.\<close>

lemma poll_started:
  assumes inv: "node_inv nd" "first_free nd = Some i"
    and started: "node_inv nd'" "core nd' = core (registered i clock oc nd)"
      "nd_reply_callback nd' ! i = Some \<lparr>rc_on_complete = oc, rc_promise = length (nd_promises nd),
         rc_transaction_id = slot_id nd i, rc_tx_index = i\<rparr>"
      "slot_id nd' i = slot_id nd i"
    and recv: "live b" "pending b = frame 0 p" "p \<noteq> []"
      "recv_room (nd_buffer_policy nd') (length (nd_recv_buf nd')) (length p)"
    and reply: "parse (nd_packet nd') p = Some (Success, pk)"
      "pk_type pk = PT_ReadReply \<or> pk_type pk = PT_WriteReply" "pk_transactionID pk = slot_id nd i"
      "oc pk (nd_user nd) = Some (out, user)"
  shows "\<exists>nd''. poll B this (nd'\<lparr>nd_tcp_backend := Some b\<rparr>) = Some (Inr True, nd'') \<and> node_inv nd'' \<and>
     nd_promises nd'' = nd_promises nd @ [Some (reply_value out)] \<and>
     nd_available nd'' = nd_available nd \<and> nd_user nd'' = user \<and> settings nd'' = settings nd \<and>
     nd_send_buf nd'' = nd_send_buf nd' \<and>
     (\<exists>b'. nd_tcp_backend nd'' = Some b' \<and> live b' \<and> pending b' = [] \<and> sent b' = sent b)"
proof -
  let ?nd = "nd'\<lparr>nd_tcp_backend := Some b\<rparr>"
  have core: "core ?nd = core (registered i clock oc nd)" using started(2) by simp
  have inv': "node_inv ?nd" using node_inv_core [of ?nd nd'] started(1) by simp
  have i: "i < id_count nd" "nd_available nd ! i" using inv(2) by (auto simp: first_free_def find_upt_Some)
  have fields: "nd_promises ?nd = nd_promises nd @ [None]" "nd_user ?nd = nd_user nd"
    "nd_available ?nd = (nd_available nd)[i := False]" "id_count ?nd = id_count nd"
    using core_fields [OF core]
    by (simp_all add: registered_def register_def acquire_def id_count_def)
  have pre: "nd_tcp_backend ?nd = Some b" "pending b = frame 0 p @ []"
    "recv_room (nd_buffer_policy ?nd) (length (nd_recv_buf ?nd)) (length p)"
    "parse (nd_packet ?nd) p = Some (Success, pk)" "i < id_count ?nd"
    "nd_reply_callback ?nd ! i = Some \<lparr>rc_on_complete = oc, rc_promise = length (nd_promises nd),
         rc_transaction_id = slot_id nd i, rc_tx_index = i\<rparr>"
    "pk_transactionID pk = slot_id ?nd i" "oc pk (nd_user ?nd) = Some (out, user)"
    using recv reply started(3,4) fields i by (simp_all add: slot_id_def)
  have "(nd_available nd)[i := True] = nd_available nd" using i by (simp add: list_update_same_conv shape_lengths [OF inv(1)])
  then show ?thesis
    using poll_reply [OF pre(1) recv(1) pre(2) recv(3) pre(3,4) reply(2) inv' pre(5-7), of out user this] pre(8)
      settings_core [OF core]
    by (auto simp: fields dest: settings_core)
qed

end

section \<open>The step relation\<close>

text \<open>
  The public operations of a node over backend \<open>B\<close>, in any order. The synchronous operations
  are sequences of these: they start an operation, wait while other threads take steps, and
  possibly cancel.
\<close>

inductive node_step ::
    "'b backend \<Rightarrow> ('b, 'u) node_methods \<Rightarrow> ('b, 'u) node \<Rightarrow> ('b, 'u) node \<Rightarrow> bool"
  for B :: "'b backend" and this :: "('b, 'u) node_methods" where
  step_poll: "poll B this nd = Some (r, nd') \<Longrightarrow> node_step B this nd nd'"
| step_write: "startWriteAsyncOperation B clock t a data oc nd = Some (opn, nd') \<Longrightarrow> clock_ok clock \<Longrightarrow>
    node_step B this nd nd'"
| step_read: "startReadAsyncOperation B clock t a l oc nd = Some (opn, nd') \<Longrightarrow> clock_ok clock \<Longrightarrow>
    node_step B this nd nd'"
| step_cancel: "cancelTransaction tid nd = Some nd' \<Longrightarrow> node_step B this nd nd'"
| step_time_code: "emitTimeCode B tc nd = Some (r, nd') \<Longrightarrow> node_step B this nd nd'"
| step_send_timeout: "setSendTimeoutInternal B us nd = Some (r, nd') \<Longrightarrow> node_step B this nd nd'"
| step_shutdown: "nm_shutdown this nd = Some (r, nd') \<Longrightarrow> node_step B this nd nd'"
| step_timeout: "int64 (ms * 1000000) \<noteq> None \<Longrightarrow> node_step B this nd (setTimeout ms nd)"
| step_address: "node_step B this nd (setInitiatorLogicalAddress ad nd)"
| step_verify: "node_step B this nd (setVerifyMode v nd)"
| step_on_write: "node_step B this nd (registerOnWrite f nd)"
| step_on_read: "node_step B this nd (registerOnRead g nd)"

lemma emitTimeCode_core: "emitTimeCode B tc nd = Some (r, nd') \<Longrightarrow> core nd' = core nd"
  by (auto simp: emitTimeCode_def elim!: bind_SomeE split: option.split_asm)

lemma setSendTimeoutInternal_table: "setSendTimeoutInternal B us nd = Some (r, nd') \<Longrightarrow> table nd' = table nd"
  by (auto simp: setSendTimeoutInternal_def Let_def elim!: bind_SomeE split: option.split_asm if_split_asm)

lemma safe_step_set_timeout: "int64 (ms * 1000000) \<noteq> None \<Longrightarrow> safe_step nd (setTimeout ms nd)"
  unfolding safe_step_def
proof (intro impI conjI)
  assume ms: "int64 (ms * 1000000) \<noteq> None" and inv: "node_inv nd"
  have "slot_ok (setTimeout ms nd) j = slot_ok nd j" for j
    unfolding slot_ok_def slot_id_def setTimeout_def by (auto split: option.split)
  with inv ms show "node_inv (setTimeout ms nd)"
    by (auto simp: node_inv_def table_shape_def promises_distinct_def id_count_def setTimeout_def)
  show "promises_kept nd (setTimeout ms nd)" by (simp add: promises_kept_def setTimeout_def)
qed

context node_derived
begin

lemma safe_step_node_step:
  assumes "node_step B this nd nd'"
  shows "safe_step nd nd'"
  using assms
proof cases
  case (step_write clock t a data oc opn)
  then show ?thesis
    using safe_step_start [OF _ _ senders_keep_core(1)] by (auto simp: startWriteAsyncOperation_def)
next
  case (step_read clock t a l oc opn)
  then show ?thesis
    using safe_step_start [OF _ _ senders_keep_core(2)] by (auto simp: startReadAsyncOperation_def)
qed (auto simp: setInitiatorLogicalAddress_def setVerifyMode_def registerOnWrite_def registerOnRead_def
    intro: safe_step_poll safe_step_cancel safe_step_core emitTimeCode_core
      setSendTimeoutInternal_table shutdown_table safe_step_set_timeout)

lemma node_step_breaks:
  assumes "node_step B this nd nd'" "node_inv nd"
  shows "breaks_none nd nd' \<or> (\<exists>t. cancelTransaction t nd = Some nd')"
  using assms(1)
proof cases
  case (step_write clock t a data oc opn)
  then show ?thesis
    using breaks_none_start [OF _ _ senders_keep_core(1) assms(2)] by (auto simp: startWriteAsyncOperation_def)
next
  case (step_read clock t a l oc opn)
  then show ?thesis
    using breaks_none_start [OF _ _ senders_keep_core(2) assms(2)] by (auto simp: startReadAsyncOperation_def)
next
  case (step_timeout ms)
  have "breaks_none nd (setTimeout ms nd)"
    using future_status_cong [of "setTimeout ms nd" nd] by (simp add: breaks_none_def setTimeout_def)
  with step_timeout show ?thesis by simp
qed (use assms(2) in \<open>auto simp: setInitiatorLogicalAddress_def setVerifyMode_def registerOnWrite_def registerOnRead_def
    intro: breaks_none_poll breaks_none_table table_core emitTimeCode_core setSendTimeoutInternal_table shutdown_table\<close>)

lemma safe_steps: "(node_step B this)\<^sup>*\<^sup>* nd nd' \<Longrightarrow> safe_step nd nd'"
  by (induction rule: rtranclp_induct) (auto intro: safe_step_trans safe_step_node_step)

end

section \<open>Operations return\<close>

text \<open>Starting always returns when sending does: the future is new, and pending or failed.\<close>

lemma register_backend: "nd_tcp_backend (register i p oc nd) = nd_tcp_backend nd"
  by (simp add: register_def)

lemma acquired_backend: "acquired clock nd = Some (i, nd1) \<Longrightarrow> nd_tcp_backend nd1 = nd_tcp_backend nd"
  by (auto simp: acquired_def acquire_def evict_def settle_def drop_transaction_def split: option.split_asm)

definition started_ok :: "('b, 'u) node \<Rightarrow> AsyncOperation \<Rightarrow> ('b, 'u) node \<Rightarrow> bool" where
  "started_ok nd opn nd' \<longleftrightarrow> op_future opn = length (nd_promises nd) \<and> promises_kept nd nd' \<and>
     (case op_transaction_id opn of
        None \<Rightarrow> \<exists>e. future_status (op_future opn) nd' = Some (Future_ready (Inl e))
      | Some tid \<Rightarrow> future_status (op_future opn) nd' = Some Future_pending)"

lemma start_returns:
  assumes "node_inv nd" "clock_ok clock" "keeps_core sender"
    and "\<And>tid nd'. nd_tcp_backend nd' = nd_tcp_backend nd \<Longrightarrow> sender tid nd' \<noteq> None"
  shows "\<exists>opn nd'. startAsyncOperation sender clock oc nd = Some (opn, nd') \<and> started_ok nd opn nd'"
proof -
  let ?nd0 = "nd\<lparr>nd_promises := nd_promises nd @ [None]\<rparr>" and ?p = "length (nd_promises nd)"
  note eq = startAsyncOperation_eq [OF assms(1-3), of oc]
  show ?thesis
  proof (cases "acquired clock ?nd0")
    case None
    then show ?thesis
      by (simp add: eq started_ok_def promises_kept_def nth_append future_status_last)
  next
    case (Some a)
    obtain i nd1 where a: "a = (i, nd1)" by (cases a)
    let ?nd2 = "register i ?p oc nd1"
    have "nd_tcp_backend ?nd2 = nd_tcp_backend nd"
      using acquired_backend [OF Some [unfolded a]] by (simp add: register_backend)
    with assms(4) obtain res nd3 where s: "sender (slot_id nd i) ?nd2 = Some (res, nd3)" by fastforce
    note st = started_inv [OF assms(1,2) Some [unfolded a]]
    have core: "core nd3 = core ?nd2" using s assms(3) by (simp add: keeps_core_def)
    have inv3: "node_inv nd3" using node_inv_core [OF core] st(1) by simp
    have cb: "nd_reply_callback nd3 ! i = Some \<lparr>rc_on_complete = oc, rc_promise = ?p,
        rc_transaction_id = slot_id nd1 i, rc_tx_index = i\<rparr>"
      using core_fields(1) [OF core] st(2,5) by (simp add: register_def)
    have n: "i < id_count nd3"
      using core_fields [OF core] st(2,3) by (simp add: id_count_def register_def)
    have pend: "future_status ?p nd3 = Some Future_pending" using future_status_pending [OF inv3 n cb] by simp
    then have len: "?p < length (nd_promises nd3)"
      by (auto simp: future_status_def span_at_def split: if_split_asm)
    define r where "r = (case res of
         Inl e \<Rightarrow> (\<lparr>op_future = ?p, op_transaction_id = None\<rparr>, settle i ?p (Inl e) nd3)
       | Inr _ \<Rightarrow> (\<lparr>op_future = ?p, op_transaction_id = Some (slot_id nd i)\<rparr>, nd3))"
    obtain opn nd' where r': "r = (opn, nd')" by (cases r)
    have start: "startAsyncOperation sender clock oc nd = Some (opn, nd')"
      unfolding r' [symmetric] r_def by (simp add: eq Some a s)
    have "promises_kept nd nd'"
      using safe_step_start [OF start assms(2,3)] assms(1) by (simp add: safe_step_def)
    moreover have "future_status ?p (settle i ?p v nd3) = Some (Future_ready v)" for v
      using len by (simp add: future_status_ready)
    ultimately have "started_ok nd opn nd'"
      using r' pend by (cases res) (auto simp: r_def started_ok_def)
    with start show ?thesis by blast
  qed
qed

lemma send_frame_returns: "be_sendAll B (frame 0 p) b \<noteq> None \<Longrightarrow> send_frame B p b nd \<noteq> None"
  by (auto simp: send_frame_def)

lemma sendWritePacket_returns:
  assumes "length (getReplyAddress t) \<le> 12" "length (getTargetSpaceWireAddress t) + length data + 29 \<le> INT_MAX"
    and "\<And>b bytes. nd_tcp_backend nd = Some b \<Longrightarrow> be_sendAll B bytes b \<noteq> None"
  shows "sendWritePacket B t tid a data nd \<noteq> None"
proof -
  have "WritePacketBuilder_getTotalSize (write_config t tid a data nd) \<le> INT_MAX"
    using assms(1,2) div_le_mono [of "length (getReplyAddress t) + 3" 15 4]
    by (simp add: WritePacketBuilder_getTotalSize_def write_config_def)
  from sendWritePacket_eq [OF assms(1) this, of B] assms(3) show ?thesis
    by (simp add: send_frame_returns split: option.split del: not_None_eq)
qed

lemma sendReadPacket_returns:
  assumes "length (getReplyAddress t) \<le> 12" "length (getTargetSpaceWireAddress t) + 29 \<le> INT_MAX"
    and "\<And>b bytes. nd_tcp_backend nd = Some b \<Longrightarrow> be_sendAll B bytes b \<noteq> None"
  shows "sendReadPacket B t tid a l nd \<noteq> None"
proof -
  have "ReadPacketBuilder_getTotalSize (read_config t tid a l nd) \<le> INT_MAX"
    using assms(1,2) div_le_mono [of "length (getReplyAddress t) + 3" 15 4]
    by (simp add: ReadPacketBuilder_getTotalSize_def read_config_def)
  from sendReadPacket_eq [OF assms(1) this, of B] assms(3) show ?thesis
    by (simp add: send_frame_returns split: option.split del: not_None_eq)
qed

lemma reply_returns:
  assumes "node_inv nd"
    and "\<And>rc. nd_reply_callback nd ! tid_index (pk_transactionID pk) nd = Some rc \<Longrightarrow> rc_on_complete rc pk (nd_user nd) \<noteq> None"
  shows "\<exists>r nd'. handle_reply pk nd = Some (r, nd') \<and> promises_kept nd nd'"
proof -
  have "handle_reply pk nd \<noteq> None"
    using assms by (auto simp: handle_reply_eq Let_def split: option.split)
  then obtain r nd' where "handle_reply pk nd = Some (r, nd')" by auto
  with safe_step_reply [OF this] assms(1) show ?thesis by (auto simp: safe_step_def)
qed

lemma transaction_count_eq:
  assumes "lo \<le> hi"
  shows "transaction_count lo hi = unat hi - unat lo"
proof -
  have le: "unat lo \<le> unat hi" using assms by (simp add: word_le_nat_alt)
  then have "uint hi - uint lo = int (unat hi - unat lo)" by (simp add: of_nat_diff)
  moreover have "unat hi - unat lo < 65536" using unat_u16 [of hi] by simp
  ultimately show ?thesis
    by (simp add: transaction_count_def unsigned_of_nat take_bit_nat_def)
qed

lemma new_node_inv:
  assumes "cf_transaction_id_min config \<le> cf_transaction_id_max config"
  shows "node_inv (SpwRmapTCPNodeImpl backend config user)"
proof -
  let ?nd = "SpwRmapTCPNodeImpl backend config user"
  have n: "transaction_count (cf_transaction_id_min config) (cf_transaction_id_max config) = id_count ?nd"
    using transaction_count_eq [OF assms] by (simp add: SpwRmapTCPNodeImpl_def id_count_def Let_def)
  have "nd_reply_callback ?nd = replicate (id_count ?nd) None"
    "nd_reply_error_callback ?nd = replicate (id_count ?nd) None"
    "nd_available ?nd = replicate (id_count ?nd) True"
    "nd_last_used ?nd = replicate (id_count ?nd) TIME_POINT_MIN"
    unfolding n [symmetric] by (simp_all add: SpwRmapTCPNodeImpl_def Let_def)
  moreover have "nd_transaction_id_min ?nd \<le> nd_transaction_id_max ?nd" "nd_transaction_timeout ?nd = 1000"
    using assms by (simp_all add: SpwRmapTCPNodeImpl_def Let_def)
  ultimately show ?thesis
    by (simp add: node_inv_def table_shape_def slot_ok_def promises_distinct_def int64_def)
qed
end
