(* ===== verification/Node_Properties.thy ===== *)
theory Node_Properties
  imports Node_Exchange
begin

unbundle bit_operations_syntax

text \<open>
  The properties of a single node: how it hands out transaction identifiers, settles and cancels
  operations, keeps its table consistent in every reachable state, reassembles what it receives
  and frames what it sends, with the witnesses on a sample node over the pipe.
\<close>

section \<open>A sample node\<close>

text \<open>A client node with two transaction identifiers, connected over the pipe.\<close>

definition sample_config :: SpwRmapTCPNodeConfig where
  "sample_config = \<lparr>cf_ip_address = ''localhost'', cf_port = ''10030'', cf_send_buffer_size = 64,
     cf_recv_buffer_size = 64, cf_send_pool_size = 4, cf_recv_pool_size = 4,
     cf_transaction_id_min = 0x20, cf_transaction_id_max = 0x22, cf_buffer_policy = AutoResize,
     cf_send_timeout = 500000\<rparr>"

definition sample_pipe :: pipe where
  "sample_pipe = \<lparr>pp_in = [], pp_out = [], pp_step = 4, pp_open = [3]\<rparr>"

definition sample_node :: "(pipe tcp_client, unit) node" where
  "sample_node = SpwRmapTCPNodeImpl (\<lambda>ip port. (TCPClient sample_pipe ip port)\<lparr>tc_fd := 3\<rparr>) sample_config ()"

definition sample_target :: target_node where
  "sample_target = TargetNodeFixed 0xFE [3, 7] [1, 2]"

lemma sample_node_inv: "node_inv sample_node"
  unfolding sample_node_def by (rule new_node_inv) (simp add: sample_config_def)

lemma sample_count: "transaction_count 0x20 0x22 = 2"
  by (simp add: transaction_count_def)

lemma replicate_2: "replicate 2 x = [x, x]"
  by (simp add: numeral_2_eq_2)

lemma sample_node_fields [simp]:
  "id_count sample_node = 2" "nd_available sample_node = [True, True]"
  "nd_reply_callback sample_node = [None, None]" "nd_promises sample_node = []"
  "nd_transaction_id_min sample_node = 0x20" "nd_transaction_id_max sample_node = 0x22"
  "nd_transaction_timeout sample_node = 1000"
  "nd_tcp_backend sample_node = Some \<lparr>tc_fd = 3, tc_ip_address = ''localhost'', tc_port = ''10030'',
     tc_sys = sample_pipe\<rparr>"
  "length (nd_send_buf sample_node) = 64" "length (nd_recv_buf sample_node) = 64"
  "nd_buffer_policy sample_node = AutoResize" "nd_user sample_node = ()"
  "nd_packet sample_node = empty_packet"
  by (simp_all add: sample_node_def SpwRmapTCPNodeImpl_def sample_config_def Let_def id_count_def
      sample_count replicate_2 TCPClient_def)

lemma sample_first_free: "first_free sample_node = Some 0"
  by (simp add: first_free_def find_upt_Some)

lemma slot_id_sample [simp]: "slot_id sample_node 0 = 0x20"
  by (simp add: slot_id_def)

lemma zero_clock: "clock_ok (\<lambda>_. 0)"
  by (simp add: clock_ok_def)

section \<open>Identifiers\<close>

text \<open>C18. Asking for a transaction identifier always returns. An identifier that is handed out
  is the first free one or, if none is free, that of the first transaction older than the timeout,
  whose promise then fails with \<open>timed_out\<close>; its slot is marked used, holds no callback, and no
  other slot changes. The error \<open>resource_unavailable_try_again\<close> means that every identifier is
  in use and none has expired, and nothing changes.\<close>

theorem getAvailableTransactionID_outcome:
  assumes "node_inv nd" and "clock_ok clock"
  shows "\<exists>r nd'. getAvailableTransactionID clock nd = Some (r, nd') \<and> (case r of
       Inl e \<Rightarrow> e = Generic resource_unavailable_try_again \<and> nd' = nd \<and>
         (\<forall>i < id_count nd. \<not> nd_available nd ! i \<and> \<not> expired_at (clock 0) nd i)
     | Inr tid \<Rightarrow> \<exists>i < id_count nd. ucast tid = slot_id nd i \<and>
         \<not> nd_available nd' ! i \<and> nd_reply_callback nd' ! i = None \<and>
         (\<forall>j < id_count nd. j \<noteq> i \<longrightarrow> nd_available nd' ! j = nd_available nd ! j \<and>
            nd_reply_callback nd' ! j = nd_reply_callback nd ! j) \<and>
         (nd_available nd ! i \<and> (\<forall>j < i. \<not> nd_available nd ! j) \<and> nd_promises nd' = nd_promises nd \<or>
          (\<forall>j < id_count nd. \<not> nd_available nd ! j) \<and>
          expired_at (clock 0) nd i \<and> (\<forall>j < i. \<not> expired_at (clock 0) nd j) \<and>
          (\<exists>rc. nd_reply_callback nd ! i = Some rc \<and> nd_promises nd' =
             (nd_promises nd)[rc_promise rc := Some (Inl (Generic timed_out))])))"
proof (cases "first_free nd")
  case (Some i)
  then have i: "i < id_count nd" "nd_available nd ! i" "\<forall>j < i. \<not> nd_available nd ! j"
    unfolding first_free_def find_upt_Some by auto
  have "nd_reply_callback nd ! i = None" using assms(1) i by (auto elim: slot_cases)
  with Some i shape_lengths [OF assms(1)] ucast_slot_id [OF i(1)] show ?thesis
    unfolding getAvailableTransactionID_eq [OF assms] by (auto simp: acquire_def intro!: exI [of _ i])
next
  case None
  then have na: "\<forall>j < id_count nd. \<not> nd_available nd ! j"
    unfolding first_free_def find_upt_None by simp
  show ?thesis
  proof (cases "find (expired_at (clock 0) nd) [0..<id_count nd]")
    case None
    then have "\<forall>j < id_count nd. \<not> expired_at (clock 0) nd j" unfolding find_upt_None .
    with None \<open>first_free nd = None\<close> na show ?thesis
      unfolding getAvailableTransactionID_eq [OF assms] by simp
  next
    case (Some i)
    then have i: "i < id_count nd" "expired_at (clock 0) nd i" "\<forall>j < i. \<not> expired_at (clock 0) nd j"
      unfolding find_upt_Some by auto
    from assms(1) i(1) na obtain rc where "nd_reply_callback nd ! i = Some rc"
      by (auto elim: slot_cases)
    with Some \<open>first_free nd = None\<close> na i shape_lengths [OF assms(1)] ucast_slot_id [OF i(1)] show ?thesis
      unfolding getAvailableTransactionID_eq [OF assms]
      by (auto simp: acquire_def evict_fields evict_callback evict_promises intro!: exI [of _ i])
  qed
qed

text \<open>C19. A reply to an operation in flight runs the operation's callback, gives its outcome to the
  operation's promise and frees its slot, whatever the reply's status says; no other promise and no
  other slot changes.\<close>

theorem reply_settles_operation:
  assumes "node_inv nd" and "\<not> tid_out_of_range (pk_transactionID pk) nd"
    and "nd_reply_callback nd ! tid_index (pk_transactionID pk) nd = Some rc"
    and "rc_on_complete rc pk (nd_user nd) = Some (out, user)"
  shows "\<exists>nd'. handle_reply pk nd = Some (Inr True, nd') \<and> node_inv nd' \<and> nd_user nd' = user \<and>
     nd_promises nd' = (nd_promises nd)[rc_promise rc :=
       Some (case out of Returns _ \<Rightarrow> Inr () | _ \<Rightarrow> Inl (Generic operation_canceled))] \<and>
     nd_promises nd ! rc_promise rc = None \<and>
     nd_available nd' = (nd_available nd)[tid_index (pk_transactionID pk) nd := True] \<and>
     nd_reply_callback nd' = (nd_reply_callback nd)[tid_index (pk_transactionID pk) nd := None]"
proof -
  define i where "i = tid_index (pk_transactionID pk) nd"
  have i: "i < id_count nd" using tid_index_less [OF assms(2)] by (simp add: i_def)
  have rc: "nd_reply_callback nd ! i = Some rc" using assms(3) by (simp add: i_def)
  let ?nd' = "(settle i (rc_promise rc) (reply_value out) nd)\<lparr>nd_user := user\<rparr>"
  have "handle_reply pk nd = Some (Inr True, ?nd')"
    using assms rc by (simp add: handle_reply_eq i_def [symmetric])
  moreover have "node_inv ?nd'"
    using settle_inv [OF assms(1) i rc] node_inv_table by (metis table_simps(1))
  moreover have "nd_promises nd ! rc_promise rc = None" using assms(1) i rc by (auto elim: slot_cases)
  ultimately show ?thesis
    by (simp add: settle_def drop_transaction_def reply_value_def i_def)
qed

definition busy_node :: "(pipe tcp_client, unit) node" where
  "busy_node = registered 0 (\<lambda>_. 0) (\<lambda>pk u. Some (Returns (), u)) sample_node"

lemma busy_node_inv: "node_inv busy_node"
  using started_inv(1) [OF sample_node_inv zero_clock acquired_first_free [OF sample_first_free,
      where ps = "nd_promises sample_node @ [None]"]]
  by (simp add: busy_node_def registered_def)

lemma busy_node_callback: "nd_reply_callback busy_node ! 0 = Some \<lparr>rc_on_complete = (\<lambda>pk u. Some (Returns (), u)),
    rc_promise = 0, rc_transaction_id = 0x20, rc_tx_index = 0\<rparr>"
  by (simp add: busy_node_def registered_def register_def acquire_def slot_id_def)

lemma busy_node_fields:
  "nd_transaction_id_min busy_node = 0x20" "nd_transaction_id_max busy_node = 0x22"
  "nd_promises busy_node = [None]" "nd_available busy_node = [False, True]" "id_count busy_node = 2"
  by (simp_all add: busy_node_def registered_def register_def acquire_def id_count_def)

theorem getAvailableTransactionID_outcome_witness:
  "\<exists>r nd'. getAvailableTransactionID (\<lambda>_. 0) busy_node = Some (r, nd') \<and> (case r of
       Inl e \<Rightarrow> False
     | Inr tid \<Rightarrow> ucast tid = (0x21 :: u16) \<and> \<not> nd_available nd' ! 1 \<and> nd_promises nd' = [None])"
proof -
  from getAvailableTransactionID_outcome [OF busy_node_inv zero_clock] obtain r nd' where
    r: "getAvailableTransactionID (\<lambda>_. 0) busy_node = Some (r, nd')"
    and c: "case r of Inl e \<Rightarrow> \<not> nd_available busy_node ! 1
      | Inr tid \<Rightarrow> \<exists>i < 2. ucast tid = slot_id busy_node i \<and> \<not> nd_available nd' ! i \<and>
          (nd_available busy_node ! i \<and> nd_promises nd' = nd_promises busy_node \<or> \<not> nd_available busy_node ! 1)"
    unfolding busy_node_fields(5) by (fastforce split: sum.splits)
  have "nd_available busy_node ! 1" "\<not> nd_available busy_node ! 0" "slot_id busy_node 1 = 0x21"
    by (simp_all add: busy_node_fields slot_id_def)
  with c obtain tid where "r = Inr tid" "ucast tid = (0x21 :: u16)" "\<not> nd_available nd' ! 1" "nd_promises nd' = [None]"
    by (auto simp: less_2_cases_iff busy_node_fields(3) split: sum.split_asm)
  with r show ?thesis by auto
qed

theorem reply_settles_operation_witness:
  "\<exists>nd'. handle_reply (empty_packet\<lparr>pk_transactionID := 0x20, pk_status := 3\<rparr>) busy_node =
       Some (Inr True, nd') \<and> nd_promises nd' = [Some (Inr ())] \<and> nd_available nd' = [True, True]"
proof -
  let ?pk = "empty_packet\<lparr>pk_transactionID := 0x20, pk_status := 3\<rparr>"
  have "\<not> tid_out_of_range (pk_transactionID ?pk) busy_node" "tid_index (pk_transactionID ?pk) busy_node = 0"
    by (simp_all add: tid_out_of_range_def tid_index_def busy_node_fields)
  with reply_settles_operation [OF busy_node_inv this(1), of _ "Returns ()" "()"] busy_node_callback
  show ?thesis by (auto simp: busy_node_fields)
qed

text \<open>A reply that belongs to no operation changes nothing: one with an identifier out of range is
  an error, one without a registered callback is dropped.\<close>

lemma stray_reply_ignored:
  assumes "node_inv nd"
    and "tid_out_of_range (pk_transactionID pk) nd \<or>
         nd_reply_callback nd ! tid_index (pk_transactionID pk) nd = None"
  shows "handle_reply pk nd = Some (if tid_out_of_range (pk_transactionID pk) nd
     then Inl (Generic bad_message) else Inr True, nd)"
  using assms by (auto simp: handle_reply_eq Let_def)

text \<open>Cancelling forgets the operation under an identifier, and only that. It sets no promise. An identifier out of
  range is ignored.\<close>

lemma cancel_forgets_operation:
  assumes "node_inv nd"
  shows "\<exists>nd'. cancelTransaction t nd = Some nd' \<and> node_inv nd' \<and> nd_promises nd' = nd_promises nd \<and>
     (if tid_out_of_range t nd then nd' = nd
      else nd_available nd' = (nd_available nd)[tid_index t nd := True] \<and>
           nd_reply_callback nd' = (nd_reply_callback nd)[tid_index t nd := None])"
  using cancelTransaction_eq [OF assms, of t] drop_transaction_inv [OF assms tid_index_less] assms
  by (auto simp: drop_transaction_def)

lemma cancel_forgets_operation_witness:
  "\<exists>nd'. cancelTransaction 0x20 busy_node = Some nd' \<and> nd_promises nd' = [None] \<and>
     nd_available nd' = [True, True]"
proof -
  have "\<not> tid_out_of_range 0x20 busy_node" "tid_index 0x20 busy_node = 0"
    by (simp_all add: tid_out_of_range_def tid_index_def busy_node_fields)
  with cancel_forgets_operation [OF busy_node_inv, of "0x20"] show ?thesis
    by (auto simp: busy_node_fields)
qed


section \<open>Reachable states\<close>

text \<open>C5. In every state that a node can reach by any sequence of its public operations, the
  transaction table is consistent: an identifier is free exactly if no callback is registered under
  it, a registered callback belongs to its slot, and its promise is unset and belongs to no other
  slot.\<close>

theorem reachable_table_consistent:
  assumes "node_derived this" and "cf_transaction_id_min config \<le> cf_transaction_id_max config"
    and "(node_step B this)\<^sup>*\<^sup>* (SpwRmapTCPNodeImpl backend config user) nd"
  shows "node_inv nd"
proof -
  from node_derived.safe_steps [OF assms(1,3)] new_node_inv [OF assms(2), of backend user]
  show ?thesis by (simp add: safe_step_def)
qed

text \<open>C16. In every reachable state the operations on the transaction table return: cancelling always;
  handling a reply whenever the callback it runs returns; starting a write or a read whenever sending on
  the connection returns. No operation fulfils a promise twice, which would end the program, and none changes the value of
  a promise. The future of a started operation is new; it is pending if the operation has an identifier and
  failed if it has none.\<close>

theorem reachable_operations_return:
  assumes "node_derived this" and "cf_transaction_id_min config \<le> cf_transaction_id_max config"
    and "(node_step B this)\<^sup>*\<^sup>* (SpwRmapTCPNodeImpl backend config user) nd"
  shows "(\<exists>nd'. cancelTransaction tid nd = Some nd' \<and> promises_kept nd nd') \<and>
     (\<forall>pk. (\<forall>rc. nd_reply_callback nd ! tid_index (pk_transactionID pk) nd = Some rc \<longrightarrow>
           rc_on_complete rc pk (nd_user nd) \<noteq> None) \<longrightarrow>
        (\<exists>r nd'. handle_reply pk nd = Some (r, nd') \<and> promises_kept nd nd')) \<and>
     (\<forall>clock t a oc. clock_ok clock \<longrightarrow> length (getReplyAddress t) \<le> 12 \<longrightarrow>
        (\<forall>b bytes. nd_tcp_backend nd = Some b \<longrightarrow> be_sendAll B bytes b \<noteq> None) \<longrightarrow>
        (\<forall>data. length (getTargetSpaceWireAddress t) + length data + 29 \<le> INT_MAX \<longrightarrow>
           (\<exists>opn nd'. startWriteAsyncOperation B clock t a data oc nd = Some (opn, nd') \<and> started_ok nd opn nd')) \<and>
        (\<forall>l. length (getTargetSpaceWireAddress t) + 29 \<le> INT_MAX \<longrightarrow>
           (\<exists>opn nd'. startReadAsyncOperation B clock t a l oc nd = Some (opn, nd') \<and> started_ok nd opn nd')))"
proof -
  from node_derived.safe_steps [OF assms(1,3)] new_node_inv [OF assms(2), of backend user]
  have inv: "node_inv nd" by (simp add: safe_step_def)
  have "\<exists>nd'. cancelTransaction tid nd = Some nd' \<and> promises_kept nd nd'"
    using cancelTransaction_eq [OF inv, of tid] safe_step_cancel [of tid nd] inv by (simp add: safe_step_def)
  moreover have "\<exists>opn nd'. startWriteAsyncOperation B clock t a data oc nd = Some (opn, nd') \<and> started_ok nd opn nd'"
    if "clock_ok clock" "length (getReplyAddress t) \<le> 12"
      "\<forall>b bytes. nd_tcp_backend nd = Some b \<longrightarrow> be_sendAll B bytes b \<noteq> None"
      "length (getTargetSpaceWireAddress t) + length data + 29 \<le> INT_MAX" for clock t a data oc
    unfolding startWriteAsyncOperation_def
    using that by (intro start_returns [OF inv that(1) senders_keep_core(1)] sendWritePacket_returns) auto
  moreover have "\<exists>opn nd'. startReadAsyncOperation B clock t a l oc nd = Some (opn, nd') \<and> started_ok nd opn nd'"
    if "clock_ok clock" "length (getReplyAddress t) \<le> 12"
      "\<forall>b bytes. nd_tcp_backend nd = Some b \<longrightarrow> be_sendAll B bytes b \<noteq> None"
      "length (getTargetSpaceWireAddress t) + 29 \<le> INT_MAX" for clock t a l oc
    unfolding startReadAsyncOperation_def
    using that by (intro start_returns [OF inv that(1) senders_keep_core(2)] sendReadPacket_returns) auto
  ultimately show ?thesis using reply_returns [OF inv] by blast
qed

text \<open>C17. Only \<open>cancelTransaction_\<close> breaks a promise: whenever a step of a reachable node leaves a future without
  a value and without an owner of its promise, the step has cancelled the operation in flight to which that promise
  belongs. Replies, evictions, failed sends, polling and all the other operations settle a promise before they drop it.\<close>

theorem only_cancel_breaks_promise:
  assumes "node_derived this" and "cf_transaction_id_min config \<le> cf_transaction_id_max config"
    and "(node_step B this)\<^sup>*\<^sup>* (SpwRmapTCPNodeImpl backend config user) nd" and "node_step B this nd nd'"
    and "future_status p nd' = Some Future_broken" and "future_status p nd \<noteq> Some Future_broken"
  shows "\<exists>t rc. cancelTransaction t nd = Some nd' \<and> \<not> tid_out_of_range t nd \<and>
     nd_reply_callback nd ! tid_index t nd = Some rc \<and> rc_promise rc = p"
proof -
  from node_derived.safe_steps [OF assms(1,3)] new_node_inv [OF assms(2), of backend user]
  have inv: "node_inv nd" by (simp add: safe_step_def)
  from node_derived.node_step_breaks [OF assms(1,4) inv] assms(5,6) obtain t where
    t: "cancelTransaction t nd = Some nd'" by (auto simp: breaks_none_def)
  from cancel_breaks [OF this inv assms(5,6)] t show ?thesis by metis
qed

text \<open>The sample node after it has started a write.\<close>

lemma sample_started:
  obtains nd b where "(node_step (TCPClient_backend pipe_sys) (SpwRmapTCPClient_methods pipe_sys))\<^sup>*\<^sup>* sample_node nd"
    "nd_tcp_backend nd = Some b" "tc_fd b = 3" "node_inv nd" "id_count nd = 2" "nd_promises nd = [None]"
    "nd_reply_callback nd ! 0 = Some \<lparr>rc_on_complete = (\<lambda>pk u. Some (Returns (), u)), rc_promise = 0,
       rc_transaction_id = 0x20, rc_tx_index = 0\<rparr>"
    "tid_index 0x20 nd = 0" "\<not> tid_out_of_range 0x20 nd" "\<not> nd_available nd ! 0"
proof -
  have "length (getReplyAddress sample_target) \<le> 12"
    "send_room sample_node (WritePacketBuilder_getTotalSize
       (write_config sample_target (slot_id sample_node 0) 0x100 [1, 2] sample_node))"
    by (simp_all add: sample_target_def getReplyAddress_def WritePacketBuilder_getTotalSize_def send_room_def
        write_config_def getTargetSpaceWireAddress_def INT_MAX_def)
  note w = pipe.client.startWrite_stream [OF sample_node_inv zero_clock sample_first_free sample_node_fields(8) _ this,
      where oc = "\<lambda>pk u. Some (Returns (), u)", unfolded sample_node_fields slot_id_sample list.size append_Nil]
  obtain nd b where s: "startWriteAsyncOperation (TCPClient_backend pipe_sys) (\<lambda>_. 0) sample_target 0x100 [1, 2]
       (\<lambda>pk u. Some (Returns (), u)) sample_node = Some (\<lparr>op_future = 0, op_transaction_id = Some 0x20\<rparr>, nd)"
    and x: "nd_tcp_backend nd = Some b" "tc_fd b = 3" "node_inv nd"
      "nd_reply_callback nd ! 0 = Some \<lparr>rc_on_complete = (\<lambda>pk u. Some (Returns (), u)), rc_promise = 0,
       rc_transaction_id = 0x20, rc_tx_index = 0\<rparr>"
      "id_count nd = 2" "slot_id nd 0 = 0x20" "nd_promises nd = [None]"
    by (rule w) (simp, rule that, assumption+)
  have i: "0 < id_count nd" using x(5) by simp
  from s have "(node_step (TCPClient_backend pipe_sys) (SpwRmapTCPClient_methods pipe_sys))\<^sup>*\<^sup>* sample_node nd"
    by (intro r_into_rtranclp step_write [OF _ zero_clock])
  moreover have "tid_index 0x20 nd = 0" "\<not> tid_out_of_range 0x20 nd" using tid_index_slot_id [OF i] x(6) by simp_all
  moreover have "\<not> nd_available nd ! 0" using x(3,4) i by (auto elim: slot_cases)
  ultimately show thesis using x by (intro that)
qed

lemma sample_range: "cf_transaction_id_min sample_config \<le> cf_transaction_id_max sample_config"
  by (simp add: sample_config_def)

theorem reachable_table_consistent_witness:
  "\<exists>nd. (node_step (TCPClient_backend pipe_sys) (SpwRmapTCPClient_methods pipe_sys))\<^sup>*\<^sup>* sample_node nd \<and>
     \<not> nd_available nd ! 0 \<and> node_inv nd"
proof -
  obtain nd where nd: "(node_step (TCPClient_backend pipe_sys) (SpwRmapTCPClient_methods pipe_sys))\<^sup>*\<^sup>* sample_node nd"
    "\<not> nd_available nd ! 0" by (rule sample_started)
  with reachable_table_consistent [OF client_node.node_derived_axioms sample_range nd(1) [unfolded sample_node_def]]
  show ?thesis by blast
qed

theorem only_cancel_breaks_promise_witness:
  "\<exists>nd nd' t rc. future_status 0 nd = Some Future_pending \<and> future_status 0 nd' = Some Future_broken \<and>
     cancelTransaction t nd = Some nd' \<and> nd_reply_callback nd ! tid_index t nd = Some rc \<and> rc_promise rc = 0 \<and>
     (node_step (TCPClient_backend pipe_sys) (SpwRmapTCPClient_methods pipe_sys))\<^sup>*\<^sup>* sample_node nd"
proof -
  obtain nd where nd: "(node_step (TCPClient_backend pipe_sys) (SpwRmapTCPClient_methods pipe_sys))\<^sup>*\<^sup>* sample_node nd"
    "node_inv nd" "id_count nd = 2" "nd_promises nd = [None]"
    "nd_reply_callback nd ! 0 = Some \<lparr>rc_on_complete = (\<lambda>pk u. Some (Returns (), u)), rc_promise = 0,
       rc_transaction_id = 0x20, rc_tx_index = 0\<rparr>"
    "tid_index 0x20 nd = 0" "\<not> tid_out_of_range 0x20 nd" by (rule sample_started)
  let ?nd = "drop_transaction 0 nd"
  have c: "cancelTransaction 0x20 nd = Some ?nd" using nd by (simp add: cancelTransaction_eq)
  have pending: "future_status 0 nd = Some Future_pending"
    using future_status_pending [OF nd(2) _ nd(5)] nd(3) by simp
  have broken: "future_status 0 ?nd = Some Future_broken"
    using drop_breaks [OF nd(2) _ nd(5)] nd(3) by simp
  from only_cancel_breaks_promise [OF client_node.node_derived_axioms sample_range nd(1) [unfolded sample_node_def]
      step_cancel [OF c] broken] pending broken nd(1) show ?thesis by (metis future_state.distinct(3) option.inject)
qed

theorem reachable_operations_return_witness:
  "\<exists>nd. (node_step (TCPClient_backend pipe_sys) (SpwRmapTCPClient_methods pipe_sys))\<^sup>*\<^sup>* sample_node nd \<and>
     \<not> nd_available nd ! 0 \<and> (\<exists>nd'. cancelTransaction 0x20 nd = Some nd' \<and> promises_kept nd nd') \<and>
     (\<exists>r nd'. handle_reply (empty_packet\<lparr>pk_transactionID := 0x20\<rparr>) nd = Some (r, nd') \<and> promises_kept nd nd') \<and>
     (\<exists>opn nd'. startWriteAsyncOperation (TCPClient_backend pipe_sys) (\<lambda>_. 0) sample_target 0x100 [1, 2]
        (\<lambda>pk u. Some (Returns (), u)) nd = Some (opn, nd') \<and> started_ok nd opn nd')"
proof -
  obtain nd b where nd: "(node_step (TCPClient_backend pipe_sys) (SpwRmapTCPClient_methods pipe_sys))\<^sup>*\<^sup>* sample_node nd"
    "nd_tcp_backend nd = Some b" "tc_fd b = 3"
    "nd_reply_callback nd ! 0 = Some \<lparr>rc_on_complete = (\<lambda>pk u. Some (Returns (), u)), rc_promise = 0,
       rc_transaction_id = 0x20, rc_tx_index = 0\<rparr>"
    "tid_index 0x20 nd = 0" "\<not> nd_available nd ! 0" by (rule sample_started)
  have "be_sendAll (TCPClient_backend pipe_sys) bs b' \<noteq> None" if "nd_tcp_backend nd = Some b'" for bs b'
    using pipe.client.send_all [of b' bs] that nd(2,3) by fastforce
  moreover have "length (getReplyAddress sample_target) \<le> 12"
    "length (getTargetSpaceWireAddress sample_target) + length [1, 2 :: u8] + 29 \<le> INT_MAX"
    by (simp_all add: sample_target_def getReplyAddress_def getTargetSpaceWireAddress_def INT_MAX_def)
  moreover have "rc_on_complete rc (empty_packet\<lparr>pk_transactionID := 0x20\<rparr>) (nd_user nd) \<noteq> None"
    if "nd_reply_callback nd ! tid_index (pk_transactionID (empty_packet\<lparr>pk_transactionID := 0x20\<rparr>)) nd = Some rc" for rc
    using that nd(4,5) by auto
  ultimately show ?thesis
    using reachable_operations_return [OF client_node.node_derived_axioms sample_range nd(1) [unfolded sample_node_def], of "0x20"]
      nd(1,6) zero_clock by blast
qed

section \<open>Receiving\<close>

text \<open>C15. Over a connection that delivers in chunks of any size, a packet that is split into any
  number of parts, with time codes in between and possibly after packets that ended in an error, is
  reassembled to exactly its bytes: the parser sees them and nothing else, its verdict is the
  result, and the bytes behind the packet stay in the connection.\<close>

theorem receive_reassembles:
  assumes "tcp_stream B live pending sent"
    and "nd_tcp_backend nd = Some b" and "live b"
    and "pending b = concat (map item_bytes items) @ frame 0 d @ rest" and "d \<noteq> []"
    and "items_fit (recv_room (nd_buffer_policy nd) (length (nd_recv_buf nd))) [] items"
    and "recv_room (nd_buffer_policy nd) (length (nd_recv_buf nd)) (length (assemble [] items) + length d)"
    and "parse (nd_packet nd) (assemble [] items @ d) = Some (st, pk)"
  shows "\<exists>b' nd'. recvAndParseOnePacket B nd =
       Some (if st = Success then Inr (length (assemble [] items @ d)) else Inl (make_error_code st), nd') \<and>
     nd_packet nd' = pk \<and> core nd' = core nd \<and> nd_tcp_backend nd' = Some b' \<and> pending b' = rest \<and>
     take (length (assemble [] items @ d)) (nd_recv_buf nd') = assemble [] items @ d"
proof -
  have "take (length []) (nd_recv_buf nd) = []" by simp
  from tcp_stream.recv_packet_loop_stream [OF assms(1-4) this assms(6,5,7,8)] obtain b' buf where
    "recv_packet_loop B 0 0 nd =
      Some (if st = Success then Inr (length (assemble [] items @ d)) else Inl (make_error_code st),
        nd\<lparr>nd_tcp_backend := Some b', nd_recv_buf := buf, nd_packet := pk\<rparr>)"
    "take (length (assemble [] items @ d)) buf = assemble [] items @ d" "pending b' = rest" by auto
  with assms(2) show ?thesis by (auto simp: recvAndParseOnePacket_def)
qed

definition split_items :: "wire_item list" where
  "split_items = [Discard [1, 2, 3], More (take 4 (write_reply_packet sample_write_reply)), Timecode False 7]"

definition split_pipe :: pipe where
  "split_pipe = \<lparr>pp_in = concat (map item_bytes split_items) @
     frame 0 (drop 4 (write_reply_packet sample_write_reply)) @ [9], pp_out = [], pp_step = 2, pp_open = [3]\<rparr>"

definition receiving_node :: "(pipe tcp_client, unit) node" where
  "receiving_node = sample_node\<lparr>nd_tcp_backend := Some \<lparr>tc_fd = 3, tc_ip_address = ''localhost'',
     tc_port = ''10030'', tc_sys = split_pipe\<rparr>\<rparr>"

theorem receive_reassembles_witness:
  "\<exists>b' nd'. recvAndParseOnePacket (TCPClient_backend pipe_sys) receiving_node = Some (Inr 11, nd') \<and>
     nd_packet nd' = write_reply_decoded sample_write_reply empty_packet \<and>
     nd_tcp_backend nd' = Some b' \<and> pp_in (tc_sys b') = [9]"
proof -
  let ?p = "write_reply_packet sample_write_reply"
  have wf: "write_reply_wf sample_write_reply"
    by (simp add: write_reply_wf_def path_ok_def sample_write_reply_def)
  have len: "length ?p = 11"
    by (simp add: length_write_reply_packet WriteReplyPacketBuilder_getTotalSize_def sample_write_reply_def)
  have as: "assemble [] split_items = take 4 ?p" by (simp add: split_items_def)
  have ne: "drop 4 ?p \<noteq> []" using len by auto
  let ?b = "\<lparr>tc_fd = 3, tc_ip_address = ''localhost'', tc_port = ''10030'', tc_sys = split_pipe\<rparr>"
  have "nd_tcp_backend receiving_node = Some ?b" "tc_fd ?b = 3"
    "pp_in (tc_sys ?b) = concat (map item_bytes split_items) @ frame 0 (drop 4 ?p) @ [9]"
    "items_fit (recv_room (nd_buffer_policy receiving_node) (length (nd_recv_buf receiving_node))) [] split_items"
    "recv_room (nd_buffer_policy receiving_node) (length (nd_recv_buf receiving_node))
       (length (assemble [] split_items) + length (drop 4 ?p))"
    "parse (nd_packet receiving_node) (assemble [] split_items @ drop 4 ?p) =
       Some (Success, write_reply_decoded sample_write_reply empty_packet)"
    using len ne parse_write_reply_packet [OF wf, of empty_packet]
    by (auto simp: receiving_node_def split_pipe_def split_items_def recv_room_def VECTOR_MAX_SIZE_def)
  note facts = this
  from receive_reassembles [OF pipe.client.tcp_stream_axioms facts(1,2,3) ne facts(4-6)]
  show ?thesis using len by (auto simp: as)
qed

section \<open>Sending\<close>

text \<open>Sending a write command, every outcome: without a connection and, under the fixed policy,
  with a buffer that is too small, an error and an unchanged node; otherwise the backend is handed
  exactly one end-of-packet frame that holds the encoded command, after growing the buffer if it
  has to grow.\<close>

lemma sendWritePacket_outcome:
  fixes nd :: "('b, 'u) node" and t tid a data
  assumes "length (getReplyAddress t) \<le> 12"
    and "WritePacketBuilder_getTotalSize (write_config t tid a data nd) \<le> INT_MAX"
  shows "sendWritePacket B t tid a data nd = (case nd_tcp_backend nd of
       None \<Rightarrow> Some (Inl (Generic not_connected), nd)
     | Some b \<Rightarrow>
         let p = write_packet (write_config t tid a data nd)
         in if length (nd_send_buf nd) < length p + 12 \<and> nd_buffer_policy nd = Fixed
            then Some (Inl (Generic no_buffer_space), nd)
            else do {
              (res, b) \<leftarrow> be_sendAll B (frame 0 p) b;
              Some (res, nd\<lparr>nd_send_buf := frame 0 p @ drop (length p + 12) (nd_send_buf nd),
                            nd_tcp_backend := Some b\<rparr>)
            })"
  unfolding sendWritePacket_eq [OF assms] send_frame_def Let_def length_write_packet ..

lemma sendWritePacket_outcome_witness:
  "\<exists>nd' b'. sendWritePacket (TCPClient_backend pipe_sys) sample_target 0x20 0x100 (replicate 60 7) sample_node =
     Some (Inr (), nd') \<and> nd_tcp_backend nd' = Some b' \<and>
     pp_out (tc_sys b') = frame 0 (write_packet (write_config sample_target 0x20 0x100 (replicate 60 7) sample_node))"
proof -
  let ?c = "write_config sample_target 0x20 0x100 (replicate 60 7) sample_node"
  have "length (getReplyAddress sample_target) \<le> 12" "WritePacketBuilder_getTotalSize ?c \<le> INT_MAX"
    by (simp_all add: sample_target_def getReplyAddress_def WritePacketBuilder_getTotalSize_def
        write_config_def getTargetSpaceWireAddress_def INT_MAX_def)
  note eq = sendWritePacket_outcome [OF this, of "TCPClient_backend pipe_sys"]
  have "tc_fd \<lparr>tc_fd = 3, tc_ip_address = ''localhost'', tc_port = ''10030'', tc_sys = sample_pipe\<rparr> = 3"
    by simp
  from pipe.client.send_all [OF this, of "frame 0 (write_packet ?c)"] obtain b' where
    "be_sendAll (TCPClient_backend pipe_sys) (frame 0 (write_packet ?c))
       \<lparr>tc_fd = 3, tc_ip_address = ''localhost'', tc_port = ''10030'', tc_sys = sample_pipe\<rparr> = Some (Inr (), b')"
    "pp_out (tc_sys b') = frame 0 (write_packet ?c)" by (auto simp: sample_pipe_def)
  then show ?thesis unfolding eq by (simp add: Let_def)
qed

text \<open>C22. Sending a read command refuses every buffer that cannot hold the packet and its frame header,
  under the growing policy too: the buffer is grown, if at all, by too little.\<close>

theorem sendReadPacket_outcome:
  fixes nd :: "('b, 'u) node" and t tid a l
  assumes "length (getReplyAddress t) \<le> 12"
    and "ReadPacketBuilder_getTotalSize (read_config t tid a l nd) \<le> INT_MAX"
  shows "\<exists>buf. sendReadPacket B t tid a l nd = (case nd_tcp_backend nd of
       None \<Rightarrow> Some (Inl (Generic not_connected), nd)
     | Some b \<Rightarrow>
         let p = read_packet (read_config t tid a l nd)
         in if length (nd_send_buf nd) < length p + 12
            then Some (Inl (Generic no_buffer_space), nd\<lparr>nd_send_buf := buf\<rparr>)
            else do {
              (res, b) \<leftarrow> be_sendAll B (frame 0 p) b;
              Some (res, nd\<lparr>nd_send_buf := frame 0 p @ drop (length p + 12) (nd_send_buf nd),
                            nd_tcp_backend := Some b\<rparr>)
            })"
  unfolding sendReadPacket_eq [OF assms] send_frame_def Let_def length_read_packet
  by (rule exI) (rule refl)

theorem sendReadPacket_outcome_witness:
  "\<exists>buf. sendReadPacket (TCPClient_backend pipe_sys) sample_target 0x20 0x100 4
       (sample_node\<lparr>nd_send_buf := replicate 20 0\<rparr>) =
     Some (Inl (Generic no_buffer_space), sample_node\<lparr>nd_send_buf := buf\<rparr>)"
proof -
  let ?nd = "sample_node\<lparr>nd_send_buf := replicate 20 0\<rparr>"
  have "length (getReplyAddress sample_target) \<le> 12"
    "ReadPacketBuilder_getTotalSize (read_config sample_target 0x20 0x100 4 ?nd) \<le> INT_MAX"
    by (simp_all add: sample_target_def getReplyAddress_def ReadPacketBuilder_getTotalSize_def
        read_config_def getTargetSpaceWireAddress_def INT_MAX_def)
  note ex = sendReadPacket_outcome [OF this, of "TCPClient_backend pipe_sys"]
  have "length (read_packet (read_config sample_target 0x20 0x100 4 ?nd)) = 22"
    by (simp add: length_read_packet ReadPacketBuilder_getTotalSize_def read_config_def sample_target_def
        getReplyAddress_def getTargetSpaceWireAddress_def)
  with ex show ?thesis by (auto simp: Let_def)
qed

section \<open>Operations that fail to start\<close>

text \<open>C20. An operation whose packet cannot be sent leaves nothing behind: its future holds the error of
  the sender, it reports no transaction identifier, and the table is as it was.\<close>

theorem failed_start_leaves_no_trace:
  assumes "node_inv nd" and "clock_ok clock" and "keeps_core sender" and "first_free nd = Some i"
    and "sender (slot_id nd i) (registered i clock oc nd) = Some (Inl e, nd1)"
  shows "\<exists>nd'. startAsyncOperation sender clock oc nd =
       Some (\<lparr>op_future = length (nd_promises nd), op_transaction_id = None\<rparr>, nd') \<and> node_inv nd' \<and>
     nd_promises nd' = nd_promises nd @ [Some (Inl e)] \<and> nd_available nd' = nd_available nd \<and>
     nd_reply_callback nd' = nd_reply_callback nd \<and> nd_reply_error_callback nd' = nd_reply_error_callback nd"
proof -
  note acq = acquired_first_free [OF assms(4), where clock = clock and ps = "nd_promises nd @ [None]"]
  let ?p = "length (nd_promises nd)"
  have start: "startAsyncOperation sender clock oc nd =
      Some (\<lparr>op_future = ?p, op_transaction_id = None\<rparr>, settle i ?p (Inl e) nd1)"
    unfolding startAsyncOperation_eq [OF assms(1-3)] acq
    using assms(5) by (simp add: registered_def [symmetric])
  have core: "core nd1 = core (registered i clock oc nd)" using assms(3,5) by (simp add: keeps_core_def)
  have i: "i < id_count nd" "nd_available nd ! i" using assms(4) unfolding first_free_def find_upt_Some by auto
  have free: "nd_reply_callback nd ! i = None" "nd_reply_error_callback nd ! i = None"
    using assms(1) i by (auto elim: slot_cases)
  have "safe_step nd (settle i ?p (Inl e) nd1)" by (rule safe_step_start [OF start assms(2,3)])
  then have "node_inv (settle i ?p (Inl e) nd1)" using assms(1) by (simp add: safe_step_def)
  moreover have "(nd_available nd)[i := True] = nd_available nd"
    "(nd_reply_callback nd)[i := None] = nd_reply_callback nd"
    "(nd_reply_error_callback nd)[i := None] = nd_reply_error_callback nd"
    using i free by (simp_all add: list_update_same_conv shape_lengths [OF assms(1)])
  ultimately show ?thesis
    using core_fields(1-3,16) [OF core] start
    by (simp add: settle_def drop_transaction_def registered_def register_def acquire_def)
qed

theorem failed_start_leaves_no_trace_witness:
  "\<exists>nd'. startWriteAsyncOperation (TCPClient_backend pipe_sys) (\<lambda>_. 0) sample_target 0x100 [1]
       (\<lambda>pk u. Some (Returns (), u)) (sample_node\<lparr>nd_tcp_backend := None\<rparr>) =
     Some (\<lparr>op_future = 0, op_transaction_id = None\<rparr>, nd') \<and>
     nd_promises nd' = [Some (Inl (Generic not_connected))] \<and> nd_available nd' = [True, True]"
proof -
  let ?nd = "sample_node\<lparr>nd_tcp_backend := None\<rparr>" and ?oc = "\<lambda>pk u. Some (Returns (), u)"
  have inv: "node_inv ?nd" using node_inv_table [of ?nd sample_node] sample_node_inv by simp
  have ff: "first_free ?nd = Some 0" by (simp add: first_free_def id_count_def find_upt_Some)
  have "sendWritePacket (TCPClient_backend pipe_sys) sample_target (slot_id ?nd 0) 0x100 [1]
      (registered 0 (\<lambda>_. 0) ?oc ?nd) = Some (Inl (Generic not_connected), registered 0 (\<lambda>_. 0) ?oc ?nd)"
    by (simp add: sendWritePacket_def)
  from failed_start_leaves_no_trace [OF inv zero_clock senders_keep_core(1) ff this]
  show ?thesis by (auto simp: startWriteAsyncOperation_def)
qed

section \<open>Synchronous operations\<close>

lemma sync_attempts_silent:
  assumes "tcp_stream B live pending sent" and "\<And>attempt. clock_ok (clock attempt)"
    and "node_inv nd" "first_free nd = Some i" "nd_tcp_backend nd = Some b" "live b"
    and "length (getReplyAddress t) \<le> 12"
    and "send_room nd (WritePacketBuilder_getTotalSize (write_config t (slot_id nd i) a data nd))"
  shows "\<exists>nd' b'. sync_attempts (\<lambda>attempt. startWriteAsyncOperation B (clock attempt) t a data oc)
       (\<lambda>attempt p nd. Some nd) k attempt nd = Some (Inl (Generic timed_out), nd') \<and>
     nd_available nd' = nd_available nd \<and> node_inv nd' \<and> nd_tcp_backend nd' = Some b' \<and>
     sent b' = sent b @ concat (replicate k (frame 0 (write_packet (write_config t (slot_id nd i) a data nd))))"
  using assms(3-8)
proof (induction k arbitrary: attempt nd b)
  case 0
  then show ?case by auto
next
  case (Suc k)
  let ?c = "write_config t (slot_id nd i) a data nd"
  from tcp_stream.startWrite_stream [OF assms(1) Suc.prems(1) assms(2) Suc.prems(2-6)]
  obtain nd1 b1 where start: "startWriteAsyncOperation B (clock attempt) t a data oc nd =
      Some (\<lparr>op_future = length (nd_promises nd), op_transaction_id = Some (slot_id nd i)\<rparr>, nd1)"
    and nd1: "nd_tcp_backend nd1 = Some b1" "live b1" "sent b1 = sent b @ frame 0 (write_packet ?c)"
      "node_inv nd1"
    and cb: "nd_reply_callback nd1 ! i = Some \<lparr>rc_on_complete = oc, rc_promise = length (nd_promises nd),
        rc_transaction_id = slot_id nd i, rc_tx_index = i\<rparr>"
    and i: "i < id_count nd" "id_count nd1 = id_count nd" "slot_id nd1 i = slot_id nd i"
    and core: "core nd1 = core (registered i (clock attempt) oc nd)"
    and buf: "length (nd_send_buf nd) \<le> length (nd_send_buf nd1)" by metis
  let ?nd2 = "drop_transaction i nd1"
  have idx: "tid_index (slot_id nd i) nd1 = i" "\<not> tid_out_of_range (slot_id nd i) nd1"
    using tid_index_slot_id [of i nd1] i by auto
  then have cancel: "cancelTransaction (slot_id nd i) nd1 = Some ?nd2"
    using cancelTransaction_eq [OF nd1(4)] by simp
  have avail: "nd_available nd ! i" using Suc.prems(2) by (simp add: first_free_def find_upt_Some)
  have av2: "nd_available ?nd2 = nd_available nd"
    using core_fields(3) [OF core] avail shape_lengths [OF Suc.prems(1)] i
    by (simp add: drop_transaction_def registered_def register_def acquire_def list_update_same_conv)
  have cfg: "write_config t (slot_id ?nd2 i) a data ?nd2 = ?c"
    using core_fields(5,14) [OF core] i
    by (simp add: write_config_def drop_transaction_def slot_id_def registered_def register_def acquire_def)
  have "node_inv ?nd2" using drop_transaction_inv [OF nd1(4)] i by simp
  moreover have "first_free ?nd2 = Some i"
    using Suc.prems(2) i by (simp add: first_free_def av2)
  moreover have "nd_tcp_backend ?nd2 = Some b1" using nd1(1) by (simp add: drop_transaction_def)
  moreover have "send_room ?nd2 (WritePacketBuilder_getTotalSize (write_config t (slot_id ?nd2 i) a data ?nd2))"
    unfolding cfg using Suc.prems(6) buf core_fields(8) [OF core]
    by (auto simp: send_room_def drop_transaction_def)
  ultimately have "\<exists>nd' b'. sync_attempts (\<lambda>attempt. startWriteAsyncOperation B (clock attempt) t a data oc)
       (\<lambda>attempt p nd. Some nd) k (Suc attempt) ?nd2 = Some (Inl (Generic timed_out), nd') \<and>
     nd_available nd' = nd_available nd \<and> node_inv nd' \<and> nd_tcp_backend nd' = Some b' \<and>
     sent b' = sent b1 @ concat (replicate k (frame 0 (write_packet ?c)))"
    using Suc.IH [of ?nd2 b1 "Suc attempt"] nd1(2) Suc.prems(5) unfolding cfg av2 by blast
  moreover have "future_status (length (nd_promises nd)) nd1 = Some Future_pending"
    using future_status_pending [OF nd1(4) _ cb] i by simp
  ultimately show ?case using nd1(3) by (simp add: start cancel)
qed

text \<open>C21. A synchronous write to a target that never answers gives up after exactly the requested number
  of attempts (one, if zero are requested) with \<open>timed_out\<close>. Each attempt has sent the same frame,
  with the same identifier, and every identifier is free again.\<close>

theorem silent_write_times_out:
  assumes "tcp_stream B live pending sent" and "\<And>attempt. clock_ok (clock attempt)"
    and "node_inv nd" and "first_free nd = Some i" and "nd_tcp_backend nd = Some b" and "live b"
    and "length (getReplyAddress t) \<le> 12"
    and "send_room nd (WritePacketBuilder_getTotalSize (write_config t (slot_id nd i) a data nd))"
  shows "\<exists>nd' b'. write_sync B clock (\<lambda>attempt p nd. Some nd) t a data retry_count nd =
       Some (Inl (Generic timed_out), nd') \<and>
     nd_available nd' = nd_available nd \<and> node_inv nd' \<and> nd_tcp_backend nd' = Some b' \<and>
     sent b' = sent b @ concat (replicate (max 1 retry_count)
       (frame 0 (write_packet (write_config t (slot_id nd i) a data nd))))"
proof -
  have "attempts retry_count = max 1 retry_count" by (simp add: attempts_def)
  with sync_attempts_silent [OF assms, where oc = "\<lambda>packet user. Some (Returns (), user)" and
      k = "attempts retry_count" and attempt = 0]
  show ?thesis by (simp add: write_sync_def)
qed

theorem silent_write_times_out_witness:
  "\<exists>nd' b'. write_sync (TCPClient_backend pipe_sys) (\<lambda>_ _. 0) (\<lambda>attempt p nd. Some nd) sample_target 0x100
       [1, 2] 3 sample_node = Some (Inl (Generic timed_out), nd') \<and> nd_available nd' = [True, True] \<and>
     nd_tcp_backend nd' = Some b' \<and> pp_out (tc_sys b') = concat (replicate 3
       (frame 0 (write_packet (write_config sample_target 0x20 0x100 [1, 2] sample_node))))"
proof -
  let ?b = "\<lparr>tc_fd = 3, tc_ip_address = ''localhost'', tc_port = ''10030'', tc_sys = sample_pipe\<rparr>"
  have "length (getReplyAddress sample_target) \<le> 12" "tc_fd ?b = 3"
    "send_room sample_node (WritePacketBuilder_getTotalSize
       (write_config sample_target (slot_id sample_node 0) 0x100 [1, 2] sample_node))"
    by (simp_all add: sample_target_def getReplyAddress_def WritePacketBuilder_getTotalSize_def send_room_def
        write_config_def getTargetSpaceWireAddress_def INT_MAX_def)
  note facts = this
  from silent_write_times_out [OF pipe.client.tcp_stream_axioms zero_clock sample_node_inv sample_first_free
      sample_node_fields(8) facts(2,1,3), of 3]
  show ?thesis by (auto simp: sample_pipe_def)
qed

end
