(* ===== verification/Node_Session.thy ===== *)
theory Node_Session
  imports Node_Properties
begin

unbundle bit_operations_syntax

text \<open>
  Whole sessions of a node that serves: an abstract server, the refinement of it by
  \<open>runLoop\<close>, the end of the connection between and inside packets, and time codes. The
  sample server here is also one end of the transactions of the root theory.
\<close>

section \<open>What a server does\<close>

text \<open>
  The abstract server: commands in, replies out, one reply per command, in order. \<open>f\<close> and \<open>g\<close> are the
  write and the read handler. The parser's packet is part of the state because every packet is
  parsed over the fields of the one before. The specification is undefined where a command is not
  well-formed, does not fit a buffer, or a handler throws.
\<close>

datatype command = Write_command WritePacketConfig | Read_command ReadPacketConfig

fun command_packet :: "command \<Rightarrow> bytes" where
  "command_packet (Write_command c) = write_packet c"
| "command_packet (Read_command c) = read_packet c"

fun command_wf :: "command \<Rightarrow> bool" where
  "command_wf (Write_command c) \<longleftrightarrow> write_wf c"
| "command_wf (Read_command c) \<longleftrightarrow> read_wf c"

fun answer :: "'u completion \<Rightarrow> 'u on_read \<Rightarrow> command \<Rightarrow> packet \<Rightarrow> 'u \<Rightarrow> (bytes \<times> packet \<times> 'u) option" where
  "answer f g (Write_command c) pk user =
    (let pk = write_decoded c pk
     in case f pk user of
          Some (Returns _, user) \<Rightarrow> Some (write_reply_packet (write_reply_config pk), pk, user)
        | _ \<Rightarrow> None)"
| "answer f g (Read_command c) pk user =
    (let pk = read_decoded c pk
     in case g pk user of
          Some (Returns data, user) \<Rightarrow> Some (read_reply_packet (read_reply_config pk data), pk, user)
        | _ \<Rightarrow> None)"

fun serve ::
    "(nat \<Rightarrow> bool) \<Rightarrow> (nat \<Rightarrow> bool) \<Rightarrow> 'u completion \<Rightarrow> 'u on_read \<Rightarrow> command list \<Rightarrow> packet \<Rightarrow> 'u \<Rightarrow>
     (bytes list \<times> 'u) option" where
  "serve fits_in fits_out f g [] pk user = Some ([], user)"
| "serve fits_in fits_out f g (c # cs) pk user =
    (if command_wf c \<and> fits_in (length (command_packet c)) then do {
       (reply, pk, user) \<leftarrow> answer f g c pk user;
       if fits_out (length reply) then do {
         (replies, user) \<leftarrow> serve fits_in fits_out f g cs pk user;
         Some (reply # replies, user)
       }
       else None
     }
     else None)"

lemma answer_writeE:
  assumes "answer f g (Write_command c) pk user = Some (reply, pk', user')"
  obtains "f (write_decoded c pk) user = Some (Returns (), user')" "pk' = write_decoded c pk"
    "reply = write_reply_packet (write_reply_config pk')"
proof (cases "f (write_decoded c pk) user")
  case (Some x)
  then show thesis using assms that by (cases x; cases "fst x") (auto simp: Let_def)
qed (use assms in \<open>simp add: Let_def\<close>)

lemma answer_readE:
  assumes "answer f g (Read_command c) pk user = Some (reply, pk', user')"
  obtains data where "g (read_decoded c pk) user = Some (Returns data, user')" "pk' = read_decoded c pk"
    "reply = read_reply_packet (read_reply_config pk' data)"
proof (cases "g (read_decoded c pk) user")
  case (Some x)
  then show thesis using assms that by (cases x; cases "fst x") (auto simp: Let_def)
qed (use assms in \<open>simp add: Let_def\<close>)

context tcp_stream
begin

lemma poll_command:
  assumes "nd_tcp_backend nd = Some b" "live b" "pending b = frame 0 (command_packet c) @ rest"
    and "command_wf c" "recv_room (nd_buffer_policy nd) (length (nd_recv_buf nd)) (length (command_packet c))"
    and "nd_on_write nd = Some f" "nd_on_read nd = Some g"
    and "answer f g c (nd_packet nd) (nd_user nd) = Some (reply, pk, user)" "send_room nd (length reply)"
  shows "\<exists>b' nd'. poll B this nd = Some (Inr True, nd') \<and> nd_tcp_backend nd' = Some b' \<and>
     sent b' = sent b @ frame 0 reply \<and> pending b' = rest \<and> live b' \<and> answered nd nd' user \<and> nd_packet nd' = pk"
proof (cases c)
  case (Write_command wc)
  from answer_writeE [OF assms(8) [unfolded Write_command]] have out: "f (write_decoded wc (nd_packet nd)) (nd_user nd) = Some (Returns (), user)"
    and r: "reply = write_reply_packet (write_reply_config (write_decoded wc (nd_packet nd)))"
      "pk = write_decoded wc (nd_packet nd)" by metis+
  have "length reply = length (wr_replyAddress wc) + 8"
    unfolding r(1) length_write_reply_packet
    by (simp add: WriteReplyPacketBuilder_getTotalSize_def write_reply_config_def write_decoded_def)
  then have "pending b = frame 0 (write_packet wc) @ rest" "write_wf wc" "send_room nd (length (wr_replyAddress wc) + 8)"
    "recv_room (nd_buffer_policy nd) (length (nd_recv_buf nd)) (WritePacketBuilder_getTotalSize wc)"
    using assms(3-5,9) Write_command by (simp_all add: length_write_packet)
  from poll_write_command [OF assms(1,2) this(1,2,4) assms(6) out this(3)] show ?thesis unfolding r .
next
  case (Read_command rc)
  from answer_readE [OF assms(8) [unfolded Read_command]] obtain data where
    out: "g (read_decoded rc (nd_packet nd)) (nd_user nd) = Some (Returns data, user)"
    and r: "reply = read_reply_packet (read_reply_config (read_decoded rc (nd_packet nd)) data)"
      "pk = read_decoded rc (nd_packet nd)" by metis
  have "length reply = length (rd_replyAddress rc) + 12 + length data + 1"
    unfolding r(1) length_read_reply_packet
    by (simp add: ReadReplyPacketBuilder_getTotalSize_def read_reply_config_def read_decoded_def)
  then have "pending b = frame 0 (read_packet rc) @ rest" "read_wf rc"
    "send_room nd (length (rd_replyAddress rc) + 12 + length data + 1)"
    "recv_room (nd_buffer_policy nd) (length (nd_recv_buf nd)) (ReadPacketBuilder_getTotalSize rc)"
    using assms(3-5,9) Read_command by (simp_all add: length_read_packet)
  from poll_read_command [OF assms(1,2) this(1,2,4) assms(7) out this(3)] show ?thesis unfolding r .
qed

lemma run_loop_commands:
  assumes "nd_tcp_backend nd = Some b" "live b" "pending b = concat (map (\<lambda>c. frame 0 (command_packet c)) cs)"
    and "nd_running nd" "nd_on_write nd = Some f" "nd_on_read nd = Some g"
    and "serve (recv_room (nd_buffer_policy nd) (length (nd_recv_buf nd))) (send_room nd) f g cs
       (nd_packet nd) (nd_user nd) = Some (replies, user)"
  shows "\<exists>b' nd'. run_loop B this nd = run_loop B this nd' \<and> nd_tcp_backend nd' = Some b' \<and> live b' \<and>
     pending b' = [] \<and> sent b' = sent b @ concat (map (frame 0) replies) \<and> nd_running nd' \<and>
     nd_user nd' = user \<and> table nd' = table nd"
  using assms
proof (induction cs arbitrary: nd b replies)
  case Nil
  then show ?case by auto
next
  case (Cons c cs)
  let ?in = "recv_room (nd_buffer_policy nd) (length (nd_recv_buf nd))"
  from Cons.prems(7) obtain reply pk user1 replies' where c: "command_wf c" "?in (length (command_packet c))"
    and a: "answer f g c (nd_packet nd) (nd_user nd) = Some (reply, pk, user1)" "send_room nd (length reply)"
    and s: "serve ?in (send_room nd) f g cs pk user1 = Some (replies', user)" "replies = reply # replies'"
    by (auto elim!: bind_SomeE split: if_split_asm)
  have "pending b = frame 0 (command_packet c) @ concat (map (\<lambda>c. frame 0 (command_packet c)) cs)"
    using Cons.prems(3) by simp
  from poll_command [OF Cons.prems(1,2) this c Cons.prems(5,6) a, of this] obtain b1 nd1 where
    p: "poll B this nd = Some (Inr True, nd1)" "nd_tcp_backend nd1 = Some b1" "sent b1 = sent b @ frame 0 reply"
      "pending b1 = concat (map (\<lambda>c. frame 0 (command_packet c)) cs)" "live b1" "nd_packet nd1 = pk"
    and an: "answered nd nd1 user1" by blast
  note f = answered_fields [OF an]
  have mono: "serve ?in (send_room nd) f g cs pk user = Some y \<Longrightarrow>
      serve (recv_room (nd_buffer_policy nd1) (length (nd_recv_buf nd1))) (send_room nd1) f g cs pk user = Some y"
    for cs pk user y
  proof (induction cs arbitrary: pk user y)
    case (Cons c cs)
    have "recv_room (nd_buffer_policy nd1) (length (nd_recv_buf nd1)) n = ?in n"
      "send_room nd n \<Longrightarrow> send_room nd1 n" for n
      using an f(3) by (auto simp: answered_def recv_room_def send_room_def)
    with Cons show ?case by (auto elim!: bind_SomeE split: if_split_asm)
  qed simp
  have s1: "serve (recv_room (nd_buffer_policy nd1) (length (nd_recv_buf nd1))) (send_room nd1) f g cs
      (nd_packet nd1) (nd_user nd1) = Some (replies', user)"
    using mono [OF s(1)] f(1) p(6) by simp
  from Cons.IH [OF p(2,5,4) _ _ _ s1] Cons.prems(4-6) f p(3) s(2) show ?case
    by (subst run_loop.simps) (simp add: p(1))
qed

end

context tcp_stream_eof
begin

lemma recv_loop_short:
  assumes "live b" "length (pending b) < length buffer"
  shows "\<exists>buf b'. recv_loop B n filled buffer b = Some (Inr 0, buf, b') \<and> length buf = length filled + length buffer \<and>
     live b' \<and> pending b' = [] \<and> sent b' = sent b"
  using assms
proof (induction "length buffer" arbitrary: filled buffer b rule: less_induct)
  case less
  have ne: "buffer \<noteq> []" "0 < length buffer" using less.prems(2) by auto
  show ?case
  proof (cases "pending b = []")
    case True
    with ne less.prems(1) recv_eof [of b "length buffer"] show ?thesis by (simp add: recv_loop.simps)
  next
    case False
    from recv_step [OF less.prems(1) ne(2) False] obtain bs b1 where
      r: "be_recvSome B (length buffer) b = Some (Inr bs, b1)" "bs \<noteq> []" "length bs \<le> length buffer"
        "pending b = bs @ pending b1" "live b1" "sent b1 = sent b" by metis
    have "length (drop (length bs) buffer) < length buffer" using r(2) ne by simp
    from less.hyps [OF this r(5), of "filled @ bs"] less.prems(2) r ne show ?thesis
      by (subst recv_loop.simps) (auto simp: not_less)
  qed
qed

text \<open>The stream ends between packets: the node sees a packet of size zero.\<close>

lemma recv_at_end:
  assumes "nd_tcp_backend nd = Some b" "live b" "pending b = []"
  shows "\<exists>b'. recvAndParseOnePacket B nd = Some (Inr 0, nd\<lparr>nd_tcp_backend := Some b'\<rparr>) \<and>
     live b' \<and> pending b' = [] \<and> sent b' = sent b"
proof -
  from recv_loop_short [OF assms(2), of "replicate 12 0" 12 "[]"] assms(3) obtain buf b' where
    "recv_loop B 12 [] (replicate 12 0) b = Some (Inr 0, buf, b')" "live b'" "pending b' = []" "sent b' = sent b"
    by auto
  with assms(1) show ?thesis
    by (intro exI [of _ b']) (simp add: recvAndParseOnePacket_def recv_packet_loop.simps recv_turn_def recvExact_def)
qed

lemma run_loop_at_end:
  assumes "nd_tcp_backend nd = Some b" "live b" "pending b = []" "nd_running nd"
  obtains b' where "live b'" "pending b' = []" "sent b' = sent b"
    "run_loop B this nd = do {
       (res, nd) \<leftarrow> nm_shutdown this (nd\<lparr>nd_tcp_backend := Some b'\<rparr>);
       Some (res, nd)
     }"
proof -
  from recv_at_end [OF assms(1-3)] obtain b' where
    b': "recvAndParseOnePacket B nd = Some (Inr 0, nd\<lparr>nd_tcp_backend := Some b'\<rparr>)" "live b'" "pending b' = []"
      "sent b' = sent b" by blast
  have "run_loop B this nd = do {
       (res, nd) \<leftarrow> nm_shutdown this (nd\<lparr>nd_tcp_backend := Some b'\<rparr>);
       Some (res, nd) }"
    using assms(4) b'(1)
    by (subst run_loop.simps, cases "nm_shutdown this (nd\<lparr>nd_tcp_backend := Some b'\<rparr>)")
      (auto simp: poll_def split: sum.split)
  with b' that show thesis by blast
qed

text \<open>The stream ends inside a packet: the node parses the empty span.\<close>

lemma recv_cut_off:
  assumes "nd_tcp_backend nd = Some b" "live b" "pending b = frame_header 0 n @ p" "length p < n"
    and "recv_room (nd_buffer_policy nd) (length (nd_recv_buf nd)) n"
  shows "recvAndParseOnePacket B nd = None"
proof -
  have room: "0 < n" "recv_room (nd_buffer_policy nd) (length (nd_recv_buf nd)) (0 + n)" "0 \<le> length (nd_recv_buf nd)"
    using assms(4,5) by simp_all
  from recv_turn_header [OF assms(1-3) _ room] obtain b1 buf where
    t: "recv_turn B 0 0 nd = recv_body B (frame_header 0 n) n 0 0 (nd\<lparr>nd_tcp_backend := Some b1, nd_recv_buf := buf\<rparr>)"
    and b1: "pending b1 = p" "live b1" "n \<le> length buf" by (metis add_0 insertI1)
  have "length (pending b1) < length (take n buf)" using b1 assms(4) by simp
  from recv_loop_short [OF b1(2) this, of n "[]"] b1(3) obtain part b2 where
    "recv_loop B n [] (take n buf) b1 = Some (Inr 0, part, b2)" "length part = n" by auto
  moreover have "parse pk [] = None" for pk by (simp add: parse_def skip_path_def)
  ultimately show ?thesis
    using assms(1) t b1(3)
    by (simp add: recvAndParseOnePacket_def recv_packet_loop.simps recv_body_def recv_into_def recvExact_def
        parse_received_def)
qed

end

section \<open>Sessions\<close>

context posix_stream_eof
begin

lemma server_session:
  fixes nd :: "('w tcp_server, 'u) node"
  assumes sh: "\<And>fd w r w'. conn fd w \<Longrightarrow> sys_shutdown S fd w = (r, w') \<Longrightarrow> 0 \<le> r \<and> outq fd w' = outq fd w"
    and nd: "nd_tcp_backend nd = Some b" "conn (ts_client_fd b) (ts_sys b)"
      "inq (ts_client_fd b) (ts_sys b) = concat (map (\<lambda>c. frame 0 (command_packet c)) cs)"
      "nd_on_write nd = Some f" "nd_on_read nd = Some g"
    and serve: "serve (recv_room (nd_buffer_policy nd) (length (nd_recv_buf nd))) (send_room nd) f g cs
       (nd_packet nd) (nd_user nd) = Some (replies, user)"
  shows "\<exists>nd' b'. runLoop (TCPServer_backend S) (SpwRmapTCPServer_methods S) nd = Some (Inr (), nd') \<and>
     nd_tcp_backend nd' = Some b' \<and> nd_user nd' = user \<and> nd_shutdowned nd' \<and> table nd' = table nd \<and>
     outq (ts_client_fd b') (ts_sys b') = outq (ts_client_fd b) (ts_sys b) @ concat (map (frame 0) replies)"
proof -
  let ?srv = "SpwRmapTCPServer_methods S" and ?B = "TCPServer_backend S" and ?nd = "nd\<lparr>nd_running := True\<rparr>"
  have "send_room ?nd = send_room nd" by (simp add: send_room_def fun_eq_iff)
  with server.run_loop_commands [of ?nd b cs f g replies user ?srv] nd serve obtain b1 nd1 where
    r1: "run_loop ?B ?srv ?nd = run_loop ?B ?srv nd1" and nd1: "nd_tcp_backend nd1 = Some b1"
      "conn (ts_client_fd b1) (ts_sys b1)" "inq (ts_client_fd b1) (ts_sys b1) = []" "nd_running nd1"
    and f1: "outq (ts_client_fd b1) (ts_sys b1) = outq (ts_client_fd b) (ts_sys b) @ concat (map (frame 0) replies)"
      "nd_user nd1 = user" "table nd1 = table nd" by auto
  from server_eof.run_loop_at_end [OF nd1, of ?srv] obtain b2 where b2: "conn (ts_client_fd b2) (ts_sys b2)"
      "outq (ts_client_fd b2) (ts_sys b2) = outq (ts_client_fd b1) (ts_sys b1)"
    and r2: "run_loop ?B ?srv nd1 = do { (res, nd) \<leftarrow> nm_shutdown ?srv (nd1\<lparr>nd_tcp_backend := Some b2\<rparr>); Some (res, nd) }"
    by metis
  obtain r w where w: "sys_shutdown S (ts_client_fd b2) (ts_sys b2) = (r, w)"
    by (cases "sys_shutdown S (ts_client_fd b2) (ts_sys b2)")
  note sh [OF b2(1) w] conn_fd [OF b2(1)]
  then have "run_loop ?B ?srv nd1 = Some (Inr (), nd1\<lparr>nd_tcp_backend := Some (b2\<lparr>ts_sys := w\<rparr>), nd_shutdowned := True\<rparr>)"
    unfolding r2 by (simp add: SpwRmapTCPServer_methods_def SpwRmapTCPServer_shutdown_def on_backend_def TCPServer_shutdown_def w)
  with r1 f1 b2 sh [OF b2(1) w] show ?thesis by (simp add: runLoop_def)
qed

lemma server_cut_off:
  fixes nd :: "('w tcp_server, 'u) node"
  assumes "nd_tcp_backend nd = Some b" "conn (ts_client_fd b) (ts_sys b)"
    and "inq (ts_client_fd b) (ts_sys b) = frame_header 0 n @ p" "length p < n"
    and "recv_room (nd_buffer_policy nd) (length (nd_recv_buf nd)) n"
  shows "poll (TCPServer_backend S) this nd = None"
  using server_eof.recv_cut_off [OF assms] by (simp add: poll_def)

end

section \<open>Two nodes over a pipe\<close>

text \<open>A server whose write handler logs and whose read handler returns as many bytes as it is asked for.\<close>

definition log_write :: "(u32 \<times> bytes) list completion" where
  "log_write pk log = Some (Returns (), log @ [(pk_address pk, pk_data pk)])"

definition give_data :: "(u32 \<times> bytes) list on_read" where
  "give_data pk log = Some (Returns (replicate (unat (pk_dataLength pk)) 0x5A), log)"

definition server_config :: SpwRmapTCPNodeConfig where
  "server_config = sample_config\<lparr>cf_buffer_policy := Fixed\<rparr>"

definition sample_server :: "(pipe tcp_server, (u32 \<times> bytes) list) node" where
  "sample_server = registerOnRead (Some give_data) (registerOnWrite (Some log_write)
     (SpwRmapTCPNodeImpl (TCPServer sample_pipe) server_config []))"

lemma sample_server_fields [simp]:
  "nd_on_write sample_server = Some log_write" "nd_on_read sample_server = Some give_data"
  "nd_buffer_policy sample_server = Fixed" "length (nd_send_buf sample_server) = 64"
  "length (nd_recv_buf sample_server) = 64" "nd_user sample_server = []"
  "nd_packet sample_server = empty_packet"
  by (simp_all add: sample_server_def registerOnRead_def registerOnWrite_def SpwRmapTCPNodeImpl_def
      server_config_def sample_config_def Let_def)

lemma replicate_3: "replicate 3 x = [x, x, x]"
  by (simp add: numeral_3_eq_3)

definition client_over :: "bytes \<Rightarrow> pipe tcp_client" where
  "client_over bs = \<lparr>tc_fd = 3, tc_ip_address = ''localhost'', tc_port = ''10030'',
     tc_sys = \<lparr>pp_in = bs, pp_out = [], pp_step = 4, pp_open = [3]\<rparr>\<rparr>"

definition server_over :: "bytes \<Rightarrow> pipe tcp_server" where
  "server_over bs = \<lparr>ts_listen_fd = -1, ts_client_fd = 3, ts_bind_address = ''localhost'', ts_port = ''10030'',
     ts_sys = \<lparr>pp_in = bs, pp_out = [], pp_step = 1, pp_open = [3]\<rparr>\<rparr>"

lemma pipe_ends [simp]:
  "tc_fd (client_over bs) = 3" "pp_in (tc_sys (client_over bs)) = bs" "pp_out (tc_sys (client_over bs)) = []"
  "ts_client_fd (server_over bs) = 3" "pp_in (ts_sys (server_over bs)) = bs" "pp_out (ts_sys (server_over bs)) = []"
  by (simp_all add: client_over_def server_over_def)

lemma sample_backend: "nd_tcp_backend sample_node = Some (client_over [])"
  by (simp add: client_over_def sample_pipe_def)

text \<open>C4. The server is the abstract server: over any connection, \<open>runLoop\<close> answers every command that
  arrives, in order, with the reply of the specification, hands the handlers the
  decoded packets, returns without an error when the peer closes the connection, and shuts the
  node down. The transaction table of the node is untouched.\<close>

theorem server_session_refines:
  fixes nd :: "('w tcp_server, 'u) node"
  assumes "posix_stream_eof S conn inq outq"
    and "\<And>fd w r w'. conn fd w \<Longrightarrow> sys_shutdown S fd w = (r, w') \<Longrightarrow> 0 \<le> r \<and> outq fd w' = outq fd w"
    and "nd_tcp_backend nd = Some b" and "conn (ts_client_fd b) (ts_sys b)"
    and "inq (ts_client_fd b) (ts_sys b) = concat (map (\<lambda>c. frame 0 (command_packet c)) cs)"
    and "nd_on_write nd = Some f" and "nd_on_read nd = Some g"
    and "serve (recv_room (nd_buffer_policy nd) (length (nd_recv_buf nd))) (send_room nd) f g cs
       (nd_packet nd) (nd_user nd) = Some (replies, user)"
  shows "\<exists>nd' b'. runLoop (TCPServer_backend S) (SpwRmapTCPServer_methods S) nd = Some (Inr (), nd') \<and>
     nd_tcp_backend nd' = Some b' \<and> nd_user nd' = user \<and> nd_shutdowned nd' \<and> table nd' = table nd \<and>
     outq (ts_client_fd b') (ts_sys b') = outq (ts_client_fd b) (ts_sys b) @ concat (map (frame 0) replies)"
  by (rule posix_stream_eof.server_session [OF assms])

theorem server_session_refines_witness:
  "\<exists>nd' b'. runLoop (TCPServer_backend pipe_sys) (SpwRmapTCPServer_methods pipe_sys)
       (sample_server\<lparr>nd_tcp_backend := Some (server_over
          (frame 0 (write_packet sample_write) @ frame 0 (read_packet sample_read)))\<rparr>) = Some (Inr (), nd') \<and>
     nd_tcp_backend nd' = Some b' \<and> nd_user nd' = [(0xDEADBEEF, [0x10, 0x20, 0x30])] \<and> nd_shutdowned nd' \<and>
     length (pp_out (ts_sys b')) = 11 + 12 + 32 + 12"
proof -
  let ?cs = "[Write_command sample_write, Read_command sample_read]"
  define w where "w = write_reply_packet (write_reply_config (write_decoded sample_write empty_packet))"
  define r where "r = read_reply_packet (read_reply_config (read_decoded sample_read
    (write_decoded sample_write empty_packet)) (replicate 16 0x5A))"
  define b where "b = server_over (concat (map (\<lambda>c. frame 0 (command_packet c)) ?cs))"
  define nd where "nd = sample_server\<lparr>nd_tcp_backend := Some b\<rparr>"
  have wf: "write_wf sample_write" "read_wf sample_read"
    by (simp_all add: write_wf_def read_wf_def path_ok_def reply_ok_def sample_write_def sample_read_def)
  have "unat (rd_dataLength sample_read) = 16" by (simp add: sample_read_def)
  then have h: "log_write (write_decoded sample_write empty_packet) [] = Some (Returns (), [(0xDEADBEEF, [0x10, 0x20, 0x30])])"
    "give_data (read_decoded sample_read pk) u = Some (Returns (replicate 16 0x5A), u)" for pk u
    by (simp_all add: log_write_def give_data_def write_decoded_def read_decoded_def sample_write_def)
  have len: "length (write_packet sample_write) = 26" "length (read_packet sample_read) = 22"
    "length w = 11" "length r = 32"
    by (simp_all add: w_def r_def length_write_packet length_read_packet length_write_reply_packet length_read_reply_packet
        WritePacketBuilder_getTotalSize_def ReadPacketBuilder_getTotalSize_def
        WriteReplyPacketBuilder_getTotalSize_def ReadReplyPacketBuilder_getTotalSize_def
        sample_write_def sample_read_def write_reply_config_def read_reply_config_def write_decoded_def read_decoded_def)
  have "serve (recv_room Fixed 64) (send_room nd) log_write give_data ?cs empty_packet [] =
      Some ([w, r], [(0xDEADBEEF, [0x10, 0x20, 0x30])])"
    using wf len h by (simp add: Let_def w_def [symmetric] r_def [symmetric])
      (simp add: recv_room_def send_room_def nd_def VECTOR_MAX_SIZE_def INT_MAX_def)
  then have "nd_tcp_backend nd = Some b" "ts_client_fd b = 3"
    "pp_in (ts_sys b) = concat (map (\<lambda>c. frame 0 (command_packet c)) ?cs)"
    "nd_on_write nd = Some log_write" "nd_on_read nd = Some give_data"
    "serve (recv_room (nd_buffer_policy nd) (length (nd_recv_buf nd))) (send_room nd) log_write give_data ?cs
       (nd_packet nd) (nd_user nd) = Some ([w, r], [(0xDEADBEEF, [0x10, 0x20, 0x30])])"
    by (simp_all add: nd_def b_def)
  note facts = this
  from server_session_refines [OF pipe.posix_stream_eof_axioms _ facts]
  show ?thesis using len by (auto simp: nd_def b_def pipe_sys_def frame_def)
qed

text \<open>C32. A peer that closes the connection inside a packet makes the server read out of bounds: what was
  announced and did not arrive is taken for an empty packet, whose first byte the parser reads.\<close>

theorem cut_off_packet_undefined:
  fixes nd :: "('w tcp_server, 'u) node"
  assumes "posix_stream_eof S conn inq outq"
    and "nd_tcp_backend nd = Some b" and "conn (ts_client_fd b) (ts_sys b)"
    and "inq (ts_client_fd b) (ts_sys b) = frame_header 0 n @ p" and "length p < n"
    and "recv_room (nd_buffer_policy nd) (length (nd_recv_buf nd)) n"
  shows "poll (TCPServer_backend S) this nd = None"
  by (rule posix_stream_eof.server_cut_off [OF assms])

theorem cut_off_packet_undefined_witness:
  "poll (TCPServer_backend pipe_sys) (SpwRmapTCPServer_methods pipe_sys)
     (sample_server\<lparr>nd_tcp_backend := Some (server_over (frame_header 0 5 @ [1, 2]))\<rparr>) = None"
  by (rule cut_off_packet_undefined [OF pipe.posix_stream_eof_axioms, where n = 5 and p = "[1, 2]" and
      b = "server_over (frame_header 0 5 @ [1, 2])"])
    (simp_all add: recv_room_def VECTOR_MAX_SIZE_def)

section \<open>Time codes\<close>

text \<open>Emitting a time code puts on the wire exactly the frame that a receiving node takes for
  that time code, all eight bits of it; without a connection it is an error and nothing happens.\<close>

lemma emitTimeCode_outcome:
  "emitTimeCode B tc nd = (case nd_tcp_backend nd of
       None \<Rightarrow> Some (Inl (Generic not_connected), nd)
     | Some b \<Rightarrow> do {
         (res, b) \<leftarrow> be_sendAll B (item_bytes (Timecode False tc)) b;
         Some (res, nd\<lparr>nd_tcp_backend := Some b\<rparr>)
       })"
proof -
  have "replicate 9 (0 :: u8) = [0, 0, 0, 0, 0, 0, 0, 0, 0]" by (simp add: numeral_eq_Suc)
  then have "timecode_frame tc = item_bytes (Timecode False tc)"
    by (simp add: timecode_frame_def frame_def frame_header_def be64_def byte_of_def)
  then show ?thesis by (simp add: emitTimeCode_def split: option.split)
qed
end
