(* ===== verification/Node_Table.thy ===== *)
theory Node_Table
  imports Node_Session
begin

unbundle bit_operations_syntax

text \<open>
  The transaction table as the finite map it stands for: the refinement of the map by starting, replying
  and cancelling, through the interface \<open>operation_table\<close>. And two races between threads that act on
  the same identifier.
\<close>

section \<open>The table as a finite map\<close>

text \<open>The operations in flight: which callback and which promise belong to an identifier.\<close>

definition operations :: "('b, 'u) node \<Rightarrow> u16 \<rightharpoonup> 'u completion \<times> nat" where
  "operations nd t = (if tid_out_of_range t nd then None
     else map_option (\<lambda>rc. (rc_on_complete rc, rc_promise rc)) (nd_reply_callback nd ! tid_index t nd))"

lemma operations_cong:
  assumes "nd_reply_callback nd' = nd_reply_callback nd"
    "nd_transaction_id_min nd' = nd_transaction_id_min nd" "nd_transaction_id_max nd' = nd_transaction_id_max nd"
  shows "operations nd' = operations nd"
  using assms by (simp add: operations_def fun_eq_iff tid_out_of_range_def tid_index_def)

lemma operations_update:
  assumes "node_inv nd" "i < id_count nd"
    and "nd_reply_callback nd' = (nd_reply_callback nd)[i := x]"
    "nd_transaction_id_min nd' = nd_transaction_id_min nd" "nd_transaction_id_max nd' = nd_transaction_id_max nd"
  shows "operations nd' = (operations nd)(slot_id nd i := map_option (\<lambda>rc. (rc_on_complete rc, rc_promise rc)) x)"
proof
  fix t
  have r: "tid_out_of_range t nd' = tid_out_of_range t nd" "tid_index t nd' = tid_index t nd"
    using assms(4,5) by (simp_all add: tid_out_of_range_def tid_index_def)
  show "operations nd' t = ((operations nd)(slot_id nd i := map_option (\<lambda>rc. (rc_on_complete rc, rc_promise rc)) x)) t"
  proof (cases "t = slot_id nd i")
    case True
    with assms(2,3) r tid_index_slot_id [OF assms(2)] shape_lengths(1) [OF assms(1)] show ?thesis
      by (simp add: operations_def)
  next
    case False
    have "tid_index t nd \<noteq> i" if "\<not> tid_out_of_range t nd" using slot_id_tid_index [OF that] False by auto
    with False assms(3) r show ?thesis by (auto simp: operations_def)
  qed
qed

lemma operations_drop:
  assumes "node_inv nd" "i < id_count nd"
  shows "operations (drop_transaction i nd) = (operations nd)(slot_id nd i := None)"
  using operations_update [OF assms, of "drop_transaction i nd" None] by (simp add: drop_transaction_def)

lemma operations_settle:
  assumes "node_inv nd" "i < id_count nd"
  shows "operations (settle i p v nd) = (operations nd)(slot_id nd i := None)"
  using operations_update [OF assms, of "settle i p v nd" None] by (simp add: settle_def drop_transaction_def)

text \<open>
  What a client of the table relies on: an abstract map, from which removing takes one key. Then the
  order of removals does not matter.
\<close>

locale operation_table =
  fixes inv :: "'s \<Rightarrow> bool" and abs :: "'s \<Rightarrow> 'k \<rightharpoonup> 'v" and remove :: "'k \<Rightarrow> 's \<Rightarrow> 's option"
  assumes remove_ok: "inv s \<Longrightarrow> \<exists>s'. remove k s = Some s' \<and> inv s' \<and> abs s' = (abs s)(k := None)"
begin

lemma remove_two:
  assumes "inv s"
  shows "\<exists>s'. do { s1 \<leftarrow> remove k s; remove l s1 } = Some s' \<and> inv s' \<and> abs s' = (abs s)(k := None, l := None)"
  using remove_ok [OF assms, of k] remove_ok [of _ l] by fastforce

lemma remove_commute:
  assumes "inv s"
  shows "map_option abs (do { s1 \<leftarrow> remove k s; remove l s1 }) = map_option abs (do { s1 \<leftarrow> remove l s; remove k s1 })"
  using remove_two [OF assms, of k l] remove_two [OF assms, of l k] by (auto simp: fun_eq_iff)

end

interpretation cancel_table: operation_table node_inv operations cancelTransaction
proof
  fix nd :: "('a, 'b) node" and t
  assume inv: "node_inv nd"
  show "\<exists>nd'. cancelTransaction t nd = Some nd' \<and> node_inv nd' \<and> operations nd' = (operations nd)(t := None)"
  proof (cases "tid_out_of_range t nd")
    case True
    then have "operations nd t = None" by (simp add: operations_def)
    with True inv show ?thesis by (simp add: cancelTransaction_eq fun_upd_idem)
  next
    case False
    with operations_drop [OF inv tid_index_less [OF False]] drop_transaction_inv [OF inv tid_index_less [OF False]] inv
    show ?thesis by (simp add: cancelTransaction_eq slot_id_tid_index)
  qed
qed

lemma reply_refines_map:
  assumes "node_inv nd" "operations nd (pk_transactionID pk) = Some (oc, p)" "oc pk (nd_user nd) = Some (out, user)"
  shows "\<exists>nd'. handle_reply pk nd = Some (Inr True, nd') \<and>
     operations nd' = (operations nd)(pk_transactionID pk := None) \<and>
     nd_promises nd' = (nd_promises nd)[p := Some (reply_value out)] \<and> nd_user nd' = user"
proof -
  let ?i = "tid_index (pk_transactionID pk) nd"
  from assms(2) obtain rc where r: "\<not> tid_out_of_range (pk_transactionID pk) nd" "nd_reply_callback nd ! ?i = Some rc"
    "rc_on_complete rc = oc" "rc_promise rc = p" by (auto simp: operations_def split: if_split_asm)
  have "operations ((settle ?i p (reply_value out) nd)\<lparr>nd_user := user\<rparr>) = operations (settle ?i p (reply_value out) nd)"
    by (rule operations_cong) simp_all
  with r assms(1,3) operations_settle [OF assms(1) tid_index_less [OF r(1)]] slot_id_tid_index [OF r(1)]
  show ?thesis by (simp add: handle_reply_eq)
qed

lemma start_refines_map:
  assumes "node_inv nd" "clock_ok clock" "keeps_core sender" "first_free nd = Some i"
    and "sender (slot_id nd i) (registered i clock oc nd) = Some (Inr (), nd')"
  shows "operations nd (slot_id nd i) = None \<and>
     operations nd' = (operations nd)(slot_id nd i \<mapsto> (oc, length (nd_promises nd)))"
proof -
  note st = start_first_free [OF assms]
  have core: "core nd' = core (registered i clock oc nd)" using assms(3,5) by (simp add: keeps_core_def)
  have "nd_available nd ! i" using assms(4) by (simp add: first_free_def find_upt_Some)
  then have "nd_reply_callback nd ! i = None" using assms(1) st(4) by (auto elim: slot_cases)
  moreover have "operations nd' = (operations nd)(slot_id nd i := map_option (\<lambda>rc. (rc_on_complete rc, rc_promise rc))
      (nd_reply_callback nd' ! i))"
    using core_fields(1,6,7) [OF core] st(3) shape_lengths(1) [OF assms(1)] st(4)
    by (intro operations_update [OF assms(1) st(4)]) (simp_all add: registered_def register_def acquire_def)
  ultimately show ?thesis using st(3) tid_index_slot_id [OF st(4)] by (simp add: operations_def)
qed

text \<open>C6. The transaction table is a finite map from identifiers to operations. Starting an operation adds
  one entry under an identifier that had none; a reply looks its entry up, runs that
  callback and removes that entry; cancelling removes the entry. Nothing else in the map changes.\<close>

theorem table_refines_map:
  assumes "node_inv nd"
  shows "(\<exists>nd'. cancelTransaction t nd = Some nd' \<and> operations nd' = (operations nd)(t := None)) \<and>
     (\<forall>pk. operations nd (pk_transactionID pk) = None \<longrightarrow> (\<exists>r. handle_reply pk nd = Some (r, nd))) \<and>
     (\<forall>pk oc p out user. operations nd (pk_transactionID pk) = Some (oc, p) \<longrightarrow> oc pk (nd_user nd) = Some (out, user) \<longrightarrow>
       (\<exists>nd'. handle_reply pk nd = Some (Inr True, nd') \<and>
         operations nd' = (operations nd)(pk_transactionID pk := None) \<and>
         nd_promises nd' = (nd_promises nd)[p := Some (reply_value out)] \<and> nd_user nd' = user)) \<and>
     (\<forall>sender clock oc i nd'. clock_ok clock \<longrightarrow> keeps_core sender \<longrightarrow> first_free nd = Some i \<longrightarrow>
       sender (slot_id nd i) (registered i clock oc nd) = Some (Inr (), nd') \<longrightarrow>
       operations nd (slot_id nd i) = None \<and>
       startAsyncOperation sender clock oc nd = Some (\<lparr>op_future = length (nd_promises nd),
         op_transaction_id = Some (slot_id nd i)\<rparr>, nd') \<and>
       operations nd' = (operations nd)(slot_id nd i \<mapsto> (oc, length (nd_promises nd))))"
proof (intro conjI allI impI)
  show "\<exists>nd'. cancelTransaction t nd = Some nd' \<and> operations nd' = (operations nd)(t := None)"
    using cancel_table.remove_ok [OF assms] by blast
next
  fix pk :: packet assume "operations nd (pk_transactionID pk) = None"
  then show "\<exists>r. handle_reply pk nd = Some (r, nd)"
    using assms by (auto simp: operations_def handle_reply_eq Let_def)
qed (use reply_refines_map [OF assms] start_refines_map [OF assms] start_first_free(1) [OF assms] in blast)+

theorem table_refines_map_witness:
  "node_inv busy_node \<and>
   (\<exists>nd'. cancelTransaction 0x20 busy_node = Some nd' \<and> operations nd' = (operations busy_node)(0x20 := None)) \<and>
   (\<exists>r. handle_reply (empty_packet\<lparr>pk_transactionID := 0x21\<rparr>) busy_node = Some (r, busy_node))"
proof -
  have i: "\<not> tid_out_of_range 0x21 busy_node" "tid_index 0x21 busy_node = 1"
    by (simp_all add: tid_out_of_range_def tid_index_def busy_node_fields)
  have "nd_reply_callback busy_node ! 1 = None"
    by (simp add: busy_node_def registered_def register_def acquire_def)
  with i have "operations busy_node (pk_transactionID (empty_packet\<lparr>pk_transactionID := 0x21\<rparr>)) = None"
    by (simp add: operations_def)
  with table_refines_map [OF busy_node_inv, of "0x20"] busy_node_inv show ?thesis by blast
qed

text \<open>So the order in which transactions are cancelled does not matter to what is left in the table.\<close>

lemma cancel_order_irrelevant:
  assumes "node_inv nd"
  shows "map_option operations (do { nd1 \<leftarrow> cancelTransaction t nd; cancelTransaction u nd1 }) =
     map_option operations (do { nd1 \<leftarrow> cancelTransaction u nd; cancelTransaction t nd1 })"
  by (rule cancel_table.remove_commute [OF assms])

section \<open>Two threads\<close>

text \<open>
  \<open>forceReleaseTransaction_\<close> calls the error handler, and the handler runs, without holding
  \<open>reply_callback_mtx_\<close>. So another thread can run between the release of the identifier in the
  handler and its last statement, which clears the error callback. The function in these two parts:
\<close>

definition forceRelease_first :: "nat \<Rightarrow> ('b, 'u) node \<Rightarrow> (nat option \<times> ('b, 'u) node) option" where
  "forceRelease_first index nd = do {
     error_handler \<leftarrow> span_at (nd_reply_error_callback nd) index;
     nd \<leftarrow> clear_callbacks index nd;
     case error_handler of
       Some f \<Rightarrow> do {
         nd \<leftarrow> set_value (ec_promise f) (Inl (Generic timed_out)) nd;
         nd \<leftarrow> releaseTransactionID (ec_transaction_id f) nd;
         Some (Some (ec_tx_index f), nd)
       }
     | None \<Rightarrow> do {
         nd \<leftarrow> releaseTransactionID (nd_transaction_id_min nd + word_of_nat index) nd;
         Some (None, nd)
       }
   }"

definition forceRelease_last :: "nat option \<Rightarrow> ('b, 'u) node \<Rightarrow> ('b, 'u) node option" where
  "forceRelease_last pending nd = (case pending of
       None \<Rightarrow> Some nd
     | Some tx_index \<Rightarrow> do {
         ec \<leftarrow> store tx_index None (nd_reply_error_callback nd);
         Some (nd\<lparr>nd_reply_error_callback := ec\<rparr>)
       })"

lemma forceRelease_parts:
  "forceReleaseTransaction index nd = do { (k, nd) \<leftarrow> forceRelease_first index nd; forceRelease_last k nd }"
  unfolding forceReleaseTransaction_def forceRelease_first_def forceRelease_last_def call_error_callback_def
    finish_transaction_def
  by (auto simp: span_at_def split: Option.bind_split option.split)

lemma forceRelease_first_eq:
  assumes "node_inv nd" "i < id_count nd" "nd_reply_callback nd ! i = Some rc"
  shows "forceRelease_first i nd = Some (Some i, settle i (rc_promise rc) (Inl (Generic timed_out)) nd)"
proof -
  let ?nd1 = "nd\<lparr>nd_reply_callback := (nd_reply_callback nd)[i := None],
      nd_reply_error_callback := (nd_reply_error_callback nd)[i := None],
      nd_promises := (nd_promises nd)[rc_promise rc := Some (Inl (Generic timed_out))]\<rparr>"
  from assms have e: "nd_reply_error_callback nd ! i = Some \<lparr>ec_promise = rc_promise rc,
      ec_transaction_id = slot_id nd i, ec_tx_index = i\<rparr>"
    and p: "rc_promise rc < length (nd_promises nd)" "nd_promises nd ! rc_promise rc = None"
    by (auto elim: slot_cases)
  have "releaseTransactionID (slot_id ?nd1 i) ?nd1 = Some (?nd1\<lparr>
     nd_available := (nd_available nd)[i := True], nd_last_used := (nd_last_used nd)[i := TIME_POINT_MIN]\<rparr>)"
    using assms(2) shape_lengths [OF assms(1)] by (subst releaseTransactionID_eq) (simp_all add: id_count_def)
  moreover have "slot_id ?nd1 i = slot_id nd i" by (simp add: slot_id_def)
  ultimately show ?thesis
    using e p assms(2) shape_lengths [OF assms(1)]
    by (simp add: forceRelease_first_def span_at_def clear_callbacks_eq [OF assms(1,2)] set_value_def settle_def
        drop_transaction_def)
qed

lemma start_same_slot:
  assumes "node_inv nd" "i < id_count nd" "clock_ok clock" "keeps_core sender"
    and "startAsyncOperation sender clock oc nd = Some (opn, nd')" "op_transaction_id opn = Some (slot_id nd i)"
  shows "node_inv nd'" "id_count nd' = id_count nd" "slot_id nd' i = slot_id nd i"
    "nd_reply_callback nd' ! i = Some \<lparr>rc_on_complete = oc, rc_promise = op_future opn,
       rc_transaction_id = slot_id nd i, rc_tx_index = i\<rparr>"
proof -
  let ?p = "length (nd_promises nd)"
  note eq = assms(5) [unfolded startAsyncOperation_eq [OF assms(1,3,4)]]
  from eq assms(6) obtain j nd1 where a: "acquired clock (nd\<lparr>nd_promises := nd_promises nd @ [None]\<rparr>) = Some (j, nd1)"
    by (auto split: option.split_asm)
  note st = started_inv [OF assms(1,3) a]
  from eq a assms(6) have s: "sender (slot_id nd j) (register j ?p oc nd1) = Some (Inr (), nd')"
    and opn: "opn = \<lparr>op_future = ?p, op_transaction_id = Some (slot_id nd j)\<rparr>"
    by (auto elim!: bind_SomeE split: sum.split_asm)
  have "slot_id nd j = slot_id nd i" using opn assms(6) by simp
  then have j: "j = i" by (metis tid_index_slot_id(1) st(2) assms(2))
  have core: "core nd' = core (register j ?p oc nd1)" using s assms(4) by (simp add: keeps_core_def)
  show "node_inv nd'" using node_inv_core [OF core] st(1) by simp
  show "id_count nd' = id_count nd" using core_fields(6,7) [OF core] st(3) by (simp add: id_count_def register_def)
  have "slot_id nd' i = slot_id nd1 i" by (rule slot_id_cong) (use core_fields(6) [OF core] in \<open>simp add: register_def\<close>)
  then show "slot_id nd' i = slot_id nd i" using st(4) j by simp
  show "nd_reply_callback nd' ! i = Some \<lparr>rc_on_complete = oc, rc_promise = op_future opn,
       rc_transaction_id = slot_id nd i, rc_tx_index = i\<rparr>"
    using core_fields(1) [OF core] st(2,4,5) by (simp add: register_def opn j)
qed

lemma forced_after_race:
  assumes "node_inv nd" "i < id_count nd"
  shows "forceReleaseTransaction i (nd\<lparr>nd_reply_error_callback := (nd_reply_error_callback nd)[i := None]\<rparr>) =
     Some (drop_transaction i nd)"
proof -
  let ?nd = "nd\<lparr>nd_reply_callback := (nd_reply_callback nd)[i := None],
    nd_reply_error_callback := (nd_reply_error_callback nd)[i := None]\<rparr>"
  note len = shape_lengths [OF assms(1)]
  have "releaseTransactionID (slot_id ?nd i) ?nd = Some (drop_transaction i nd)"
    using assms(2) len by (subst releaseTransactionID_eq) (simp_all add: id_count_def drop_transaction_def)
  then show ?thesis
    using assms(2) len by (simp add: forceReleaseTransaction_def span_at_def clear_callbacks_def slot_id_def)
qed

text \<open>C33. The race in an eviction. Thread A evicts the expired operation of slot \<open>i\<close> and is interrupted before the last
  statement of the error handler; thread B starts an operation and is given the identifier that A
  has just released; A goes on. Now B's operation has no error callback: when it expires in turn, the eviction frees its slot
  and destroys its callback with the last reference to its promise. Its future does not get \<open>timed_out\<close> but is broken,
  and a synchronous operation that waits for it does not return but ends the program.\<close>

theorem eviction_race_breaks_promise:
  assumes "node_inv nd" and "i < id_count nd" and "nd_reply_callback nd ! i = Some rc"
    and "clock_ok clock" and "keeps_core sender"
    and "forceRelease_first i nd = Some (k, nd1)"
    and "startAsyncOperation sender clock oc nd1 = Some (opn, nd2)" and "op_transaction_id opn = Some (slot_id nd i)"
    and "forceRelease_last k nd2 = Some nd3"
  shows "\<exists>nd4. forceReleaseTransaction i nd3 = Some nd4 \<and> nd_available nd4 ! i \<and> nd_reply_callback nd4 ! i = None \<and>
     future_status (op_future opn) nd2 = Some Future_pending \<and>
     future_status (op_future opn) nd4 = Some Future_broken \<and>
     (\<forall>wait m attempt. wait attempt (op_future opn) nd2 = Some nd4 \<longrightarrow>
        sync_attempts (\<lambda>_. startAsyncOperation sender clock oc) wait (Suc m) attempt nd1 = None)"
proof -
  let ?nd1 = "settle i (rc_promise rc) (Inl (Generic timed_out)) nd"
  have k: "k = Some i" "nd1 = ?nd1" using forceRelease_first_eq [OF assms(1-3)] assms(6) by simp_all
  have inv1: "node_inv ?nd1" by (rule settle_inv [OF assms(1-3)])
  have id: "op_transaction_id opn = Some (slot_id ?nd1 i)" "i < id_count ?nd1" using assms(2,8) by simp_all
  note st = start_same_slot [OF inv1 id(2) assms(4,5) assms(7) [unfolded k(2)] id(1)]
  have n: "i < id_count nd2" using st(2) assms(2) by simp
  note len = shape_lengths [OF st(1)]
  have nd3: "nd3 = nd2\<lparr>nd_reply_error_callback := (nd_reply_error_callback nd2)[i := None]\<rparr>"
    using assms(9) n len by (simp add: k forceRelease_last_def)
  have "future_status (op_future opn) nd2 = Some Future_pending"
    "future_status (op_future opn) (drop_transaction i nd2) = Some Future_broken"
    using future_status_pending [OF st(1) n st(4)] drop_breaks [OF st(1) n st(4)] by simp_all
  then show ?thesis
    using forced_after_race [OF st(1) n] n len assms(7)
    by (intro exI [of _ "drop_transaction i nd2"]) (simp add: nd3, simp add: drop_transaction_def)
qed

theorem eviction_race_breaks_promise_witness:
  "\<exists>k nd1 opn nd2 nd3 nd4. forceRelease_first 0 busy_node = Some (k, nd1) \<and>
     startWriteAsyncOperation (TCPClient_backend pipe_sys) (\<lambda>_. 0) sample_target 0x100 [1, 2]
       (\<lambda>pk u. Some (Returns (), u)) nd1 = Some (opn, nd2) \<and>
     forceRelease_last k nd2 = Some nd3 \<and> forceReleaseTransaction 0 nd3 = Some nd4 \<and>
     future_status (op_future opn) nd4 = Some Future_broken \<and>
     write_sync (TCPClient_backend pipe_sys) (\<lambda>_ _. 0) (\<lambda>_ _ _. Some nd4) sample_target 0x100 [1, 2] 3 nd1 = None"
proof -
  let ?nd1 = "settle 0 0 (Inl (Generic timed_out)) busy_node" and ?b = "client_over []"
  have n: "0 < id_count busy_node" by (simp add: busy_node_fields)
  have f: "forceRelease_first 0 busy_node = Some (Some 0, ?nd1)"
    using forceRelease_first_eq [OF busy_node_inv n busy_node_callback] by simp
  have inv1: "node_inv ?nd1" using settle_inv [OF busy_node_inv n busy_node_callback] by simp
  have ff: "first_free ?nd1 = Some 0"
    by (simp add: first_free_def find_upt_Some busy_node_fields) (simp add: settle_def drop_transaction_def busy_node_fields)
  have b: "nd_tcp_backend ?nd1 = Some ?b" "tc_fd ?b = 3"
    by (simp_all add: settle_def drop_transaction_def busy_node_def sample_backend del: sample_node_fields)
  have r: "length (getReplyAddress sample_target) \<le> 12"
    "send_room ?nd1 (WritePacketBuilder_getTotalSize (write_config sample_target (slot_id ?nd1 0) 0x100 [1, 2] ?nd1))"
    by (simp_all add: sample_target_def getReplyAddress_def WritePacketBuilder_getTotalSize_def send_room_def
        write_config_def getTargetSpaceWireAddress_def INT_MAX_def settle_def drop_transaction_def busy_node_def)
  from pipe.client.startWrite_stream [OF inv1 zero_clock ff b r, where oc = "\<lambda>packet user. Some (Returns (), user)"] obtain nd2 where
    s: "startWriteAsyncOperation (TCPClient_backend pipe_sys) (\<lambda>_. 0) sample_target 0x100 [1, 2]
       (\<lambda>packet user. Some (Returns (), user)) ?nd1 = Some (\<lparr>op_future = length (nd_promises ?nd1),
         op_transaction_id = Some (slot_id ?nd1 0)\<rparr>, nd2)" and i2: "node_inv nd2" "id_count nd2 = id_count ?nd1" by metis
  obtain nd3 where l: "forceRelease_last (Some 0) nd2 = Some nd3"
    using i2 shape_lengths [OF i2(1)] n by (auto simp: forceRelease_last_def)
  from eviction_race_breaks_promise [OF busy_node_inv n busy_node_callback zero_clock senders_keep_core(1) f
      s [unfolded startWriteAsyncOperation_def] _ l] obtain nd4 where
    e: "forceReleaseTransaction 0 nd3 = Some nd4" "future_status (length (nd_promises ?nd1)) nd4 = Some Future_broken"
    and w: "\<And>wait m. wait 0 (length (nd_promises ?nd1)) nd2 = Some nd4 \<Longrightarrow>
      sync_attempts (\<lambda>_. startAsyncOperation (\<lambda>tid. sendWritePacket (TCPClient_backend pipe_sys) sample_target tid 0x100 [1, 2])
        (\<lambda>_. 0) (\<lambda>packet user. Some (Returns (), user))) wait (Suc m) 0 ?nd1 = None" by auto
  have three: "attempts 3 = Suc 2" by (simp add: attempts_def)
  have "write_sync (TCPClient_backend pipe_sys) (\<lambda>_ _. 0) (\<lambda>_ _ _. Some nd4) sample_target 0x100 [1, 2] 3 ?nd1 = None"
    unfolding write_sync_def startWriteAsyncOperation_def three by (rule w) (rule refl)
  then show ?thesis using f s l e by auto
qed

text \<open>C34. The race in a synchronous operation. Its wait in thread A has timed out, but before A cancels the transaction the reply
  arrives and frees the identifier, and thread B starts an operation under it. Then A cancels by the identifier alone:
  it breaks the promise of B's operation, whose reply will be dropped. If B's operation is synchronous, it does not
  return but ends the program.\<close>

theorem cancel_race_breaks_promise:
  assumes "node_inv nd" and "i < id_count nd" and "nd_reply_callback nd ! i = Some rc"
    and "pk_transactionID pk = slot_id nd i"
    and "handle_reply pk nd = Some (r, nd1)" and "clock_ok clock" and "keeps_core sender"
    and "startAsyncOperation sender clock oc nd1 = Some (opn, nd2)" and "op_transaction_id opn = Some (slot_id nd i)"
  shows "\<exists>nd3. cancelTransaction (slot_id nd i) nd2 = Some nd3 \<and>
     future_status (op_future opn) nd2 = Some Future_pending \<and>
     future_status (op_future opn) nd3 = Some Future_broken \<and>
     (\<forall>pk'. pk_transactionID pk' = slot_id nd i \<longrightarrow> handle_reply pk' nd3 = Some (Inr True, nd3)) \<and>
     (\<forall>wait m attempt. wait attempt (op_future opn) nd2 = Some nd3 \<longrightarrow>
        sync_attempts (\<lambda>_. startAsyncOperation sender clock oc) wait (Suc m) attempt nd1 = None)"
proof -
  note id = tid_index_slot_id [OF assms(2)]
  from assms(1,3,4,5) id obtain out user where
    nd1: "nd1 = (settle i (rc_promise rc) (reply_value out) nd)\<lparr>nd_user := user\<rparr>"
    by (auto simp: handle_reply_eq elim!: bind_SomeE)
  have inv1: "node_inv nd1" using safe_step_reply [OF assms(5)] assms(1) by (simp add: safe_step_def)
  have "id_count nd1 = id_count nd" "slot_id nd1 i = slot_id nd i"
    by (simp_all add: nd1 id_count_def slot_id_def settle_def drop_transaction_def)
  note c1 = this
  have i1: "i < id_count nd1" "op_transaction_id opn = Some (slot_id nd1 i)" using assms(2,9) c1 by simp_all
  note st = start_same_slot [OF inv1 i1(1) assms(6-8) i1(2)]
  have n: "i < id_count nd2" and s: "slot_id nd2 i = slot_id nd i" using st(2,3) c1 assms(2) by simp_all
  let ?nd3 = "drop_transaction i nd2"
  note id2 = tid_index_slot_id [OF n, unfolded s]
  have n3: "i < id_count ?nd3" and s3: "slot_id ?nd3 i = slot_id nd i" using n s by simp_all
  note id3 = tid_index_slot_id [OF n3, unfolded s3]
  have "cancelTransaction (slot_id nd i) nd2 = Some ?nd3" using id2 by (simp add: cancelTransaction_eq [OF st(1)])
  moreover have "future_status (op_future opn) nd2 = Some Future_pending"
    "future_status (op_future opn) ?nd3 = Some Future_broken"
    using future_status_pending [OF st(1) n st(4)] drop_breaks [OF st(1) n st(4)] by simp_all
  moreover have "nd_reply_callback ?nd3 ! i = None"
    using n shape_lengths(1) [OF st(1)] by (simp add: drop_transaction_def)
  then have "handle_reply pk' ?nd3 = Some (Inr True, ?nd3)" if "pk_transactionID pk' = slot_id nd i" for pk'
    using that id3 by (simp add: handle_reply_eq [OF drop_transaction_inv [OF st(1) n]])
  ultimately show ?thesis using assms(8) by simp
qed

theorem cancel_race_breaks_promise_witness:
  "\<exists>r nd1 opn nd2 nd3. handle_reply (empty_packet\<lparr>pk_transactionID := 0x20\<rparr>) busy_node = Some (r, nd1) \<and>
     startWriteAsyncOperation (TCPClient_backend pipe_sys) (\<lambda>_. 0) sample_target 0x100 [1, 2]
       (\<lambda>pk u. Some (Returns (), u)) nd1 = Some (opn, nd2) \<and> op_transaction_id opn = Some 0x20 \<and>
     cancelTransaction 0x20 nd2 = Some nd3 \<and> future_status (op_future opn) nd3 = Some Future_broken"
proof -
  let ?nd1 = "settle 0 0 (Inr ()) busy_node" and ?b = "client_over []" and ?pk = "empty_packet\<lparr>pk_transactionID := 0x20\<rparr>"
  have n: "0 < id_count busy_node" and id: "slot_id busy_node 0 = 0x20" by (simp_all add: busy_node_fields slot_id_def)
  have f: "handle_reply ?pk busy_node = Some (Inr True, ?nd1)"
    using tid_index_slot_id [OF n] busy_node_callback
    by (simp add: handle_reply_eq [OF busy_node_inv] id reply_value_def)
  have inv1: "node_inv ?nd1" using settle_inv [OF busy_node_inv n busy_node_callback] by simp
  have ff: "first_free ?nd1 = Some 0"
    by (simp add: first_free_def find_upt_Some busy_node_fields) (simp add: settle_def drop_transaction_def busy_node_fields)
  have b: "nd_tcp_backend ?nd1 = Some ?b" "tc_fd ?b = 3"
    by (simp_all add: settle_def drop_transaction_def busy_node_def sample_backend del: sample_node_fields)
  have r: "length (getReplyAddress sample_target) \<le> 12"
    "send_room ?nd1 (WritePacketBuilder_getTotalSize (write_config sample_target (slot_id ?nd1 0) 0x100 [1, 2] ?nd1))"
    by (simp_all add: sample_target_def getReplyAddress_def WritePacketBuilder_getTotalSize_def send_room_def
        write_config_def getTargetSpaceWireAddress_def INT_MAX_def settle_def drop_transaction_def busy_node_def)
  from pipe.client.startWrite_stream [OF inv1 zero_clock ff b r] obtain nd2 where
    s: "startWriteAsyncOperation (TCPClient_backend pipe_sys) (\<lambda>_. 0) sample_target 0x100 [1, 2]
       (\<lambda>pk u. Some (Returns (), u)) ?nd1 = Some (\<lparr>op_future = length (nd_promises ?nd1),
         op_transaction_id = Some (slot_id ?nd1 0)\<rparr>, nd2)" by metis
  from cancel_race_breaks_promise [OF busy_node_inv n busy_node_callback _ f zero_clock senders_keep_core(1)
      s [unfolded startWriteAsyncOperation_def]]
  show ?thesis using f s by (auto simp: id)
qed

end
