(* ===== verification/App_Options.thy ===== *)
theory App_Options
  imports Rmap_Types
begin

text \<open>
  The command line of \<open>app/spwrmap.cc\<close>: numbers, byte sequences and options. Messages on
  \<open>std::cerr\<close> are left out; \<open>None\<close> is \<open>std::nullopt\<close>. \<open>app/spwrmap_speedtest.cc\<close> has
  the same functions for numbers and byte sequences.
\<close>

unbundle bit_operations_syntax

section \<open>Numbers\<close>

text \<open>The numeric value of a character as a digit; 36 if it is none.\<close>

definition digit_value :: "char \<Rightarrow> nat" where
  "digit_value c = (let k = of_char c in
     if 48 \<le> k \<and> k \<le> 57 then k - 48
     else if 97 \<le> k \<and> k \<le> 122 then k - 87
     else if 65 \<le> k \<and> k \<le> 90 then k - 55
     else 36)"

definition is_space :: "char \<Rightarrow> bool" where
  "is_space c = (let k = (of_char c :: nat) in (9 \<le> k \<and> k \<le> 13) \<or> k = 32)"

fun split_sign :: "string \<Rightarrow> bool \<times> string" where
  "split_sign [] = (False, [])"
| "split_sign (c # s) = (if c = CHR ''-'' then (True, s) else if c = CHR ''+'' then (False, s) else (False, c # s))"

fun hex_prefix :: "string \<Rightarrow> bool" where
  "hex_prefix (a # b # c # s) \<longleftrightarrow> a = CHR ''0'' \<and> (b = CHR ''x'' \<or> b = CHR ''X'') \<and> digit_value c < 16"
| "hex_prefix s \<longleftrightarrow> False"

definition split_base :: "string \<Rightarrow> nat \<times> string" where
  "split_base s = (if hex_prefix s then (16, drop 2 s) else if take 1 s = ''0'' then (8, s) else (10, s))"

definition digits_value :: "nat \<Rightarrow> string \<Rightarrow> nat" where
  "digits_value base ds = foldl (\<lambda>v c. v * base + digit_value c) 0 ds"

text \<open>
  \<open>std::stoull(str, &idx, 0)\<close>: white space, a sign, digits in the base that the prefix names. The
  value is negated modulo \<open>2 ^ 64\<close> after a minus sign. No digits and overflow are exceptions. The second
  component is \<open>idx\<close>.
\<close>

definition stoull :: "string \<Rightarrow> (nat \<times> nat) option" where
  "stoull str =
    (let (negative, s) = split_sign (dropWhile is_space str);
         (base, s) = split_base s;
         ds = takeWhile (\<lambda>c. digit_value c < base) s;
         v = digits_value base ds
     in if ds = [] \<or> 2 ^ 64 \<le> v then None
        else Some (if negative then (2 ^ 64 - v) mod 2 ^ 64 else v,
                   length str - length (drop (length ds) s)))"

definition parseUnsigned :: "string \<Rightarrow> nat \<Rightarrow> nat option" where
  "parseUnsigned token max_value = (case stoull token of
       None \<Rightarrow> None
     | Some (v, idx) \<Rightarrow> if idx \<noteq> length token \<or> v > max_value then None else Some v)"

text \<open>
  \<open>argv\<close> behind the current index is a list. The bytes are appended to the destination; the result is
  what is left of the arguments and the new destination.
\<close>

fun byte_sequence :: "bool \<Rightarrow> string list \<Rightarrow> bytes \<Rightarrow> (string list \<times> bytes) option" where
  "byte_sequence parsed [] destination = (if parsed then Some ([], destination) else None)"
| "byte_sequence parsed (next # args) destination =
    (if take 2 next = ''--'' then if parsed then Some (next # args, destination) else None
     else case parseUnsigned next 0xFF of
         None \<Rightarrow> None
       | Some v \<Rightarrow> byte_sequence True args (destination @ [word_of_nat v]))"

definition parseByteSequence :: "string list \<Rightarrow> bytes \<Rightarrow> (string list \<times> bytes) option" where
  "parseByteSequence args destination = byte_sequence False args destination"

lemma byte_sequence_length: "byte_sequence p args dst = Some (args', dst') \<Longrightarrow> length args' \<le> length args"
  by (induction p args dst rule: byte_sequence.induct)
    (auto split: if_split_asm option.split_asm)

lemma parseByteSequence_length:
  "parseByteSequence args dst = Some (args', dst') \<Longrightarrow> length args' \<le> length args"
  unfolding parseByteSequence_def by (rule byte_sequence_length)

section \<open>Decimal numbers\<close>

fun dec :: "nat \<Rightarrow> string" where
  "dec n = (if n < 10 then [char_of (48 + n)] else dec (n div 10) @ [char_of (48 + n mod 10)])"

declare dec.simps [simp del]

lemma digit_char:
  assumes "n < 10"
  shows "digit_value (char_of (48 + n)) = n" "\<not> is_space (char_of (48 + n))"
    "char_of (48 + n) \<noteq> CHR ''-''" "char_of (48 + n) \<noteq> CHR ''+''" "char_of (48 + n) = CHR ''0'' \<longleftrightarrow> n = 0"
proof -
  have k: "of_char (char_of (48 + n) :: char) = (48 + n :: nat)" using assms by (simp add: of_char_of)
  then show "digit_value (char_of (48 + n)) = n" "\<not> is_space (char_of (48 + n))"
    using assms by (simp_all add: digit_value_def is_space_def)
  have eq: "char_of (48 + n) = c \<longleftrightarrow> 48 + n = of_char c" for c :: char
    using k by (metis char_of_char)
  show "char_of (48 + n) \<noteq> CHR ''-''" "char_of (48 + n) \<noteq> CHR ''+''" "char_of (48 + n) = CHR ''0'' \<longleftrightarrow> n = 0"
    unfolding eq by simp_all
qed

lemma digits_value_snoc: "digits_value base (ds @ [c]) = digits_value base ds * base + digit_value c"
  by (simp add: digits_value_def)

lemma dec_digits: "\<forall>c \<in> set (dec n). digit_value c < 10"
  by (induction n rule: dec.induct) (subst dec.simps, auto simp: digit_char)

lemma dec_value: "digits_value 10 (dec n) = n"
proof (induction n rule: dec.induct)
  case (1 n)
  show ?case
  proof (cases "n < 10")
    case True
    then show ?thesis by (simp add: dec.simps digits_value_def digit_char)
  next
    case False
    with 1 show ?thesis by (subst dec.simps) (simp add: digits_value_snoc digit_char)
  qed
qed

lemma dec_hd:
  obtains d :: nat and s where "dec n = char_of (48 + d) # s" "d < 10" "d = 0 \<Longrightarrow> n = 0"
proof (induction n arbitrary: thesis rule: dec.induct)
  case (1 n)
  show ?case
  proof (cases "n < 10")
    case True
    then show ?thesis by (intro "1.prems" [of n "[]"]) (simp_all add: dec.simps)
  next
    case False
    obtain d :: nat and s where "dec (n div 10) = char_of (48 + d) # s" "d < 10" "d = 0 \<Longrightarrow> n div 10 = 0"
      using "1.IH" [OF False] by blast
    then show ?thesis using False by (intro "1.prems" [of d "s @ [char_of (48 + n mod 10)]"]) (subst dec.simps, auto)
  qed
qed


lemma hex_prefix_dec: "\<not> hex_prefix (dec n)"
proof
  assume "hex_prefix (dec n)"
  then obtain a b s where "dec n = a # b # s" "b = CHR ''x'' \<or> b = CHR ''X''"
    by (cases "dec n" rule: hex_prefix.cases) auto
  moreover have "digit_value (CHR ''x'') = 33" "digit_value (CHR ''X'') = 33" by (simp_all add: digit_value_def)
  ultimately show False using dec_digits [of n] by auto
qed

lemma stoull_dec:
  assumes "n < 2 ^ 64"
  shows "stoull (dec n) = Some (n, length (dec n))"
proof -
  obtain d :: nat and s where d: "dec n = char_of (48 + d) # s" "d < 10" "d = 0 \<Longrightarrow> n = 0" using dec_hd [of n] by metis
  have sp: "dropWhile is_space (dec n) = dec n" "split_sign (dec n) = (False, dec n)"
    using d(1) digit_char [OF d(2)] by simp_all
  show ?thesis
  proof (cases "n = 0")
    case True
    then have z: "dec n = ''0''" using digit_char(5) [of 0] by (simp add: dec.simps)
    then show ?thesis
      by (simp add: stoull_def is_space_def split_base_def digits_value_def True) (simp add: digit_value_def)
  next
    case False
    then have "take 1 (dec n) \<noteq> ''0''" using d digit_char(5) [OF d(2)] by auto
    then have b: "split_base (dec n) = (10, dec n)" using hex_prefix_dec by (simp add: split_base_def)
    have t: "takeWhile (\<lambda>c. digit_value c < 10) (dec n) = dec n" using dec_digits by (simp add: takeWhile_eq_all_conv)
    have "dec n \<noteq> []" using d(1) by simp
    then show ?thesis using assms by (simp add: stoull_def sp b t dec_value)
  qed
qed

text \<open>With a minus sign in front, the value is taken modulo \<open>2 ^ 64\<close>.\<close>

lemma stoull_minus_dec:
  assumes "0 < n" "n < 2 ^ 64"
  shows "stoull (CHR ''-'' # dec n) = Some (2 ^ 64 - n, length (CHR ''-'' # dec n))"
proof -
  obtain d :: nat and s where d: "dec n = char_of (48 + d) # s" "d < 10" "d = 0 \<Longrightarrow> n = 0" using dec_hd [of n] by metis
  have sp: "\<not> is_space (CHR ''-'')" by (simp add: is_space_def)
  have "take 1 (dec n) \<noteq> ''0''" using assms(1) d digit_char(5) [OF d(2)] by auto
  then have b: "split_base (dec n) = (10, dec n)" using hex_prefix_dec by (simp add: split_base_def)
  have t: "takeWhile (\<lambda>c. digit_value c < 10) (dec n) = dec n" using dec_digits by (simp add: takeWhile_eq_all_conv)
  have "dec n \<noteq> []" using d(1) by simp
  then show ?thesis using assms by (simp add: stoull_def sp b t dec_value)
qed

lemma parseUnsigned_dec: "n < 2 ^ 64 \<Longrightarrow> n \<le> max_value \<Longrightarrow> parseUnsigned (dec n) max_value = Some n"
  by (simp add: parseUnsigned_def stoull_dec)

lemma parseUnsigned_le: "parseUnsigned s max_value = Some v \<Longrightarrow> v \<le> max_value \<and> v < 2 ^ 64"
  by (auto simp: parseUnsigned_def stoull_def Let_def split: option.split_asm if_split_asm prod.split_asm)

lemma dec_not_option: "take 2 (dec n) \<noteq> ''--''"
proof -
  obtain d :: nat and s where "dec n = char_of (48 + d) # s" "d < 10" using dec_hd [of n] by metis
  then show ?thesis using digit_char(3) [of d] by (cases s) auto
qed

text \<open>A sequence of decimal bytes is read up to the next option or the end.\<close>

definition next_option :: "string list \<Rightarrow> bool" where
  "next_option args \<longleftrightarrow> args = [] \<or> take 2 (hd args) = ''--''"

lemma byte_sequence_dec:
  assumes "next_option rest" "p \<or> bs \<noteq> []"
  shows "byte_sequence p (map (\<lambda>b. dec (unat b)) bs @ rest) dst = Some (rest, dst @ bs)"
  using assms(2)
proof (induction bs arbitrary: p dst)
  case Nil
  then show ?case using assms(1) by (cases rest) (auto simp: next_option_def)
next
  case (Cons b bs)
  have "unat b < 256" using unsigned_less [of b] by simp
  then have "parseUnsigned (dec (unat b)) 255 = Some (unat b)" by (intro parseUnsigned_dec) auto
  with Cons.IH [of True "dst @ [b]"] show ?case by (simp add: dec_not_option)
qed


text \<open>Against the largest 64-bit number as bound, every negative number is accepted.\<close>

lemma parseUnsigned_minus_dec:
  assumes "0 < n" and "n < 2 ^ 64"
  shows "parseUnsigned (CHR ''-'' # dec n) (2 ^ 64 - 1) = Some (2 ^ 64 - n)"
  using assms stoull_minus_dec [OF assms] by (simp add: parseUnsigned_def)

section \<open>Options\<close>

record Options =
  op_ip :: string
  op_port :: string
  op_type :: string
  op_target_address :: bytes
  op_reply_address :: bytes
  op_address :: "u32 option"
  op_length :: "nat option"
  op_data :: bytes

definition default_options :: Options where
  "default_options = \<lparr>op_ip = ''127.0.0.1'', op_port = ''10030'', op_type = [], op_target_address = [],
     op_reply_address = [], op_address = None, op_length = None, op_data = []\<rparr>"

definition tolower :: "char \<Rightarrow> char" where
  "tolower c = (let k = (of_char c :: nat) in if 65 \<le> k \<and> k \<le> 90 then char_of (k + 32) else c)"

text \<open>\<open>takeValue\<close> with what is done to its value: no next argument is an error.\<close>

definition takeValue :: "(string \<Rightarrow> 'o option) \<Rightarrow> string list \<Rightarrow> (string list \<times> 'o) option" where
  "takeValue f args = (case args of
       [] \<Rightarrow> None
     | v # args \<Rightarrow> (case f v of None \<Rightarrow> None | Some opts \<Rightarrow> Some (args, opts)))"

text \<open>One option: the arguments behind its name, what is left of them and the new options.\<close>

definition option_step :: "string \<Rightarrow> string list \<Rightarrow> Options \<Rightarrow> (string list \<times> Options) option" where
  "option_step name args opts =
    (if name = ''ip'' then takeValue (\<lambda>v. Some (opts\<lparr>op_ip := v\<rparr>)) args
     else if name = ''port'' then takeValue (\<lambda>v. Some (opts\<lparr>op_port := v\<rparr>)) args
     else if name = ''type'' then takeValue (\<lambda>v. Some (opts\<lparr>op_type := map tolower v\<rparr>)) args
     else if name = ''target-address'' then
       (case parseByteSequence args (op_target_address opts) of
          None \<Rightarrow> None
        | Some (args, dst) \<Rightarrow> Some (args, opts\<lparr>op_target_address := dst\<rparr>))
     else if name = ''reply-address'' then
       (case parseByteSequence args (op_reply_address opts) of
          None \<Rightarrow> None
        | Some (args, dst) \<Rightarrow> Some (args, opts\<lparr>op_reply_address := dst\<rparr>))
     else if name = ''address'' then
       takeValue (\<lambda>v. case parseUnsigned v 0xFFFFFFFF of
           None \<Rightarrow> None
         | Some parsed \<Rightarrow> Some (opts\<lparr>op_address := Some (word_of_nat parsed)\<rparr>)) args
     else if name = ''length'' then
       takeValue (\<lambda>v. case parseUnsigned v (2 ^ 64 - 1) of
           None \<Rightarrow> None
         | Some parsed \<Rightarrow> if parsed = 0 then None else Some (opts\<lparr>op_length := Some parsed\<rparr>)) args
     else if name = ''data'' then
       (case parseByteSequence args (op_data opts) of
          None \<Rightarrow> None
        | Some (args, dst) \<Rightarrow> Some (args, opts\<lparr>op_data := dst\<rparr>))
     else None)"

lemma option_step_length: "option_step name args opts = Some (args', opts') \<Longrightarrow> length args' \<le> length args"
  unfolding option_step_def takeValue_def
  by (auto dest: parseByteSequence_length split: if_split_asm option.split_asm list.split_asm prod.split_asm)

function parse_args :: "string list \<Rightarrow> Options \<Rightarrow> Options option" where
  "parse_args [] opts = Some opts"
| "parse_args (arg # args) opts =
    (if take 2 arg \<noteq> ''--'' then None
     else case option_step (drop 2 arg) args opts of
         None \<Rightarrow> None
       | Some (args, opts) \<Rightarrow> parse_args args opts)"
  by pat_completeness auto
termination
  by (relation "measure (\<lambda>(args, opts). length args)") (auto dest: option_step_length)

definition options_complete :: "Options \<Rightarrow> bool" where
  "options_complete opts \<longleftrightarrow>
     (op_type opts = ''read'' \<or> op_type opts = ''write'') \<and>
     op_target_address opts \<noteq> [] \<and> op_reply_address opts \<noteq> [] \<and> op_address opts \<noteq> None \<and>
     (op_type opts = ''read'' \<longrightarrow> op_length opts \<noteq> None) \<and>
     (op_type opts = ''write'' \<longrightarrow> op_data opts \<noteq> [])"

definition parseOptions :: "string list \<Rightarrow> Options option" where
  "parseOptions argv = do {
     opts \<leftarrow> parse_args (tl argv) default_options;
     if options_complete opts then Some opts else None
   }"

section \<open>Printing and parsing\<close>

text \<open>A command line for given options, numbers in decimal.\<close>

definition command_line :: "Options \<Rightarrow> string list" where
  "command_line opts =
     [''--type'', op_type opts, ''--ip'', op_ip opts, ''--port'', op_port opts] @
     ''--target-address'' # map (\<lambda>b. dec (unat b)) (op_target_address opts) @
     ''--reply-address'' # map (\<lambda>b. dec (unat b)) (op_reply_address opts) @
     (case op_address opts of None \<Rightarrow> [] | Some a \<Rightarrow> [''--address'', dec (unat a)]) @
     (case op_length opts of None \<Rightarrow> [] | Some n \<Rightarrow> [''--length'', dec n]) @
     (if op_data opts = [] then [] else ''--data'' # map (\<lambda>b. dec (unat b)) (op_data opts))"

text \<open>Lengths are positive 64-bit numbers.\<close>

definition length_ok :: "Options \<Rightarrow> bool" where
  "length_ok opts \<longleftrightarrow> (case op_length opts of None \<Rightarrow> True | Some n \<Rightarrow> 0 < n \<and> n < 2 ^ 64)"

lemma parse_args_step:
  "option_step name args opts = Some (args', opts') \<Longrightarrow>
   parse_args ((''--'' @ name) # args) opts = parse_args args' opts'"
  by simp

lemma tolower_type: "map tolower ''read'' = ''read''" "map tolower ''write'' = ''write''"
  by (simp_all add: tolower_def)

lemma step_bytes:
  assumes "next_option rest" "bs \<noteq> []"
  shows "option_step ''target-address'' (map (\<lambda>b. dec (unat b)) bs @ rest) opts =
      Some (rest, opts\<lparr>op_target_address := op_target_address opts @ bs\<rparr>)"
    "option_step ''reply-address'' (map (\<lambda>b. dec (unat b)) bs @ rest) opts =
      Some (rest, opts\<lparr>op_reply_address := op_reply_address opts @ bs\<rparr>)"
    "option_step ''data'' (map (\<lambda>b. dec (unat b)) bs @ rest) opts =
      Some (rest, opts\<lparr>op_data := op_data opts @ bs\<rparr>)"
  using assms by (simp_all add: option_step_def parseByteSequence_def byte_sequence_dec)

lemma step_values:
  "option_step ''ip'' (v # rest) opts = Some (rest, opts\<lparr>op_ip := v\<rparr>)"
  "option_step ''port'' (v # rest) opts = Some (rest, opts\<lparr>op_port := v\<rparr>)"
  "option_step ''type'' (v # rest) opts = Some (rest, opts\<lparr>op_type := map tolower v\<rparr>)"
  "option_step ''address'' (dec (unat a) # rest) opts = Some (rest, opts\<lparr>op_address := Some (a :: u32)\<rparr>)"
  "0 < n \<Longrightarrow> n < 2 ^ 64 \<Longrightarrow> option_step ''length'' (dec n # rest) opts = Some (rest, opts\<lparr>op_length := Some n\<rparr>)"
proof -
  have a: "unat a < 4294967296" using unsigned_less [of a] by simp
  have "parseUnsigned (dec (unat a)) 4294967295 = Some (unat a)" using a by (intro parseUnsigned_dec) auto
  then show "option_step ''address'' (dec (unat a) # rest) opts = Some (rest, opts\<lparr>op_address := Some a\<rparr>)"
    by (simp add: option_step_def takeValue_def)
  show "option_step ''length'' (dec n # rest) opts = Some (rest, opts\<lparr>op_length := Some n\<rparr>)" if "0 < n" "n < 2 ^ 64"
  proof -
    have "parseUnsigned (dec n) (2 ^ 64 - 1) = Some n" using that by (intro parseUnsigned_dec) auto
    then show ?thesis using that by (simp add: option_step_def takeValue_def)
  qed
qed (simp_all add: option_step_def takeValue_def)


lemma next_option_simps [simp]: "next_option []" "take 2 a = ''--'' \<Longrightarrow> next_option (a # args)"
  by (simp_all add: next_option_def)

lemma parse_args_cons:
  assumes "option_step name args opts = Some (args', opts')"
  shows "parse_args ((CHR ''-'' # CHR ''-'' # name) # args) opts = parse_args args' opts'"
  using assms by simp

lemma parseOptions_command_line:
  assumes "options_complete opts" and "length_ok opts"
  shows "parseOptions (program # command_line opts) = Some opts"
proof -
  define data where "data = (if op_data opts = [] then [] else ''--data'' # map (\<lambda>b. dec (unat b)) (op_data opts))"
  define len where "len = (case op_length opts of None \<Rightarrow> [] | Some n \<Rightarrow> [''--length'', dec n]) @ data"
  from assms(1) obtain a where a: "op_address opts = Some a" by (auto simp: options_complete_def)
  define addr where "addr = [''--address'', dec (unat a)] @ len"
  have d: "parse_args data o1 = Some (o1\<lparr>op_data := op_data o1 @ op_data opts\<rparr>)" for o1
    using step_bytes(3) [OF next_option_simps(1), of "op_data opts" o1]
    by (cases "op_data opts = []") (simp_all add: data_def)
  have l: "parse_args len o1 = Some (o1\<lparr>op_length := (case op_length opts of None \<Rightarrow> op_length o1 | Some n \<Rightarrow> Some n),
      op_data := op_data o1 @ op_data opts\<rparr>)" for o1
    using assms(2) by (cases "op_length opts") (simp_all add: len_def length_ok_def d step_values(5))
  have ad: "next_option addr" "parse_args addr o1 = parse_args len (o1\<lparr>op_address := Some a\<rparr>)" for o1
    by (simp_all add: addr_def step_values(4))
  have ty: "map tolower (op_type opts) = op_type opts"
    using assms(1) tolower_type by (auto simp: options_complete_def)
  have ne: "op_target_address opts \<noteq> []" "op_reply_address opts \<noteq> []" using assms(1) by (simp_all add: options_complete_def)
  have "command_line opts = [''--type'', op_type opts, ''--ip'', op_ip opts, ''--port'', op_port opts] @
     ''--target-address'' # map (\<lambda>b. dec (unat b)) (op_target_address opts) @
     ''--reply-address'' # map (\<lambda>b. dec (unat b)) (op_reply_address opts) @ addr"
    by (simp add: command_line_def a addr_def len_def data_def)
  then have "parse_args (command_line opts) default_options = Some opts"
    using ne a
    by (simp add: step_values(1-3) step_bytes ad l ty default_options_def split: option.split)
  then show ?thesis using assms(1) by (simp add: parseOptions_def)
qed

lemma option_step_length_ok: "option_step name args opts = Some (args', opts') \<Longrightarrow> length_ok opts \<Longrightarrow> length_ok opts'"
  unfolding option_step_def takeValue_def length_ok_def
  by (auto dest: parseUnsigned_le split: if_split_asm option.split_asm list.split_asm prod.split_asm)

lemma parse_args_length_ok: "parse_args args opts = Some opts' \<Longrightarrow> length_ok opts \<Longrightarrow> length_ok opts'"
  by (induction args opts rule: parse_args.induct)
    (auto dest: option_step_length_ok split: if_split_asm option.split_asm prod.split_asm)

lemma parseOptions_sound: "parseOptions argv = Some opts \<Longrightarrow> options_complete opts \<and> length_ok opts"
  by (auto simp: parseOptions_def default_options_def length_ok_def elim!: bind_SomeE
      dest: parse_args_length_ok [unfolded length_ok_def] split: if_split_asm)

text \<open>C37. The command line of \<open>spwrmap\<close> can say everything: printing options and parsing
  them gives the same options back exactly if they are complete, that is if everything the type of the operation
  requires is there, and the length is a positive 64-bit number. No other options are ever accepted.\<close>

theorem parseOptions_roundtrip:
  "(parseOptions (program # command_line opts) = Some opts \<longleftrightarrow> options_complete opts \<and> length_ok opts) \<and>
   ((\<exists>argv. parseOptions argv = Some opts) \<longleftrightarrow> options_complete opts \<and> length_ok opts)"
  using parseOptions_command_line parseOptions_sound by blast

end
