(* ===== verification/Tcp_Properties.thy ===== *)
theory Tcp_Properties
  imports Node_Properties
begin

unbundle bit_operations_syntax

text \<open>
  The properties of the two backends and of the two classes of nodes: what connecting, accepting
  and shutting down do to the descriptors of the process, and that the operations of the client
  return. The lemmas on descriptors are proved in the locale \<open>posix_fds\<close>, those on termination in
  \<open>posix_signals\<close>.
\<close>


section \<open>Descriptors\<close>

context posix_fds
begin

lemmas keeps = keep_getfl keep_setfl keep_getfd keep_setfd keep_setsockopt keep_get_so_error
  keep_getaddrinfo keep_bind keep_listen

lemma set_cloexec_opened: "set_cloexec S fd w = (r, w') \<Longrightarrow> opened w' = opened w"
  by (auto simp: set_cloexec_def Let_def dest!: keeps split: prod.split_asm if_split_asm)

lemma set_sockopts_opened: "set_sockopts S fd w = (r, w') \<Longrightarrow> opened w' = opened w"
  by (auto simp: set_sockopts_def dest!: keeps set_cloexec_opened split: prod.split_asm if_split_asm)

lemma connect_nonblocking_opened:
  assumes "connect_nonblocking S fd ai ms w = Some (r, w')"
  shows "opened w' = opened w"
proof -
  let ?call = "\<lambda>w. let (r, w) = sys_connect S fd (ai_addr ai) w in (r, (), w)"
  from assms obtain rc x w1 where r1: "retry_eintr S (\<lambda>r. r \<noteq> 0) ?call w = Some (rc, x, w1)"
    and rest: "w' = w1 \<or> (\<exists>prc x2 w2. retry_eintr S (\<lambda>r. r < 0) (sys_poll_out S fd ms) w1 = Some (prc, x2, w2) \<and>
       (w' = w2 \<or> (\<exists>r soerr. sys_get_so_error S fd w2 = (r, soerr, w'))))"
    unfolding connect_nonblocking_def
    by (elim bind_SomeE) (auto elim!: bind_SomeE split: if_split_asm prod.split_asm)
  have "opened w1 = opened w"
    by (rule retry_eintr_keeps [OF r1]) (auto dest: keep_connect split: prod.split_asm)
  moreover have "opened w2 = opened w1"
    if "retry_eintr S (\<lambda>r. r < 0) (sys_poll_out S fd ms) w1 = Some (prc, x2, w2)" for prc x2 w2
    by (rule retry_eintr_keeps [OF that]) (rule keep_poll)
  ultimately show ?thesis using rest keep_get_so_error by metis
qed

lemma connect_with_timeout_opened:
  "connect_with_timeout S fd ai timeout w = Some (r, w') \<Longrightarrow> opened w' = opened w"
  by (auto simp: connect_with_timeout_def Let_def elim!: bind_SomeE dest!: keeps connect_nonblocking_opened
      split: if_split_asm prod.split_asm)
     (metis keep_setfl prod.collapse)+

text \<open>One attempt that fails has closed what it opened.\<close>

lemma connect_loop_opened:
  assumes "connect_loop S timeout ais result c = Some (result', c')" "tc_fd c < 0" "result = Inl e0"
  shows "case result' of
       Inl e \<Rightarrow> tc_fd c' < 0 \<and> opened (tc_sys c') = opened (tc_sys c)
     | Inr _ \<Rightarrow> 0 \<le> tc_fd c' \<and> tc_fd c' \<notin> opened (tc_sys c) \<and>
         opened (tc_sys c') = insert (tc_fd c') (opened (tc_sys c))"
  using assms
proof (induction ais arbitrary: result c e0)
  case Nil
  then show ?case by auto
next
  case (Cons ai ais)
  obtain fd w where s: "sys_socket S (ai_family ai) (ai_socktype ai) (ai_protocol ai) (tc_sys c) = (fd, w)"
    by (cases "sys_socket S (ai_family ai) (ai_socktype ai) (ai_protocol ai) (tc_sys c)")
  note op = socket_opens [OF s]
  show ?case
  proof (cases "fd < 0")
    case True
    from Cons.prems(1) s True obtain w1 where w1: "close_retry S fd w = Some w1"
      and l: "connect_loop S timeout ais (Inl (system_error S w)) (c\<lparr>tc_fd := -1, tc_sys := w1\<rparr>) = Some (result', c')"
      by (auto simp: Let_def elim!: bind_SomeE)
    have "opened w1 = opened (tc_sys c)" using close_retry_opened [OF w1] op True by simp
    with Cons.IH [OF l _ refl] show ?thesis by (simp split: sum.splits)
  next
    case False
    obtain opts w1 where o: "set_sockopts S fd w = (opts, w1)" by (cases "set_sockopts S fd w")
    from Cons.prems(1) s False o obtain r w2 where
      r: "(case opts of Inl e \<Rightarrow> Some (Inl e, w1) | Inr _ \<Rightarrow> connect_with_timeout S fd ai timeout w1) = Some (r, w2)"
      and l: "(case r of Inl e \<Rightarrow> do { w \<leftarrow> close_retry S fd w2;
             connect_loop S timeout ais (Inl e) (c\<lparr>tc_fd := -1, tc_sys := w\<rparr>) }
         | Inr _ \<Rightarrow> Some (Inr (), c\<lparr>tc_fd := fd, tc_sys := w2\<rparr>)) = Some (result', c')"
      by (auto simp: Let_def elim!: bind_SomeE cong: sum.case_cong)
    have w2: "opened w2 = insert fd (opened (tc_sys c))" "fd \<notin> opened (tc_sys c)"
      using set_sockopts_opened [OF o] op False r by (auto dest: connect_with_timeout_opened split: sum.split_asm)
    show ?thesis
    proof (cases r)
      case (Inr u)
      with l w2 False show ?thesis by auto
    next
      case (Inl e)
      with l obtain w3 where w3: "close_retry S fd w2 = Some w3"
        and l: "connect_loop S timeout ais (Inl e) (c\<lparr>tc_fd := -1, tc_sys := w3\<rparr>) = Some (result', c')"
        by (auto elim!: bind_SomeE)
      have "opened w3 = opened (tc_sys c)" using close_retry_opened [OF w3] w2 False by auto
      with Cons.IH [OF l _ refl] show ?thesis by (simp split: sum.splits)
    qed
  qed
qed

end

text \<open>C23. Connecting neither leaks nor loses a descriptor, whichever of the system calls fail and however
  often: on success the client owns exactly one new open descriptor, on failure it owns none and every
  descriptor opened on the way has been closed. A client that is already connected stays as it is.\<close>

theorem connect_leaks_no_descriptor:
  assumes "posix_fds S opened" and "TCPClient_connect S timeout c = Some (result, c')"
  shows "if 0 \<le> tc_fd c then result = Inl (Generic already_connected) \<and> c' = c
     else case result of
       Inl e \<Rightarrow> tc_fd c' < 0 \<and> opened (tc_sys c') = opened (tc_sys c)
     | Inr _ \<Rightarrow> 0 \<le> tc_fd c' \<and> tc_fd c' \<notin> opened (tc_sys c) \<and>
         opened (tc_sys c') = insert (tc_fd c') (opened (tc_sys c))"
proof (cases "0 \<le> tc_fd c")
  case False
  obtain rc res w where g: "sys_getaddrinfo S (tc_ip_address c) (tc_port c) Client_hints (tc_sys c) = (rc, res, w)"
    by (cases "sys_getaddrinfo S (tc_ip_address c) (tc_port c) Client_hints (tc_sys c)")
  note w = posix_fds.keep_getaddrinfo [OF assms(1) g]
  show ?thesis
  proof (cases "rc = 0")
    case True
    with assms(2) False g obtain c1 where
      l: "connect_loop S timeout res (Inl (Generic invalid_argument)) (c\<lparr>tc_sys := w\<rparr>) = Some (result, c1)"
      and c': "c' = (if tc_fd c1 < 0 then c1\<lparr>tc_fd := -1\<rparr> else c1)"
      by (auto simp: TCPClient_connect_def Let_def elim!: bind_SomeE)
    from posix_fds.connect_loop_opened [OF assms(1) l _ refl] False w show ?thesis
      by (auto simp: c' split: sum.splits)
  qed (use assms(2) False g w in \<open>auto simp: TCPClient_connect_def Let_def\<close>)
qed (use assms(2) in \<open>simp add: TCPClient_connect_def\<close>)


definition fresh_pipe :: pipe where
  "fresh_pipe = \<lparr>pp_in = [], pp_out = [], pp_step = 4, pp_open = []\<rparr>"

lemma pipe_results:
  "sys_errno pipe_sys w = EAGAIN" "sys_getfl pipe_sys fd w = (0, w)" "sys_setfl pipe_sys fd fl w = (0, w)"
  "sys_getfd pipe_sys fd w = (0, w)" "sys_setfd pipe_sys fd fl w = (0, w)" "sys_setsockopt pipe_sys fd opt w = (0, w)"
  "sys_getaddrinfo pipe_sys host port hints w =
     (0, [\<lparr>ai_family = 2, ai_socktype = 1, ai_protocol = 6, ai_addr = []\<rparr>], w)"
  "sys_socket pipe_sys family type protocol w = new_fd w" "sys_connect pipe_sys fd addr w = (0, w)"
  "sys_bind pipe_sys fd addr w = (0, w)" "sys_listen pipe_sys fd w = (0, w)" "sys_accept pipe_sys fd w = new_fd w"
  "sys_close pipe_sys fd w = (0, w\<lparr>pp_open := filter (\<lambda>x. x \<noteq> fd) (pp_open w)\<rparr>)"
  "sys_shutdown pipe_sys fd w = (0, w)"
  by (simp_all add: pipe_sys_def)

lemmas pipe_calls = pipe_results new_fd_def fresh_pipe_def Let_def posix_consts

lemma pipe_connects: "TCPClient_connect pipe_sys 1000 (TCPClient fresh_pipe ip port) =
    Some (Inr (), (TCPClient (fresh_pipe\<lparr>pp_open := [3]\<rparr>) ip port)\<lparr>tc_fd := 3\<rparr>)"
  by (simp add: TCPClient_connect_def TCPClient_def set_sockopts_def set_cloexec_def connect_with_timeout_def
      connect_nonblocking_def retry_eintr_once [OF pipe_no_eintr] pipe_calls)

theorem connect_leaks_no_descriptor_witness:
  "\<exists>c'. TCPClient_connect pipe_sys 1000 (TCPClient fresh_pipe ''localhost'' ''10030'') = Some (Inr (), c') \<and>
     tc_fd c' \<notin> {} \<and> set (pp_open (tc_sys c')) = {tc_fd c'}"
proof (intro exI conjI)
  show "TCPClient_connect pipe_sys 1000 (TCPClient fresh_pipe ''localhost'' ''10030'') =
    Some (Inr (), (TCPClient (fresh_pipe\<lparr>pp_open := [3]\<rparr>) ''localhost'' ''10030'')\<lparr>tc_fd := 3\<rparr>)"
    by (rule pipe_connects)
qed (use connect_leaks_no_descriptor [OF pipe_fds.posix_fds_axioms pipe_connects, of "''localhost''" "''10030''"]
  in \<open>simp_all add: TCPClient_def fresh_pipe_def\<close>)

section \<open>Termination\<close>




section \<open>Accepting\<close>

context posix_fds
begin

lemma server_sockopts_opened:
  "set_listening_sockopt S fd w = (r, w') \<Longrightarrow> opened w' = opened w"
  "server_set_sockopts S fd w = (r, w') \<Longrightarrow> opened w' = opened w"
  by (auto simp: set_listening_sockopt_def server_set_sockopts_def dest!: keep_setsockopt set_cloexec_opened
      split: prod.split_asm if_split_asm)

lemma close_listen_opened:
  assumes "close_listen S s = Some s'"
  shows "ts_listen_fd s' = -1 \<and> ts_client_fd s' = ts_client_fd s \<and>
    opened (ts_sys s') = (if ts_listen_fd s < 0 then opened (ts_sys s) else opened (ts_sys s) - {ts_listen_fd s})"
  using assms by (auto simp: close_listen_def elim!: bind_SomeE dest: close_retry_opened)

lemma close_client_opened:
  assumes "close_client S s = Some s'"
  shows "ts_client_fd s' = -1 \<and> ts_listen_fd s' = ts_listen_fd s \<and>
    opened (ts_sys s') = (if ts_client_fd s < 0 then opened (ts_sys s) else opened (ts_sys s) - {ts_client_fd s})"
  using assms by (auto simp: close_client_def elim!: bind_SomeE dest: close_retry_opened)

lemma open_listen_opened:
  assumes "open_listen S ai s = Some (r, s')"
  shows "ts_client_fd s' = ts_client_fd s \<and> (case r of
       Inl e \<Rightarrow> ts_listen_fd s' < 0 \<and> opened (ts_sys s') = opened (ts_sys s)
     | Inr _ \<Rightarrow> 0 \<le> ts_listen_fd s' \<and> ts_listen_fd s' \<notin> opened (ts_sys s) \<and>
         opened (ts_sys s') = insert (ts_listen_fd s') (opened (ts_sys s)))"
proof -
  obtain fd w where s: "sys_socket S (ai_family ai) (ai_socktype ai) (ai_protocol ai) (ts_sys s) = (fd, w)"
    by (cases "sys_socket S (ai_family ai) (ai_socktype ai) (ai_protocol ai) (ts_sys s)")
  obtain opts w1 where o: "set_listening_sockopt S fd w = (opts, w1)" by (cases "set_listening_sockopt S fd w")
  obtain r2 w2 where b: "sys_bind S fd (ai_addr ai) w1 = (r2, w2)" by (cases "sys_bind S fd (ai_addr ai) w1")
  obtain r3 w3 where l: "sys_listen S fd w2 = (r3, w3)" by (cases "sys_listen S fd w2")
  have eq: "opened w1 = opened w" "opened w2 = opened w1" "opened w3 = opened w2"
    using server_sockopts_opened(1) [OF o] keep_bind [OF b] keep_listen [OF l] by simp_all
  from assms show ?thesis
    using socket_opens [OF s] eq unfolding open_listen_def s
    by (auto simp: Let_def o b l elim!: bind_SomeE dest!: close_listen_opened split: if_split_asm sum.split_asm)
qed

lemma accept_client_opened:
  assumes "accept_client S s = Some (r, s')" "0 \<le> ts_listen_fd s"
  shows "case r of
       Inl e \<Rightarrow> ts_client_fd s' < 0 \<and> ts_listen_fd s' < 0 \<and> opened (ts_sys s') = opened (ts_sys s) - {ts_listen_fd s}
     | Inr _ \<Rightarrow> 0 \<le> ts_client_fd s' \<and> ts_client_fd s' \<notin> opened (ts_sys s) \<and> ts_listen_fd s' = ts_listen_fd s \<and>
         opened (ts_sys s') = insert (ts_client_fd s') (opened (ts_sys s))"
proof -
  define call where "call = (\<lambda>w. let (r, w) = sys_accept S (ts_listen_fd s) w in (r, (), w))"
  obtain fd w where a: "retry_eintr S (\<lambda>r. r < 0) call (ts_sys s) = Some (fd, (), w)"
    using assms(1) unfolding accept_client_def call_def [symmetric] by (auto elim!: bind_SomeE)
  have acc: "opened v' = (if fd < 0 then opened v else insert fd (opened v)) \<and> (0 \<le> fd \<longrightarrow> fd \<notin> opened v)"
    if "call v = (fd, x, v')" for v fd x v'
    using that accept_opens [of "ts_listen_fd s" v] by (auto simp: call_def split: prod.split_asm)
  obtain w1 where w1: "opened w1 = opened (ts_sys s)" "call w1 = (fd, (), w)"
    using retry_eintr_induct [where P = "\<lambda>v. opened v = opened (ts_sys s)", OF a refl] acc by (metis (lifting))
  have w: "opened w = (if fd < 0 then opened (ts_sys s) else insert fd (opened (ts_sys s))) \<and>
      (0 \<le> fd \<longrightarrow> fd \<notin> opened (ts_sys s))"
    using acc [OF w1(2)] w1(1) by simp
  obtain opts w2 where o: "server_set_sockopts S fd w = (opts, w2)" by (cases "server_set_sockopts S fd w")
  have "opened w2 = opened w" by (rule server_sockopts_opened(2) [OF o])
  with assms w show ?thesis
    unfolding accept_client_def call_def [symmetric] a
    by (auto simp: Let_def o elim!: bind_SomeE dest!: close_listen_opened close_client_opened
        split: if_split_asm sum.split_asm)
qed

end

text \<open>C25. Accepting on a bind address that resolves to one socket address neither leaks nor loses a
  descriptor: on success the server owns exactly the accepted connection and no listening socket, on failure
  nothing.\<close>

theorem accept_once_leaks_no_descriptor:
  assumes "posix_fds S opened" and "ts_listen_fd s < 0" and "ts_client_fd s < 0"
    and "sys_getaddrinfo S (ts_bind_address s) (ts_port s) Server_hints (ts_sys s) = (rc, ais, w)"
    and "length ais \<le> 1" and "TCPServer_accept_once S s = Some (result, s')"
  shows "ts_listen_fd s' < 0 \<and> (case result of
       Inl e \<Rightarrow> ts_client_fd s' < 0 \<and> opened (ts_sys s') = opened (ts_sys s)
     | Inr _ \<Rightarrow> 0 \<le> ts_client_fd s' \<and> ts_client_fd s' \<notin> opened (ts_sys s) \<and>
         opened (ts_sys s') = insert (ts_client_fd s') (opened (ts_sys s)))"
proof -
  note w = posix_fds.keep_getaddrinfo [OF assms(1,4)]
  let ?s = "s\<lparr>ts_sys := w\<rparr>"
  have acc: "TCPServer_accept_once S s = (if rc \<noteq> 0 then Some (Inl (Gai_code rc), ?s) else do {
      (result, s) \<leftarrow> accept_loop S ais (Inl (Generic invalid_argument)) ?s;
      if ts_client_fd s < 0 then Some (result, s\<lparr>ts_client_fd := -1\<rparr>)
      else do { s \<leftarrow> close_listen S s; Some (Inr (), s) } })"
    by (simp add: TCPServer_accept_once_def assms(4))
  consider "rc \<noteq> 0" | "rc = 0" "ais = []" | ai where "rc = 0" "ais = [ai]"
    using assms(5) by (cases ais) auto
  then show ?thesis
  proof cases
    case 3
    with assms(6) acc obtain r1 s1 where o: "open_listen S ai ?s = Some (r1, s1)"
      by (auto elim!: bind_SomeE)
    note o1 = posix_fds.open_listen_opened [OF assms(1) o]
    show ?thesis
    proof (cases r1)
      case (Inl e)
      with 3 assms(3,6) acc o o1 w show ?thesis by (auto split: if_split_asm)
    next
      case (Inr u)
      with 3 assms(6) acc o obtain r2 s2 where a: "accept_client S s1 = Some (r2, s2)"
        by (auto elim!: bind_SomeE)
      have "0 \<le> ts_listen_fd s1" using o1 Inr by simp
      note a1 = posix_fds.accept_client_opened [OF assms(1) a this]
      show ?thesis
      proof (cases r2)
        case (Inl e)
        with 3 Inr assms(6) acc o o1 a a1 w show ?thesis by auto
      next
        case (Inr u')
        with 3 \<open>r1 = Inr u\<close> assms(6) acc o a a1 obtain s3 where "close_listen S s2 = Some s3" "result = Inr ()" "s' = s3"
          by (auto elim!: bind_SomeE)
        with posix_fds.close_listen_opened [OF assms(1) this(1)] Inr \<open>r1 = Inr u\<close> o1 a1 w show ?thesis by auto
      qed
    qed
  qed (use assms(2,3,6) acc w in \<open>auto split: if_split_asm\<close>)
qed

lemma pipe_accepts: "TCPServer_accept_once pipe_sys (TCPServer fresh_pipe ip port) =
    Some (Inr (), (TCPServer (fresh_pipe\<lparr>pp_open := [4]\<rparr>) ip port)\<lparr>ts_client_fd := 4\<rparr>)"
  by (simp add: TCPServer_accept_once_def TCPServer_def open_listen_def accept_client_def set_listening_sockopt_def
      server_set_sockopts_def set_cloexec_def close_listen_def close_retry_def retry_eintr_once [OF pipe_no_eintr] pipe_calls)

theorem accept_once_leaks_no_descriptor_witness:
  "\<exists>s'. TCPServer_accept_once pipe_sys (TCPServer fresh_pipe ''localhost'' ''10030'') = Some (Inr (), s') \<and>
     ts_listen_fd s' < 0 \<and> set (pp_open (ts_sys s')) = {ts_client_fd s'}"
proof (intro exI conjI)
  let ?s = "TCPServer fresh_pipe ''localhost'' ''10030''"
  show "TCPServer_accept_once pipe_sys ?s =
    Some (Inr (), (TCPServer (fresh_pipe\<lparr>pp_open := [4]\<rparr>) ''localhost'' ''10030'')\<lparr>ts_client_fd := 4\<rparr>)"
    by (rule pipe_accepts)
qed (use accept_once_leaks_no_descriptor [OF pipe_fds.posix_fds_axioms _ _ pipe_results(7) _ pipe_accepts, of "''localhost''" "''10030''"]
  in \<open>simp_all add: TCPServer_def fresh_pipe_def\<close>)

definition two_address_sys :: "pipe sys" where
  "two_address_sys = pipe_sys\<lparr>sys_getaddrinfo := (\<lambda>host port hints w.
     (0, replicate 2 \<lparr>ai_family = 2, ai_socktype = 1, ai_protocol = 6, ai_addr = []\<rparr>, w))\<rparr>"

lemma two_address_results:
  "sys_errno two_address_sys w = EAGAIN"
  "sys_getfd two_address_sys fd w = (0, w)" "sys_setfd two_address_sys fd fl w = (0, w)"
  "sys_setsockopt two_address_sys fd opt w = (0, w)"
  "sys_getaddrinfo two_address_sys host port hints w =
     (0, replicate 2 \<lparr>ai_family = 2, ai_socktype = 1, ai_protocol = 6, ai_addr = []\<rparr>, w)"
  "sys_socket two_address_sys family type protocol w = new_fd w"
  "sys_bind two_address_sys fd addr w = (0, w)" "sys_listen two_address_sys fd w = (0, w)"
  "sys_accept two_address_sys fd w = new_fd w"
  "sys_close two_address_sys fd w = (0, w\<lparr>pp_open := filter (\<lambda>x. x \<noteq> fd) (pp_open w)\<rparr>)"
  by (simp_all add: two_address_sys_def pipe_results)

text \<open>With two addresses the loop of \<open>accept_once\<close> does not stop at the first connection: when the second address can
  be listened on too and a second client is accepted there, the server owns the second connection only. The first connection and the
  first listening socket stay open, and the server has forgotten both.\<close>

lemma second_address_loses_connection:
  assumes "posix_fds S opened"
    and "sys_getaddrinfo S (ts_bind_address s) (ts_port s) Server_hints (ts_sys s) = (0, [ai1, ai2], w)"
    and "open_listen S ai1 (s\<lparr>ts_sys := w\<rparr>) = Some (Inr (), s1)" and "accept_client S s1 = Some (Inr (), s2)"
    and "open_listen S ai2 s2 = Some (Inr (), s3)" and "accept_client S s3 = Some (Inr (), s4)"
    and "TCPServer_accept_once S s = Some (result, s')"
  shows "result = Inr () \<and> ts_listen_fd s' = -1 \<and> ts_client_fd s' \<notin> {ts_listen_fd s1, ts_client_fd s2} \<and>
     {ts_listen_fd s1, ts_client_fd s2} \<subseteq> opened (ts_sys s')"
proof -
  note l1 = posix_fds.open_listen_opened [OF assms(1,3), simplified] and l2 = posix_fds.open_listen_opened [OF assms(1,5), simplified]
  have a1: "0 \<le> ts_client_fd s2" "opened (ts_sys s2) = insert (ts_client_fd s2) (opened (ts_sys s1))"
    "ts_listen_fd s2 = ts_listen_fd s1"
    using posix_fds.accept_client_opened [OF assms(1,4)] l1 by simp_all
  have a2: "0 \<le> ts_client_fd s4" "ts_client_fd s4 \<notin> opened (ts_sys s3)" "ts_listen_fd s4 = ts_listen_fd s3"
    "opened (ts_sys s4) = insert (ts_client_fd s4) (opened (ts_sys s3))"
    using posix_fds.accept_client_opened [OF assms(1,6)] l2 by simp_all
  from assms(2-7) a2(1) have c: "close_listen S s4 = Some s'" "result = Inr ()"
    by (auto simp: TCPServer_accept_once_def elim!: bind_SomeE)
  with posix_fds.close_listen_opened [OF assms(1) c(1)] l1 l2 a1 a2 show ?thesis by auto
qed

lemma two_addresses_accepted:
  "TCPServer_accept_once two_address_sys (TCPServer fresh_pipe ip port) =
     Some (Inr (), \<lparr>ts_listen_fd = -1, ts_client_fd = 6, ts_bind_address = ip, ts_port = port,
       ts_sys = fresh_pipe\<lparr>pp_open := [6, 4, 3]\<rparr>\<rparr>)"
proof -
  have "sys_errno two_address_sys w \<noteq> EINTR" for w by (simp add: two_address_results posix_consts)
  note once = retry_eintr_once [OF this]
  show ?thesis
    by (simp add: TCPServer_accept_once_def TCPServer_def open_listen_def accept_client_def set_listening_sockopt_def
      server_set_sockopts_def set_cloexec_def close_listen_def close_retry_def once two_address_results
      new_fd_def fresh_pipe_def Let_def replicate_2)
qed

section \<open>Connecting and shutting down a node\<close>

text \<open>A client node that has been shut down cannot be used again: its backend is gone, and the next
  \<open>connect\<close> goes through the empty pointer.\<close>

lemma connect_after_shutdown_undefined:
  assumes "SpwRmapTCPClient_shutdown S nd = Some (Inr (), nd')"
  shows "nd_tcp_backend nd' = None \<and> SpwRmapTCPClient_connect S timeout nd' = None"
  using assms by (auto simp: SpwRmapTCPClient_shutdown_def SpwRmapTCPClient_connect_def on_backend_def Let_def
      elim!: bind_SomeE split: if_split_asm sum.split_asm)

lemma connect_after_shutdown_undefined_witness:
  "\<exists>nd'. SpwRmapTCPClient_shutdown pipe_sys sample_node = Some (Inr (), nd') \<and>
     SpwRmapTCPClient_connect pipe_sys 1000 nd' = None"
proof -
  obtain nd' where "SpwRmapTCPClient_shutdown pipe_sys sample_node = Some (Inr (), nd')"
    by (simp add: SpwRmapTCPClient_shutdown_def on_backend_def client_disconnect_def TCPClient_shutdown_def
        TCPClient_disconnect_def close_retry_def retry_eintr_once [OF pipe_no_eintr] pipe_results)
  with connect_after_shutdown_undefined [OF this] show ?thesis by blast
qed

text \<open>\<open>connect\<close> on a client node that is connected reports \<open>already_connected\<close> and, as on every
  error, disconnects: the connection that was in use is closed.\<close>

lemma connect_twice_disconnects:
  assumes "posix_fds S opened" and "nd_tcp_backend nd = Some c" and "0 \<le> tc_fd c"
    and "SpwRmapTCPClient_connect S timeout nd = Some (result, nd')"
  shows "result = Inl (Generic already_connected) \<and>
     (\<exists>c'. nd_tcp_backend nd' = Some c' \<and> tc_fd c' = -1 \<and> opened (tc_sys c') = opened (tc_sys c) - {tc_fd c})"
  using assms
  by (auto simp: SpwRmapTCPClient_connect_def TCPClient_connect_def on_backend_def client_disconnect_def
      TCPClient_disconnect_def Let_def elim!: bind_SomeE dest!: posix_fds.close_retry_opened)

lemma connect_twice_disconnects_witness:
  "\<exists>nd' c'. SpwRmapTCPClient_connect pipe_sys 1000 sample_node = Some (Inl (Generic already_connected), nd') \<and>
     nd_tcp_backend nd' = Some c' \<and> tc_fd c' = -1 \<and> set (pp_open (tc_sys c')) = {}"
proof -
  obtain result nd' where r: "SpwRmapTCPClient_connect pipe_sys 1000 sample_node = Some (result, nd')"
    by (simp add: SpwRmapTCPClient_connect_def TCPClient_connect_def on_backend_def client_disconnect_def
      TCPClient_disconnect_def Let_def close_retry_def retry_eintr_once [OF pipe_no_eintr] pipe_results)
  from connect_twice_disconnects [OF pipe_fds.posix_fds_axioms sample_node_fields(8) _ r] r show ?thesis
    by (auto simp: sample_pipe_def)
qed
end
