(* ===== verification/App_Spwrmap.thy ===== *)
theory App_Spwrmap
  imports App_Options Tcp_Properties
begin

text \<open>
  The program \<open>app/spwrmap.cc\<close>: one synchronous read or write over a new connection. What it
  writes to \<open>std::cout\<close> is part of the result, messages on \<open>std::cerr\<close> are not.
\<close>

unbundle bit_operations_syntax

section \<open>Output\<close>

definition hex_digit :: "nat \<Rightarrow> char" where
  "hex_digit d = (if d < 10 then char_of (48 + d) else char_of (87 + d))"

fun hex :: "nat \<Rightarrow> string" where
  "hex n = (if n < 16 then [hex_digit n] else hex (n div 16) @ [hex_digit (n mod 16)])"

declare hex.simps [simp del]

text \<open>\<open>std::setw(w)\<close> with \<open>std::setfill('0')\<close>.\<close>

definition fill_zeros :: "nat \<Rightarrow> string \<Rightarrow> string" where
  "fill_zeros w s = replicate (w - length s) (CHR ''0'') @ s"

definition newline :: string where "newline = [char_of (10 :: nat)]"

section \<open>The program\<close>

definition kInitiatorLogicalAddress :: u8 where "kInitiatorLogicalAddress = 0xFE"
definition kTargetLogicalAddress :: u8 where "kTargetLogicalAddress = 0xFE"

text \<open>The members of the configuration that have default values.\<close>

definition default_config :: "string \<Rightarrow> string \<Rightarrow> SpwRmapTCPNodeConfig" where
  "default_config ip_address port = \<lparr>cf_ip_address = ip_address, cf_port = port, cf_send_buffer_size = 4096,
     cf_recv_buffer_size = 4096, cf_send_pool_size = 4, cf_recv_pool_size = 4, cf_transaction_id_min = 0x20,
     cf_transaction_id_max = 0x40, cf_buffer_policy = AutoResize, cf_send_timeout = 500000\<rparr>"

text \<open>
  The state of the user is the buffer. The result is whether the operation succeeded and what is
  written to \<open>std::cout\<close>. \<open>None\<close>: the exception of a vector longer than any vector may be ends the
  program. \<open>clock\<close> and \<open>wait\<close> are those of the synchronous operations.
\<close>

definition performRead ::
    "'b backend \<Rightarrow> (nat \<Rightarrow> nat \<Rightarrow> int) \<Rightarrow> (nat \<Rightarrow> nat \<Rightarrow> ('b, bytes) node \<Rightarrow> ('b, bytes) node option) \<Rightarrow>
     Options \<Rightarrow> target_node \<Rightarrow> ('b, bytes) node \<Rightarrow> ((bool \<times> string) \<times> ('b, bytes) node) option" where
  "performRead B clock wait opts target client = do {
     n \<leftarrow> op_length opts;
     address \<leftarrow> op_address opts;
     buffer \<leftarrow> vector_resize n [];
     (res, client) \<leftarrow> read_sync B clock wait target address n (\<lambda>bytes _. bytes) 3 (client\<lparr>nd_user := buffer\<rparr>);
     case res of
       Inl _ \<Rightarrow> Some ((False, []), client)
     | Inr _ \<Rightarrow> Some ((True,
         ''Read '' @ dec (length (nd_user client)) @ '' bytes from 0x'' @ fill_zeros 8 (hex (unat address)) @ '':'' @
         concat (map (\<lambda>byte. '' 0x'' @ fill_zeros 2 (hex (unat byte))) (nd_user client)) @ newline), client)
   }"

definition performWrite ::
    "'b backend \<Rightarrow> (nat \<Rightarrow> nat \<Rightarrow> int) \<Rightarrow> (nat \<Rightarrow> nat \<Rightarrow> ('b, bytes) node \<Rightarrow> ('b, bytes) node option) \<Rightarrow>
     Options \<Rightarrow> target_node \<Rightarrow> ('b, bytes) node \<Rightarrow> ((bool \<times> string) \<times> ('b, bytes) node) option" where
  "performWrite B clock wait opts target client = do {
     address \<leftarrow> op_address opts;
     (res, client) \<leftarrow> write_sync B clock wait target address (op_data opts) 3 client;
     case res of
       Inl _ \<Rightarrow> Some ((False, []), client)
     | Inr _ \<Rightarrow> Some ((True,
         ''Wrote '' @ dec (length (op_data opts)) @ '' bytes to 0x'' @ fill_zeros 8 (hex (unat address)) @
         '' successfully.'' @ newline), client)
   }"

text \<open>
  The exit code, the output and the node if one was made. The thread that runs \<open>runLoop\<close> is behind
  \<open>wait\<close>; joining it at the end is left out.
\<close>

definition spwrmap_main ::
    "'w sys \<Rightarrow> (nat \<Rightarrow> nat \<Rightarrow> int) \<Rightarrow>
     (nat \<Rightarrow> nat \<Rightarrow> ('w tcp_client, bytes) node \<Rightarrow> ('w tcp_client, bytes) node option) \<Rightarrow>
     string list \<Rightarrow> 'w \<Rightarrow> (nat \<times> string \<times> ('w tcp_client, bytes) node option) option" where
  "spwrmap_main S clock wait argv w =
    (if length argv = 1 then Some (1, [], None)
     else if ''--help'' \<in> set (tl argv) then Some (0, [], None)
     else case parseOptions argv of
         None \<Rightarrow> Some (1, [], None)
       | Some opts \<Rightarrow> do {
           let client = setInitiatorLogicalAddress kInitiatorLogicalAddress
             (SpwRmapTCPNodeImpl (TCPClient w) (default_config (op_ip opts) (op_port opts)) []);
           (res, client) \<leftarrow> SpwRmapTCPClient_connect S 1000000 client;
           case res of
             Inl _ \<Rightarrow> Some (1, [], Some client)
           | Inr _ \<Rightarrow> do {
               let target = TargetNodeDynamic kTargetLogicalAddress (op_target_address opts) (op_reply_address opts);
               ((success, output), client) \<leftarrow>
                 (if op_type opts = ''read'' then performRead (TCPClient_backend S) clock wait opts target client
                  else performWrite (TCPClient_backend S) clock wait opts target client);
               (res, client) \<leftarrow> SpwRmapTCPClient_shutdown S client;
               Some (if success \<and> \<not> isl res then 0 else 1, output, Some client)
             }
         })"

section \<open>Exit codes\<close>

lemma performRead_output:
  "performRead B clock wait opts target nd = Some ((success, out), nd') \<Longrightarrow> success \<longleftrightarrow> out \<noteq> []"
  by (auto simp: performRead_def elim!: bind_SomeE split: sum.split_asm)

lemma performWrite_output:
  "performWrite B clock wait opts target nd = Some ((success, out), nd') \<Longrightarrow> success \<longleftrightarrow> out \<noteq> []"
  by (auto simp: performWrite_def elim!: bind_SomeE split: sum.split_asm)

lemma shutdown_destroys:
  "SpwRmapTCPClient_shutdown S nd = Some (res, nd') \<Longrightarrow> \<not> isl res \<Longrightarrow> nd_tcp_backend nd' = None"
  by (auto simp: SpwRmapTCPClient_shutdown_def Let_def elim!: bind_SomeE split: sum.split_asm if_split_asm)

text \<open>C38. The exit code of \<open>spwrmap\<close> is 0 or 1. It is 0 only if help was asked for, or if the options
  were complete, the result of the operation has been printed and the connection has been closed. When the options are
  not accepted, no connection is made.\<close>

theorem spwrmap_exit_code:
  assumes "spwrmap_main S clock wait argv w = Some (code, output, client)"
  shows "code \<le> 1 \<and>
     (code = 0 \<longrightarrow> ''--help'' \<in> set (tl argv) \<and> output = [] \<or>
        output \<noteq> [] \<and> (\<exists>opts. parseOptions argv = Some opts \<and> options_complete opts) \<and>
        (\<exists>nd. client = Some nd \<and> nd_tcp_backend nd = None)) \<and>
     (parseOptions argv = None \<longrightarrow> client = None)"
proof (cases "length argv = 1 \<or> ''--help'' \<in> set (tl argv) \<or> parseOptions argv = None")
  case True
  then show ?thesis using assms by (auto simp: spwrmap_main_def split: if_split_asm)
next
  case False
  then obtain opts where opts: "parseOptions argv = Some opts" by auto
  note ok = parseOptions_sound [OF opts]
  define nd0 where "nd0 = setInitiatorLogicalAddress kInitiatorLogicalAddress
    (SpwRmapTCPNodeImpl (TCPClient w) (default_config (op_ip opts) (op_port opts)) ([] :: bytes))"
  from assms False opts obtain res nd1 where c: "SpwRmapTCPClient_connect S 1000000 nd0 = Some (res, nd1)"
    by (auto simp: spwrmap_main_def nd0_def elim!: bind_SomeE)
  show ?thesis
  proof (cases res)
    case (Inl e)
    then show ?thesis using assms False c by (auto simp: spwrmap_main_def opts nd0_def)
  next
    case (Inr u)
    define target where "target = TargetNodeDynamic kTargetLogicalAddress (op_target_address opts) (op_reply_address opts)"
    define run where "run = (if op_type opts = ''read'' then performRead (TCPClient_backend S) clock wait opts target nd1
       else performWrite (TCPClient_backend S) clock wait opts target nd1)"
    have m: "run \<bind> (\<lambda>((success, output), client). SpwRmapTCPClient_shutdown S client \<bind>
        (\<lambda>(res, client). Some (if success \<and> \<not> isl res then 0 else 1, output, Some client))) = Some (code, output, client)"
      using assms False c Inr by (simp add: spwrmap_main_def opts nd0_def target_def run_def Let_def split del: if_split cong: if_cong)
    then obtain success nd2 where r: "run = Some ((success, output), nd2)"
      by (auto elim!: bind_SomeE)
    then have "success \<longleftrightarrow> output \<noteq> []"
      by (auto simp: run_def dest: performRead_output performWrite_output split: if_split_asm)
    with m r ok opts show ?thesis
      by (auto elim!: bind_SomeE dest: shutdown_destroys split: if_split_asm)
  qed
qed

subsection \<open>A run\<close>

definition sample_options :: Options where
  "sample_options = default_options\<lparr>op_type := ''write'', op_target_address := [3, 6], op_reply_address := [2, 6],
     op_address := Some 0x44A2006C, op_data := [0x32, 0x42]\<rparr>"

text \<open>The node of this run once it is connected.\<close>

definition sample_client :: "(pipe tcp_client, bytes) node" where
  "sample_client = SpwRmapTCPNodeImpl (\<lambda>ip port. (TCPClient (fresh_pipe\<lparr>pp_open := [3]\<rparr>) ip port)\<lparr>tc_fd := 3\<rparr>)
     (default_config ''127.0.0.1'' ''10030'') []"

definition sample_remote :: target_node where "sample_remote = TargetNodeDynamic 0xFE [3, 6] [2, 6]"

lemma sample_connects:
  "SpwRmapTCPClient_connect pipe_sys 1000000 (setInitiatorLogicalAddress kInitiatorLogicalAddress
     (SpwRmapTCPNodeImpl (TCPClient fresh_pipe) (default_config ''127.0.0.1'' ''10030'') [])) =
   Some (Inr (), sample_client)"
  by (simp add: SpwRmapTCPClient_connect_def on_backend_def TCPClient_connect_def TCPClient_def set_sockopts_def
      set_cloexec_def connect_with_timeout_def connect_nonblocking_def retry_eintr_once [OF pipe_no_eintr]
      sample_client_def SpwRmapTCPNodeImpl_def default_config_def setInitiatorLogicalAddress_def
      kInitiatorLogicalAddress_def TCPClient_setSendTimeout_def pipe_calls)

lemma sample_client_inv: "node_inv sample_client"
  unfolding sample_client_def by (rule new_node_inv) (simp add: default_config_def)

lemma sample_client_free: "first_free sample_client = Some 0"
  by (simp add: first_free_def find_upt_Some sample_client_def SpwRmapTCPNodeImpl_def default_config_def
      transaction_count_def id_count_def Let_def)

lemma sample_write:
  obtains nd c where "write_sync (TCPClient_backend pipe_sys) (\<lambda>_ _. 0) (\<lambda>_ p. set_value p (Inr ())) sample_remote 0x44A2006C
      [0x32, 0x42] 3 sample_client = Some (Inr (), nd)" "nd_tcp_backend nd = Some c" "tc_fd c = 3"
proof -
  let ?b = "(TCPClient (fresh_pipe\<lparr>pp_open := [3]\<rparr>) ''127.0.0.1'' ''10030'')\<lparr>tc_fd := 3\<rparr>"
  have b: "nd_tcp_backend sample_client = Some ?b" "tc_fd ?b = 3" "nd_promises sample_client = []"
    by (simp_all add: sample_client_def SpwRmapTCPNodeImpl_def default_config_def Let_def)
  have r: "length (getReplyAddress sample_remote) \<le> 12"
    "send_room sample_client (WritePacketBuilder_getTotalSize
       (write_config sample_remote (slot_id sample_client 0) 0x44A2006C [0x32, 0x42] sample_client))"
    by (simp_all add: sample_remote_def getReplyAddress_def WritePacketBuilder_getTotalSize_def send_room_def
        write_config_def getTargetSpaceWireAddress_def INT_MAX_def sample_client_def SpwRmapTCPNodeImpl_def
        default_config_def Let_def)
  from pipe.client.startWrite_stream [OF sample_client_inv zero_clock sample_client_free b(1,2) r,
      where oc = "\<lambda>packet user. Some (Returns (), user)"] obtain nd c where
    "startWriteAsyncOperation (TCPClient_backend pipe_sys) (\<lambda>_. 0) sample_remote 0x44A2006C [0x32, 0x42]
       (\<lambda>packet user. Some (Returns (), user)) sample_client =
     Some (\<lparr>op_future = 0, op_transaction_id = Some (slot_id sample_client 0)\<rparr>, nd)"
    "nd_tcp_backend nd = Some c" "tc_fd c = 3" "nd_promises nd = [None]" unfolding b(3) list.size append_Nil by metis
  then show thesis
    by (intro that [of "nd\<lparr>nd_promises := [Some (Inr ())]\<rparr>" c])
      (simp_all add: write_sync_def attempts_def numeral_3_eq_3 set_value_def future_status_def span_at_def)
qed

lemma dec_not_help: "dec n \<noteq> ''--help''"
proof
  assume "dec n = ''--help''"
  then show False using dec_not_option [of n] by simp
qed

lemma sample_output: "dec 2 = ''2''" "fill_zeros 8 (hex 0x44A2006C) = ''44a2006c''"
proof -
  have c: "char_of n = c \<longleftrightarrow> n = of_char c" if "n < 256" for n :: nat and c :: char
    using that by (metis char_of_char of_char_of mod_less)
  show "dec 2 = ''2''" by (simp add: dec.simps c)
  show "fill_zeros 8 (hex 0x44A2006C) = ''44a2006c''" by (simp add: hex.simps hex_digit_def fill_zeros_def c)
qed

lemma sample_no_help: "''--help'' \<notin> set (command_line sample_options)" "command_line sample_options \<noteq> []"
  by (auto simp: command_line_def sample_options_def default_options_def dec_not_help dec_not_help [symmetric])

lemma sample_parse: "parseOptions (''spwrmap'' # command_line sample_options) = Some sample_options"
  by (rule parseOptions_command_line)
    (simp_all add: options_complete_def length_ok_def sample_options_def default_options_def)

lemma pipe_shuts_down:
  assumes "nd_tcp_backend nd = Some c" "0 \<le> tc_fd c"
  obtains nd' where "SpwRmapTCPClient_shutdown pipe_sys nd = Some (Inr (), nd')"
  using assms
  by (simp add: SpwRmapTCPClient_shutdown_def on_backend_def TCPClient_shutdown_def client_disconnect_def
      TCPClient_disconnect_def close_retry_def retry_eintr_once [OF pipe_no_eintr] pipe_calls split: if_split_asm)

theorem spwrmap_exit_code_witness:
  "\<exists>nd. spwrmap_main pipe_sys (\<lambda>_ _. 0) (\<lambda>_ p. set_value p (Inr ())) (''spwrmap'' # command_line sample_options)
      fresh_pipe = Some (0, ''Wrote 2 bytes to 0x44a2006c successfully.'' @ newline, Some nd) \<and> nd_tcp_backend nd = None"
proof -
  obtain nd c where w: "write_sync (TCPClient_backend pipe_sys) (\<lambda>_ _. 0) (\<lambda>_ p. set_value p (Inr ())) sample_remote
      0x44A2006C [0x32, 0x42] 3 sample_client = Some (Inr (), nd)" "nd_tcp_backend nd = Some c" "tc_fd c = 3"
    by (rule sample_write)
  then obtain nd' where sh: "SpwRmapTCPClient_shutdown pipe_sys nd = Some (Inr (), nd')"
    using pipe_shuts_down [of nd c] by auto
  have o: "op_type sample_options = ''write''" "op_address sample_options = Some 0x44A2006C"
    "op_data sample_options = [0x32, 0x42]" "op_ip sample_options = ''127.0.0.1''" "op_port sample_options = ''10030''"
    "TargetNodeDynamic kTargetLogicalAddress (op_target_address sample_options) (op_reply_address sample_options) = sample_remote"
    by (simp_all add: sample_options_def default_options_def sample_remote_def kTargetLogicalAddress_def)
  have "spwrmap_main pipe_sys (\<lambda>_ _. 0) (\<lambda>_ p. set_value p (Inr ()))
      (''spwrmap'' # command_line sample_options) fresh_pipe =
    Some (0, ''Wrote 2 bytes to 0x44a2006c successfully.'' @ newline, Some nd')"
    using sample_no_help
    by (simp add: spwrmap_main_def sample_parse o sample_connects performWrite_def w(1) sh sample_output sample_output(1) [unfolded numeral_2_eq_2])
  with spwrmap_exit_code [OF this] sample_no_help show ?thesis by auto
qed

text \<open>
  A length that no vector may have is accepted by \<open>parseOptions\<close>, and \<open>-1\<close> is such a length: once it is
  connected, the program ends by an exception.
\<close>

lemma huge_length_aborts:
  assumes "parseOptions argv = Some opts" "''--help'' \<notin> set (tl argv)" "length argv \<noteq> 1"
    and "op_type opts = ''read''" "op_length opts = Some n" "VECTOR_MAX_SIZE < n"
    and "SpwRmapTCPClient_connect S 1000000 (setInitiatorLogicalAddress kInitiatorLogicalAddress
      (SpwRmapTCPNodeImpl (TCPClient w) (default_config (op_ip opts) (op_port opts)) ([] :: bytes))) = Some (Inr u, nd)"
  shows "spwrmap_main S clock wait argv w = None"
  using assms by (simp add: spwrmap_main_def performRead_def vector_resize_def Let_def)

lemma minus_one_is_huge: "parseUnsigned (CHR ''-'' # dec 1) (2 ^ 64 - 1) = Some n \<Longrightarrow> VECTOR_MAX_SIZE < n"
  using parseUnsigned_minus_dec [of 1] by (auto simp: VECTOR_MAX_SIZE_def)

end
