(* ===== verification/App_Statistics.thy ===== *)
theory App_Statistics
  imports App_Spwrmap Complex_Main
begin

text \<open>
  The statistics of \<open>app/spwrmap_speedtest.cc\<close> and its output. The arithmetic of \<open>double\<close> is a record of
  operations, an argument of the functions that use it; what is shown of the results needs of it only
  that rounding keeps the order.
\<close>

section \<open>Floating point\<close>

text \<open>Constants, conversion of an integer, the four operations, the square root, \<open>std::llround\<close> and the conversion
  to \<open>std::size_t\<close>.\<close>

record 'd double_ops =
  d_zero :: 'd
  d_half :: 'd
  d_one :: 'd
  d_of_int :: "int \<Rightarrow> 'd"
  d_add :: "'d \<Rightarrow> 'd \<Rightarrow> 'd"
  d_sub :: "'d \<Rightarrow> 'd \<Rightarrow> 'd"
  d_mul :: "'d \<Rightarrow> 'd \<Rightarrow> 'd"
  d_div :: "'d \<Rightarrow> 'd \<Rightarrow> 'd"
  d_sqrt :: "'d \<Rightarrow> 'd"
  d_llround :: "'d \<Rightarrow> int"
  d_trunc :: "'d \<Rightarrow> nat"

section \<open>Statistics\<close>

definition computeMean :: "'d double_ops \<Rightarrow> 'd list \<Rightarrow> 'd" where
  "computeMean F xs =
    (if xs = [] then d_zero F
     else let sum = foldl (d_add F) (d_zero F) xs in d_div F sum (d_of_int F (int (length xs))))"

definition computeStd :: "'d double_ops \<Rightarrow> 'd list \<Rightarrow> 'd \<Rightarrow> 'd" where
  "computeStd F xs mean =
    (if length xs \<le> 1 then d_zero F
     else let acc = foldl (\<lambda>acc v. let diff = d_sub F v mean in d_add F acc (d_mul F diff diff)) (d_zero F) xs
       in d_sqrt F (d_div F acc (d_of_int F (int (length xs)))))"

definition medianSorted :: "'d double_ops \<Rightarrow> 'd list \<Rightarrow> 'd" where
  "medianSorted F xs =
    (if xs = [] then d_zero F
     else let n = length xs in
       if n mod 2 = 1 then xs ! (n div 2)
       else d_mul F (d_half F) (d_add F (xs ! (n div 2 - 1)) (xs ! (n div 2))))"

definition computeQuartiles :: "'d::linorder double_ops \<Rightarrow> 'd list \<Rightarrow> 'd \<times> 'd \<times> 'd \<times> 'd \<times> 'd" where
  "computeQuartiles F xs =
    (if xs = [] then (d_zero F, d_zero F, d_zero F, d_zero F, d_zero F)
     else let
       xs = sort xs;
       n = length xs;
       min_v = hd xs;
       max_v = last xs;
       median = medianSorted F xs;
       mid = n div 2;
       lower = take mid xs;
       upper = (if n mod 2 = 0 then drop mid xs else drop (mid + 1) xs);
       q1 = (if lower = [] then min_v else medianSorted F lower);
       q3 = (if upper = [] then max_v else medianSorted F upper)
     in (min_v, q1, median, q3, max_v))"

section \<open>Output\<close>

definition toMicroseconds :: "'d double_ops \<Rightarrow> 'd \<Rightarrow> int" where
  "toMicroseconds F value = d_llround F value"

definition dec_int :: "int \<Rightarrow> string" where
  "dec_int z = (if z < 0 then ''-'' @ dec (nat (- z)) else dec (nat z))"

definition speed_report :: "'d::linorder double_ops \<Rightarrow> 'd list \<Rightarrow> string" where
  "speed_report F latencies_us = (let
       mean = computeMean F latencies_us;
       stddev = computeStd F latencies_us mean;
       (min_v, q1, median, q3, max_v) = computeQuartiles F latencies_us
     in ''mean='' @ dec_int (toMicroseconds F mean) @ '' std='' @ dec_int (toMicroseconds F stddev) @
        '' min='' @ dec_int (toMicroseconds F min_v) @ '' q1='' @ dec_int (toMicroseconds F q1) @
        '' median='' @ dec_int (toMicroseconds F median) @ '' q3='' @ dec_int (toMicroseconds F q3) @
        '' max='' @ dec_int (toMicroseconds F max_v) @ newline)"

text \<open>What \<open>updateProgress\<close> writes to \<open>std::cerr\<close>.\<close>

definition updateProgress :: "'d::linorder double_ops \<Rightarrow> nat \<Rightarrow> nat \<Rightarrow> string" where
  "updateProgress F current total_count = (let
       kBarWidth = 40;
       ratio = (if total_count = 0 then d_zero F else d_div F (d_of_int F (int current)) (d_of_int F (int total_count)));
       ratio = (if ratio < d_zero F then d_zero F else if d_one F < ratio then d_one F else ratio);
       filled = d_trunc F (d_mul F ratio (d_of_int F (int kBarWidth)))
     in [char_of (13 :: nat)] @ ''['' @ map (\<lambda>i. if i < filled then CHR ''#'' else CHR ''.'') [0..<kBarWidth] @
        ''] '' @ dec current @ ''/'' @ dec total_count)"

lemma updateProgress_complete:
  assumes "d_div F (d_of_int F (int n)) (d_of_int F (int n)) = d_one F" "d_zero F < d_one F"
    and "d_trunc F (d_mul F (d_one F) (d_of_int F 40)) = 40" "n \<noteq> 0"
  shows "updateProgress F n n = [char_of (13 :: nat)] @ ''['' @ replicate 40 CHR ''#'' @ ''] '' @ dec n @ ''/'' @ dec n"
proof -
  have "map (\<lambda>i. if i < 40 then CHR ''#'' else CHR ''.'') [0..<40 :: nat] = replicate 40 CHR ''#''"
    by (rule nth_equalityI) simp_all
  then show ?thesis using assms by (simp add: updateProgress_def Let_def not_less_iff_gr_or_eq)
qed

section \<open>Order\<close>

text \<open>Half the sum of two of the numbers, as computed, lies between them.\<close>

definition halves_between :: "'d::linorder double_ops \<Rightarrow> 'd set \<Rightarrow> bool" where
  "halves_between F D \<longleftrightarrow> (\<forall>x \<in> D. \<forall>y \<in> D. x \<le> y \<longrightarrow>
     x \<le> d_mul F (d_half F) (d_add F x y) \<and> d_mul F (d_half F) (d_add F x y) \<le> y)"

lemma halves_between_subset: "halves_between F D \<Longrightarrow> D' \<subseteq> D \<Longrightarrow> halves_between F D'"
  by (auto simp: halves_between_def)

lemma middle_between:
  assumes "halves_between F (set xs)" "sorted xs" "xs \<noteq> []"
  shows "xs ! (length xs div 2 - 1) \<le> d_mul F (d_half F) (d_add F (xs ! (length xs div 2 - 1)) (xs ! (length xs div 2)))"
    "d_mul F (d_half F) (d_add F (xs ! (length xs div 2 - 1)) (xs ! (length xs div 2))) \<le> xs ! (length xs div 2)"
    "xs ! (length xs div 2 - 1) \<le> xs ! (length xs div 2)"
proof -
  let ?k = "length xs div 2"
  have k: "?k < length xs" "?k - 1 < length xs" using assms(3) by (cases xs; simp)+
  show le: "xs ! (?k - 1) \<le> xs ! ?k" using assms(2) k by (simp add: sorted_iff_nth_mono)
  show "xs ! (?k - 1) \<le> d_mul F (d_half F) (d_add F (xs ! (?k - 1)) (xs ! ?k))"
    "d_mul F (d_half F) (d_add F (xs ! (?k - 1)) (xs ! ?k)) \<le> xs ! ?k"
    using assms(1) [unfolded halves_between_def, rule_format, OF nth_mem [OF k(2)] nth_mem [OF k(1)] le] by simp_all
qed

lemma medianSorted_splits:
  fixes xs :: "'a::linorder list"
  assumes "halves_between F (set xs)" "sorted xs" "xs \<noteq> []"
  shows "medianSorted F xs \<le> xs ! (length xs div 2)"
    "length xs div 2 \<noteq> 0 \<Longrightarrow> xs ! (length xs div 2 - 1) \<le> medianSorted F xs"
    "xs ! (length xs div 2 - 1) \<le> medianSorted F xs"
  using middle_between [OF assms] assms(3) by (simp_all add: medianSorted_def Let_def)

lemma medianSorted_between:
  fixes xs :: "'a::linorder list"
  assumes "halves_between F (set xs)" "sorted xs" "xs \<noteq> []"
    and "\<And>x. x \<in> set xs \<Longrightarrow> a \<le> x \<and> x \<le> b"
  shows "a \<le> medianSorted F xs \<and> medianSorted F xs \<le> b"
proof -
  have "length xs div 2 < length xs" "length xs div 2 - 1 < length xs" using assms(3) by (cases xs; simp)+
  then have "xs ! (length xs div 2) \<le> b" "a \<le> xs ! (length xs div 2 - 1)" using assms(4) by simp_all
  with medianSorted_splits [OF assms(1-3)] show ?thesis by (meson order_trans)
qed

text \<open>Minimum, lower quartile, median, upper quartile and maximum are in order, with minimum and maximum among the numbers.\<close>

lemma quartiles_ordered:
  fixes xs :: "'a::linorder list"
  assumes middle: "halves_between F (set xs)"
    and "xs \<noteq> []" and "computeQuartiles F xs = (min_v, q1, median, q3, max_v)"
  shows "min_v \<le> q1 \<and> q1 \<le> median \<and> median \<le> q3 \<and> q3 \<le> max_v \<and>
    min_v \<in> set xs \<and> max_v \<in> set xs \<and> (\<forall>x \<in> set xs. min_v \<le> x \<and> x \<le> max_v)"
proof -
  define ys where "ys = sort xs"
  define k where "k = length ys div 2"
  define lower where "lower = take k ys"
  define upper where "upper = (if length ys mod 2 = 0 then drop k ys else drop (k + 1) ys)"
  have set_ys: "sorted ys" "set ys = set xs" by (simp_all add: ys_def)
  then have ne: "ys \<noteq> []" using assms(2) by auto
  then have klen: "k < length ys" by (simp add: k_def)
  have nth: "ys ! i \<le> ys ! j" if "i \<le> j" "j < length ys" for i j
    using set_ys(1) that by (rule sorted_nth_mono)
  have "computeQuartiles F xs = (ys ! 0, if lower = [] then ys ! 0 else medianSorted F lower,
      medianSorted F ys, if upper = [] then ys ! (length ys - 1) else medianSorted F upper, ys ! (length ys - 1))"
    using assms(2) ne unfolding computeQuartiles_def Let_def ys_def [symmetric] k_def [symmetric] lower_def upper_def
    by (simp only: if_False hd_conv_nth [OF ne] last_conv_nth [OF ne])
  then have q: "min_v = ys ! 0" "q1 = (if lower = [] then min_v else medianSorted F lower)"
      "median = medianSorted F ys"
      "q3 = (if upper = [] then max_v else medianSorted F upper)" "max_v = ys ! (length ys - 1)"
    using assms(3) by simp_all
  have all: "min_v \<le> x \<and> x \<le> max_v" if "x \<in> set ys" for x
    using that nth [of 0] nth [of _ "length ys - 1"] unfolding q(1,5) by (auto simp: in_set_conv_nth)
  have half: "halves_between F (set ys)" "halves_between F (set lower)" "halves_between F (set upper)"
    by (rule halves_between_subset [OF middle];
      use set_ys(2) in \<open>auto simp: lower_def upper_def dest: in_set_takeD in_set_dropD split: if_split_asm\<close>)+
  note med = medianSorted_splits [OF half(1) set_ys(1) ne, folded q(3) k_def]
  have lo: "min_v \<le> x \<and> x \<le> median" if "x \<in> set lower" for x
  proof -
    from that obtain i where i: "x = ys ! i" "i < k" by (auto simp: lower_def in_set_conv_nth)
    then have "x \<le> ys ! (k - 1)" using nth [of i "k - 1"] klen by simp
    with med(2) i klen all show ?thesis by (auto intro: order_trans)
  qed
  have up: "median \<le> x \<and> x \<le> max_v" if "x \<in> set upper" for x
  proof -
    from that obtain j where j: "x = ys ! j" "k \<le> j" "j < length ys"
      by (auto simp: upper_def in_set_conv_nth split: if_split_asm)
    with med(1) nth [of k j] all show ?thesis by (auto intro: order_trans)
  qed
  have sorted: "sorted lower" "sorted upper" using set_ys(1) by (simp_all add: lower_def upper_def)
  have m: "min_v \<le> median \<and> median \<le> max_v" unfolding q(3)
    by (rule medianSorted_between [OF half(1) set_ys(1) ne all])
  have "min_v \<le> q1 \<and> q1 \<le> median"
    using medianSorted_between [OF half(2) sorted(1) _ lo] m unfolding q(2) by auto
  moreover have "median \<le> q3 \<and> q3 \<le> max_v"
    using medianSorted_between [OF half(3) sorted(2) _ up] m unfolding q(4) by auto
  moreover have "min_v \<in> set xs" "max_v \<in> set xs" using ne unfolding q(1,5) set_ys(2) [symmetric] by simp_all
  ultimately show ?thesis using all set_ys(2) by blast
qed

text \<open>C39. The line that the speed test prints: after mean and standard deviation it has minimum, lower quartile, median,
  upper quartile and maximum of the latencies, in that order, each rounded to an integer, and every rounded latency lies
  between the first and the last of them. Of the arithmetic of \<open>double\<close> this needs that half the sum of two latencies
  lies between them and that rounding to integers keeps the order between the least and the greatest latency.\<close>

theorem speed_report_ordered:
  fixes xs :: "'d::linorder list"
  assumes "halves_between F (set xs)" and "xs \<noteq> []"
    and "\<And>x y u v. u \<in> set xs \<Longrightarrow> v \<in> set xs \<Longrightarrow> u \<le> x \<Longrightarrow> x \<le> y \<Longrightarrow> y \<le> v \<Longrightarrow> d_llround F x \<le> d_llround F y"
  shows "\<exists>min_v q1 median q3 max_v. speed_report F xs =
      ''mean='' @ dec_int (d_llround F (computeMean F xs)) @ '' std='' @ dec_int (d_llround F (computeStd F xs (computeMean F xs))) @
      '' min='' @ dec_int min_v @ '' q1='' @ dec_int q1 @ '' median='' @ dec_int median @ '' q3='' @ dec_int q3 @
      '' max='' @ dec_int max_v @ newline \<and>
    min_v \<le> q1 \<and> q1 \<le> median \<and> median \<le> q3 \<and> q3 \<le> max_v \<and>
    (\<forall>x \<in> set xs. min_v \<le> d_llround F x \<and> d_llround F x \<le> max_v)"
proof -
  obtain a q1 m q3 b where q: "computeQuartiles F xs = (a, q1, m, q3, b)" by (cases "computeQuartiles F xs")
  note o = quartiles_ordered [OF assms(1,2) q]
  have ab: "a \<in> set xs" "b \<in> set xs" and l: "a \<le> q1" "q1 \<le> m" "m \<le> q3" "q3 \<le> b" using o by simp_all
  have l2: "q1 \<le> b" "m \<le> b" "a \<le> m" "a \<le> q3" using l by order+
  note mono = assms(3) [OF ab]
  have le: "d_llround F a \<le> d_llround F q1" "d_llround F q1 \<le> d_llround F m" "d_llround F m \<le> d_llround F q3"
    "d_llround F q3 \<le> d_llround F b"
    by (rule mono [OF order_refl l(1) l2(1)], rule mono [OF l(1,2) l2(2)], rule mono [OF l2(3) l(3,4)],
        rule mono [OF l2(4) l(4) order_refl])
  have all: "\<forall>x \<in> set xs. d_llround F a \<le> d_llround F x \<and> d_llround F x \<le> d_llround F b"
  proof
    fix x assume "x \<in> set xs"
    then have x: "a \<le> x" "x \<le> b" using o by simp_all
    show "d_llround F a \<le> d_llround F x \<and> d_llround F x \<le> d_llround F b"
      using mono [OF order_refl x] mono [OF x order_refl] by (rule conjI)
  qed
  show ?thesis
    by (rule exI [of _ "d_llround F a"], rule exI [of _ "d_llround F q1"], rule exI [of _ "d_llround F m"],
        rule exI [of _ "d_llround F q3"], rule exI [of _ "d_llround F b"], intro conjI le all)
      (simp only: speed_report_def Let_def q prod.case toMicroseconds_def)
qed

definition exact_ops :: "real double_ops" where
  "exact_ops = \<lparr>d_zero = 0, d_half = 1 / 2, d_one = 1, d_of_int = real_of_int, d_add = (+), d_sub = (-), d_mul = (*),
     d_div = (/), d_sqrt = sqrt, d_llround = round, d_trunc = (\<lambda>x. nat \<lfloor>x\<rfloor>)\<rparr>"

theorem speed_report_ordered_witness:
  "\<exists>min_v q1 median q3 max_v mean std. speed_report exact_ops [9, 1, 5, 3] =
      ''mean='' @ dec_int mean @ '' std='' @ dec_int std @
      '' min='' @ dec_int min_v @ '' q1='' @ dec_int q1 @ '' median='' @ dec_int median @ '' q3='' @ dec_int q3 @
      '' max='' @ dec_int max_v @ newline \<and> min_v \<le> q1 \<and> q3 \<le> max_v \<and> min_v \<le> 1 \<and> 9 \<le> max_v"
proof -
  have "halves_between exact_ops (set [9, 1, 5, 3])" by (simp add: halves_between_def exact_ops_def)
  moreover have "d_llround exact_ops x \<le> d_llround exact_ops y" if "x \<le> y" for x y
    using round_mono [OF that] by (simp add: exact_ops_def)
  ultimately have "\<exists>min_v q1 median q3 max_v. speed_report exact_ops [9, 1, 5, 3] =
      ''mean='' @ dec_int (d_llround exact_ops (computeMean exact_ops [9, 1, 5, 3])) @
      '' std='' @ dec_int (d_llround exact_ops (computeStd exact_ops [9, 1, 5, 3] (computeMean exact_ops [9, 1, 5, 3]))) @
      '' min='' @ dec_int min_v @ '' q1='' @ dec_int q1 @ '' median='' @ dec_int median @ '' q3='' @ dec_int q3 @
      '' max='' @ dec_int max_v @ newline \<and>
    min_v \<le> q1 \<and> q1 \<le> median \<and> median \<le> q3 \<and> q3 \<le> max_v \<and>
    (\<forall>x \<in> set [9, 1, 5, 3]. min_v \<le> d_llround exact_ops x \<and> d_llround exact_ops x \<le> max_v)"
    by (intro speed_report_ordered) simp_all
  moreover have "d_llround exact_ops 1 = 1" "d_llround exact_ops 9 = 9" by (simp_all add: exact_ops_def)
  ultimately show ?thesis unfolding list.set ball_simps insert_iff by (elim exE conjE) (intro exI conjI, assumption, simp_all)
qed

end
