(* ===== verification/Node_Memory.thy ===== *)
theory Node_Memory
  imports Node_Session
begin

text \<open>
  Exchanges between two nodes, and a server that is a memory: both nodes, both backends, framing,
  packets and CRC together are a remote memory, which is written and read.
\<close>

unbundle bit_operations_syntax

section \<open>Exchanges\<close>

text \<open>A write and a read, step by step. A server that polls when \<open>request\<close> has arrived sends
  \<open>reply\<close> and goes on with the state \<open>user\<close>.\<close>

definition serves ::
    "'b backend \<Rightarrow> ('b \<Rightarrow> bool) \<Rightarrow> ('b \<Rightarrow> bytes) \<Rightarrow> ('b \<Rightarrow> bytes) \<Rightarrow> ('b, 'u) node_methods \<Rightarrow> ('b, 'u) node \<Rightarrow>
     bytes \<Rightarrow> bytes \<Rightarrow> 'u \<Rightarrow> bool" where
  "serves B live pending sent this nd request reply user \<longleftrightarrow>
    (\<forall>b. live b \<longrightarrow> pending b = frame 0 request \<longrightarrow> (\<exists>nd' b'.
       poll B this (nd\<lparr>nd_tcp_backend := Some b\<rparr>) = Some (Inr True, nd') \<and> nd_tcp_backend nd' = Some b' \<and>
       sent b' = sent b @ frame 0 reply \<and> answered nd nd' user))"

text \<open>The client \<open>nd\<close> has started an operation and is now \<open>nd'\<close>. When it polls and \<open>reply\<close> has arrived, the
  operation is done, and but for its promise everything is as before.\<close>

definition completes ::
    "'b backend \<Rightarrow> ('b \<Rightarrow> bytes) \<Rightarrow> ('b \<Rightarrow> bytes) \<Rightarrow> ('b, 'u) node_methods \<Rightarrow> ('b, 'u) node \<Rightarrow> ('b, 'u) node \<Rightarrow>
     bytes \<Rightarrow> 'u \<Rightarrow> bool" where
  "completes B pending sent this nd nd' reply user \<longleftrightarrow>
    (\<forall>live b. tcp_stream B live pending sent \<longrightarrow> live b \<longrightarrow> pending b = frame 0 reply \<longrightarrow> (\<exists>nd'' b'.
       poll B this (nd'\<lparr>nd_tcp_backend := Some b\<rparr>) = Some (Inr True, nd'') \<and> node_inv nd'' \<and>
       nd_promises nd'' = nd_promises nd @ [Some (Inr ())] \<and> nd_available nd'' = nd_available nd \<and>
       nd_user nd'' = user \<and> settings nd'' = settings nd \<and> length (nd_send_buf nd) \<le> length (nd_send_buf nd'') \<and>
       nd_tcp_backend nd'' = Some b' \<and> live b' \<and> pending b' = [] \<and> sent b' = sent b))"

lemma exchange_polls:
  assumes "tcp_stream B1 live1 pending1 sent1" "serves B2 live2 pending2 sent2 this_s nd2 request reply user_s"
    and "completes B1 pending1 sent1 this_c nd1 nd1' reply user_c"
  shows "\<forall>b2. live2 b2 \<longrightarrow> pending2 b2 = frame 0 request \<longrightarrow> (\<exists>nd2' b2' r.
        poll B2 this_s (nd2\<lparr>nd_tcp_backend := Some b2\<rparr>) = Some (Inr True, nd2') \<and> nd_user nd2' = user_s \<and>
        nd_tcp_backend nd2' = Some b2' \<and> sent2 b2' = sent2 b2 @ r \<and>
        (\<forall>b. live1 b \<longrightarrow> pending1 b = r \<longrightarrow> (\<exists>nd1''.
           poll B1 this_c (nd1'\<lparr>nd_tcp_backend := Some b\<rparr>) = Some (Inr True, nd1'') \<and> node_inv nd1'' \<and>
           nd_promises nd1'' = nd_promises nd1 @ [Some (Inr ())] \<and>
           nd_available nd1'' = nd_available nd1 \<and> nd_user nd1'' = user_c)))"
proof (intro allI impI)
  fix b2 assume "live2 b2" "pending2 b2 = frame 0 request"
  with assms(2) obtain nd2' b2' where s: "poll B2 this_s (nd2\<lparr>nd_tcp_backend := Some b2\<rparr>) = Some (Inr True, nd2')"
    "nd_tcp_backend nd2' = Some b2'" "sent2 b2' = sent2 b2 @ frame 0 reply" "answered nd2 nd2' user_s"
    by (auto simp: serves_def)
  have "\<forall>b. live1 b \<longrightarrow> pending1 b = frame 0 reply \<longrightarrow> (\<exists>nd1''.
      poll B1 this_c (nd1'\<lparr>nd_tcp_backend := Some b\<rparr>) = Some (Inr True, nd1'') \<and> node_inv nd1'' \<and>
      nd_promises nd1'' = nd_promises nd1 @ [Some (Inr ())] \<and> nd_available nd1'' = nd_available nd1 \<and> nd_user nd1'' = user_c)"
    using assms(1,3) unfolding completes_def by blast
  with s answered_fields(1) [OF s(4)] show "\<exists>nd2' b2' r. poll B2 this_s (nd2\<lparr>nd_tcp_backend := Some b2\<rparr>) = Some (Inr True, nd2') \<and>
      nd_user nd2' = user_s \<and> nd_tcp_backend nd2' = Some b2' \<and> sent2 b2' = sent2 b2 @ r \<and>
      (\<forall>b. live1 b \<longrightarrow> pending1 b = r \<longrightarrow> (\<exists>nd1''.
         poll B1 this_c (nd1'\<lparr>nd_tcp_backend := Some b\<rparr>) = Some (Inr True, nd1'') \<and> node_inv nd1'' \<and>
         nd_promises nd1'' = nd_promises nd1 @ [Some (Inr ())] \<and>
         nd_available nd1'' = nd_available nd1 \<and> nd_user nd1'' = user_c))" by blast
qed

lemma answered_backend [simp]: "answered (nd\<lparr>nd_tcp_backend := b\<rparr>) nd' user = answered nd nd' user"
  by (simp add: answered_def core_def)

lemma write_exchange:
  fixes nd1 :: "('b, 'u) node" and nd2 :: "('d, 'v) node"
  assumes "tcp_stream B1 live1 pending1 sent1" and "tcp_stream B2 live2 pending2 sent2"
    and "node_inv nd1" and "clock_ok clock" and "first_free nd1 = Some i"
    and "nd_tcp_backend nd1 = Some b1" and "live1 b1"
    and c: "c = write_config t (slot_id nd1 i) a data nd1"
    and "write_wf c" and "path_ok (getReplyAddress t)"
    and "send_room nd1 (WritePacketBuilder_getTotalSize c)"
    and "recv_room (nd_buffer_policy nd1) (length (nd_recv_buf nd1)) (length (getReplyAddress t) + 8)"
    and "recv_room (nd_buffer_policy nd2) (length (nd_recv_buf nd2)) (WritePacketBuilder_getTotalSize c)"
    and "send_room nd2 (length (getReplyAddress t) + 8)"
    and "nd_on_write nd2 = Some f"
    and "f (write_decoded c (nd_packet nd2)) (nd_user nd2) = Some (Returns (), user_s)"
    and "\<And>pk. pk_type pk = PT_WriteReply \<Longrightarrow> pk_transactionID pk = slot_id nd1 i \<Longrightarrow> pk_status pk = 0 \<Longrightarrow>
      oc pk (nd_user nd1) = Some (Returns (), user_c)"
  obtains nd1' b1' reply where "startWriteAsyncOperation B1 clock t a data oc nd1 =
      Some (\<lparr>op_future = length (nd_promises nd1), op_transaction_id = Some (slot_id nd1 i)\<rparr>, nd1')"
    "nd_tcp_backend nd1' = Some b1'" "live1 b1'" "pending1 b1' = pending1 b1"
    "sent1 b1' = sent1 b1 @ frame 0 (write_packet c)" "nd_promises nd1' = nd_promises nd1 @ [None]"
    "serves B2 live2 pending2 sent2 this_s nd2 (write_packet c) reply user_s"
    "completes B1 pending1 sent1 this_c nd1 nd1' reply user_c"
proof -
  have wf: "length (getReplyAddress t) \<le> 12" "wr_replyAddress c = getReplyAddress t"
    using assms(9) by (simp_all add: write_wf_def reply_ok_def c write_config_def)
  from tcp_stream.startWrite_stream [OF assms(1,3-7) wf(1) assms(11) [unfolded c]] obtain nd1' b1' where
    start: "startWriteAsyncOperation B1 clock t a data oc nd1 =
      Some (\<lparr>op_future = length (nd_promises nd1), op_transaction_id = Some (slot_id nd1 i)\<rparr>, nd1')"
    and s1: "nd_tcp_backend nd1' = Some b1'" "live1 b1'" "pending1 b1' = pending1 b1"
      "sent1 b1' = sent1 b1 @ frame 0 (write_packet c)" "nd_promises nd1' = nd_promises nd1 @ [None]"
    and st: "node_inv nd1'" "core nd1' = core (registered i clock oc nd1)"
      "nd_reply_callback nd1' ! i = Some \<lparr>rc_on_complete = oc, rc_promise = length (nd_promises nd1),
         rc_transaction_id = slot_id nd1 i, rc_tx_index = i\<rparr>"
      "slot_id nd1' i = slot_id nd1 i" "nd_recv_buf nd1' = nd_recv_buf nd1"
      "nd_buffer_policy nd1' = nd_buffer_policy nd1" "length (nd_send_buf nd1) \<le> length (nd_send_buf nd1')"
    unfolding c by metis
  let ?r = "write_reply_config (write_decoded c (nd_packet nd2))"
  have "write_reply_wf ?r" using assms(9,10) wf(2)
    by (auto simp: write_reply_wf_def write_reply_config_def write_decoded_def write_wf_def)
  note p = parse_write_reply_packet [OF this, of "nd_packet nd1'"]
  have len: "write_reply_packet ?r \<noteq> []" "length (write_reply_packet ?r) = length (getReplyAddress t) + 8" using wf(2)
    by (simp_all add: write_reply_packet_def write_reply_config_def write_decoded_def)
  show thesis
  proof (rule that [OF start s1]; unfold serves_def completes_def; intro allI impI)
    fix b2 assume "live2 b2" "pending2 b2 = frame 0 (write_packet c)"
    then show "\<exists>nd2' b2'. poll B2 this_s (nd2\<lparr>nd_tcp_backend := Some b2\<rparr>) = Some (Inr True, nd2') \<and>
        nd_tcp_backend nd2' = Some b2' \<and> sent2 b2' = sent2 b2 @ frame 0 (write_reply_packet ?r) \<and> answered nd2 nd2' user_s"
      using tcp_stream.poll_write_command [OF assms(2), of "nd2\<lparr>nd_tcp_backend := Some b2\<rparr>" b2 c "[]" f user_s this_s]
        assms(9,13-16) wf(2) by (auto simp: send_room_def)
  next
    fix live b assume B: "tcp_stream B1 live pending1 sent1" and b: "live b" "pending1 b = frame 0 (write_reply_packet ?r)"
    show "\<exists>nd1'' b'. poll B1 this_c (nd1'\<lparr>nd_tcp_backend := Some b\<rparr>) = Some (Inr True, nd1'') \<and> node_inv nd1'' \<and>
       nd_promises nd1'' = nd_promises nd1 @ [Some (Inr ())] \<and> nd_available nd1'' = nd_available nd1 \<and>
       nd_user nd1'' = user_c \<and> settings nd1'' = settings nd1 \<and> length (nd_send_buf nd1) \<le> length (nd_send_buf nd1'') \<and>
       nd_tcp_backend nd1'' = Some b' \<and> live b' \<and> pending1 b' = [] \<and> sent1 b' = sent1 b"
      using tcp_stream.poll_started [OF B assms(3,5) st(1-4) b _ _ p, of "Returns ()" user_c this_c] assms(12,17) st(5-7) len
      by (simp add: write_reply_decoded_def write_reply_config_def write_decoded_def c write_config_def reply_value_def)
        metis
  qed
qed

lemma read_exchange:
  fixes nd1 :: "('b, 'u) node" and nd2 :: "('d, 'v) node"
  assumes "tcp_stream B1 live1 pending1 sent1" and "tcp_stream B2 live2 pending2 sent2"
    and "node_inv nd1" and "clock_ok clock" and "first_free nd1 = Some i"
    and "nd_tcp_backend nd1 = Some b1" and "live1 b1"
    and c: "c = read_config t (slot_id nd1 i) a l nd1"
    and "read_wf c" and "path_ok (getReplyAddress t)"
    and "ReadPacketBuilder_getTotalSize c \<le> INT_MAX"
    and "ReadPacketBuilder_getTotalSize c + 12 \<le> length (nd_send_buf nd1)"
    and "recv_room (nd_buffer_policy nd1) (length (nd_recv_buf nd1)) (length (getReplyAddress t) + 13 + length data)"
    and "recv_room (nd_buffer_policy nd2) (length (nd_recv_buf nd2)) (ReadPacketBuilder_getTotalSize c)"
    and "send_room nd2 (length (getReplyAddress t) + 13 + length data)"
    and "nd_on_read nd2 = Some f"
    and "f (read_decoded c (nd_packet nd2)) (nd_user nd2) = Some (Returns data, user_s)"
    and "length data < 2 ^ 24"
    and "\<And>pk. pk_type pk = PT_ReadReply \<Longrightarrow> pk_transactionID pk = slot_id nd1 i \<Longrightarrow> pk_status pk = 0 \<Longrightarrow>
      pk_data pk = data \<Longrightarrow> oc pk (nd_user nd1) = Some (Returns (), user_c)"
  obtains nd1' b1' reply where "startReadAsyncOperation B1 clock t a l oc nd1 =
      Some (\<lparr>op_future = length (nd_promises nd1), op_transaction_id = Some (slot_id nd1 i)\<rparr>, nd1')"
    "nd_tcp_backend nd1' = Some b1'" "live1 b1'" "pending1 b1' = pending1 b1"
    "sent1 b1' = sent1 b1 @ frame 0 (read_packet c)" "nd_promises nd1' = nd_promises nd1 @ [None]"
    "serves B2 live2 pending2 sent2 this_s nd2 (read_packet c) reply user_s"
    "completes B1 pending1 sent1 this_c nd1 nd1' reply user_c"
proof -
  have wf: "length (getReplyAddress t) \<le> 12" "rd_replyAddress c = getReplyAddress t"
    using assms(9) by (simp_all add: read_wf_def reply_ok_def c read_config_def)
  from tcp_stream.startRead_stream [OF assms(1,3-7) wf(1) assms(11,12) [unfolded c]] obtain nd1' b1' where
    start: "startReadAsyncOperation B1 clock t a l oc nd1 =
      Some (\<lparr>op_future = length (nd_promises nd1), op_transaction_id = Some (slot_id nd1 i)\<rparr>, nd1')"
    and s1: "nd_tcp_backend nd1' = Some b1'" "live1 b1'" "pending1 b1' = pending1 b1"
      "sent1 b1' = sent1 b1 @ frame 0 (read_packet c)" "nd_promises nd1' = nd_promises nd1 @ [None]"
    and st: "node_inv nd1'" "core nd1' = core (registered i clock oc nd1)"
      "nd_reply_callback nd1' ! i = Some \<lparr>rc_on_complete = oc, rc_promise = length (nd_promises nd1),
         rc_transaction_id = slot_id nd1 i, rc_tx_index = i\<rparr>"
      "slot_id nd1' i = slot_id nd1 i" "nd_recv_buf nd1' = nd_recv_buf nd1"
      "nd_buffer_policy nd1' = nd_buffer_policy nd1" "length (nd_send_buf nd1) \<le> length (nd_send_buf nd1')"
    unfolding c by metis
  define r where "r = read_reply_config (read_decoded c (nd_packet nd2)) data"
  have "read_reply_wf r" using assms(9,10,18) wf(2)
    by (auto simp: r_def read_reply_wf_def read_reply_config_def read_decoded_def read_wf_def)
  note p = parse_read_reply_packet [OF this, of "nd_packet nd1'"]
  have len: "read_reply_packet r \<noteq> []" "length (read_reply_packet r) = length (getReplyAddress t) + 13 + length data"
    using wf(2)
    by (simp_all add: r_def length_read_reply_packet read_reply_packet_def ReadReplyPacketBuilder_getTotalSize_def
        read_reply_config_def read_decoded_def)
  have pk: "pk_type (read_reply_decoded r (nd_packet nd1')) = PT_ReadReply"
    "pk_transactionID (read_reply_decoded r (nd_packet nd1')) = slot_id nd1 i"
    "oc (read_reply_decoded r (nd_packet nd1')) (nd_user nd1) = Some (Returns (), user_c)"
    using assms(19)
    by (simp_all add: r_def read_reply_decoded_def read_reply_config_def read_decoded_def c read_config_def)
  show thesis
  proof (rule that [OF start s1]; unfold serves_def completes_def; intro allI impI)
    fix b2 assume "live2 b2" "pending2 b2 = frame 0 (read_packet c)"
    then show "\<exists>nd2' b2'. poll B2 this_s (nd2\<lparr>nd_tcp_backend := Some b2\<rparr>) = Some (Inr True, nd2') \<and>
        nd_tcp_backend nd2' = Some b2' \<and> sent2 b2' = sent2 b2 @ frame 0 (read_reply_packet r) \<and> answered nd2 nd2' user_s"
      using tcp_stream.poll_read_command [OF assms(2), of "nd2\<lparr>nd_tcp_backend := Some b2\<rparr>" b2 c "[]" f data user_s this_s]
        assms(9,14-17) wf(2) by (auto simp: r_def send_room_def)
  next
    fix live b assume B: "tcp_stream B1 live pending1 sent1" and b: "live b" "pending1 b = frame 0 (read_reply_packet r)"
    show "\<exists>nd1'' b'. poll B1 this_c (nd1'\<lparr>nd_tcp_backend := Some b\<rparr>) = Some (Inr True, nd1'') \<and> node_inv nd1'' \<and>
       nd_promises nd1'' = nd_promises nd1 @ [Some (Inr ())] \<and> nd_available nd1'' = nd_available nd1 \<and>
       nd_user nd1'' = user_c \<and> settings nd1'' = settings nd1 \<and> length (nd_send_buf nd1) \<le> length (nd_send_buf nd1'') \<and>
       nd_tcp_backend nd1'' = Some b' \<and> live b' \<and> pending1 b' = [] \<and> sent1 b' = sent1 b"
      using tcp_stream.poll_started [OF B assms(3,5) st(1-4) b _ _ p, of "Returns ()" user_c this_c] assms(13) st(5-7) len pk
      by (simp add: reply_value_def) metis
  qed
qed

section \<open>A memory behind a server\<close>

text \<open>Memory with \<open>data\<close> stored from \<open>address\<close> on, and what is there.\<close>

definition mem_store :: "u32 \<Rightarrow> bytes \<Rightarrow> (u32 \<Rightarrow> u8) \<Rightarrow> u32 \<Rightarrow> u8" where
  "mem_store address data m x = (if unat (x - address) < length data then data ! unat (x - address) else m x)"

definition mem_fetch :: "u32 \<Rightarrow> nat \<Rightarrow> (u32 \<Rightarrow> u8) \<Rightarrow> bytes" where
  "mem_fetch address n m = map (\<lambda>k. m (address + word_of_nat k)) [0..<n]"

lemma mem_fetch_store: "length data \<le> 2 ^ 32 \<Longrightarrow> mem_fetch address (length data) (mem_store address data m) = data"
  by (rule nth_equalityI) (auto simp: mem_fetch_def mem_store_def unsigned_of_nat take_bit_nat_eq_self)

lemma length_mem_fetch [simp]: "length (mem_fetch address n m) = n"
  by (simp add: mem_fetch_def)

text \<open>Handlers of a server that is a memory.\<close>

definition memory_write :: "(u32 \<Rightarrow> u8) completion" where
  "memory_write packet m = Some (Returns (), mem_store (pk_address packet) (pk_data packet) m)"

definition memory_read :: "(u32 \<Rightarrow> u8) on_read" where
  "memory_read packet m = Some (Returns (mem_fetch (pk_address packet) (unat (pk_dataLength packet)) m), m)"

text \<open>
  The world of the client: its end of the connection, and the server at the other end. In one turn of the
  network the server receives what the client has sent and polls, and the client receives what the
  server has sent and polls.
\<close>

record loop = pipe +
  lp_server :: "(pipe tcp_server, u32 \<Rightarrow> u8) node"

definition network_deliver :: "(loop tcp_client, 'u) node \<Rightarrow> (loop tcp_client, 'u) node option" where
  "network_deliver nd = do {
     c \<leftarrow> nd_tcp_backend nd;
     let w = tc_sys c;
     (_, server) \<leftarrow> poll (TCPServer_backend pipe_sys) (SpwRmapTCPServer_methods pipe_sys)
       ((lp_server w)\<lparr>nd_tcp_backend := Some (server_over (pp_out w))\<rparr>);
     s \<leftarrow> nd_tcp_backend server;
     let w = w\<lparr>pp_in := pp_out (ts_sys s), pp_out := [], lp_server := server\<rparr>;
     Some (nd\<lparr>nd_tcp_backend := Some (c\<lparr>tc_sys := w\<rparr>)\<rparr>)
   }"

definition network_poll :: "(loop tcp_client, 'u) node \<Rightarrow> ((error_code + bool) \<times> (loop tcp_client, 'u) node) option" where
  "network_poll nd = do {
     nd \<leftarrow> network_deliver nd;
     poll (TCPClient_backend pipe_sys) (SpwRmapTCPClient_methods pipe_sys) nd
   }"

definition network_turn :: "(loop tcp_client, 'u) node \<Rightarrow> (loop tcp_client, 'u) node option" where
  "network_turn nd = do { (_, nd) \<leftarrow> network_poll nd; Some nd }"

lemma network_turn_poll: "network_poll nd = Some (r, nd') \<Longrightarrow> network_turn nd = Some nd'"
  by (simp add: network_turn_def)

text \<open>The server stays what it is while the client uses its end of the connection.\<close>

interpretation loop: posix_stream_eof pipe_sys "\<lambda>fd w. fd = 3 \<and> lp_server w = server" "\<lambda>fd w. pp_in w" "\<lambda>fd w. pp_out w"
  for server
  by unfold_locales (auto simp: pipe_sys_def Let_def split: if_split_asm)

definition memory_server :: "(pipe tcp_server, u32 \<Rightarrow> u8) node \<Rightarrow> bool" where
  "memory_server nd \<longleftrightarrow> nd_on_write nd = Some memory_write \<and> nd_on_read nd = Some memory_read \<and>
     nd_buffer_policy nd = AutoResize"

definition target_ok :: "target_node \<Rightarrow> bool" where
  "target_ok t \<longleftrightarrow> path_ok (getTargetSpaceWireAddress t) \<and> length (getTargetSpaceWireAddress t) \<le> 1000 \<and>
     0x20 \<le> getTargetLogicalAddress t \<and> reply_ok (getReplyAddress t) \<and> path_ok (getReplyAddress t)"

text \<open>A client that is idle, connected to such a server and able to start an operation.\<close>

definition attached :: "(loop tcp_client, 'u) node \<Rightarrow> bool" where
  "attached nd \<longleftrightarrow> node_inv nd \<and> first_free nd \<noteq> None \<and> nd_buffer_policy nd = AutoResize \<and>
     4096 \<le> length (nd_send_buf nd) \<and> (\<exists>c. nd_tcp_backend nd = Some c \<and> tc_fd c = 3 \<and>
       pp_in (tc_sys c) = [] \<and> pp_out (tc_sys c) = [] \<and> memory_server (lp_server (tc_sys c)))"

definition memory :: "(loop tcp_client, 'u) node \<Rightarrow> u32 \<Rightarrow> u8" where
  "memory nd = (case nd_tcp_backend nd of Some c \<Rightarrow> nd_user (lp_server (tc_sys c)) | None \<Rightarrow> (\<lambda>_. 0))"

lemma answered_memory_server: "answered nd nd' user \<Longrightarrow> memory_server nd \<Longrightarrow> memory_server nd'"
  by (simp add: memory_server_def answered_fields)

lemma attached_settings:
  assumes "attached nd" "settings nd' = settings nd" "nd_available nd' = nd_available nd" "node_inv nd'"
    and "length (nd_send_buf nd) \<le> length (nd_send_buf nd')"
    and "nd_tcp_backend nd' = Some c" "tc_fd c = 3" "pp_in (tc_sys c) = []" "pp_out (tc_sys c) = []"
      "memory_server (lp_server (tc_sys c))"
  shows "attached nd'"
proof -
  have "id_count nd' = id_count nd" using assms(2) by (simp add: settings_def id_count_def)
  then have "first_free nd' = first_free nd" using assms(3) by (simp add: first_free_def)
  then show ?thesis using assms by (simp add: attached_def settings_def)
qed

text \<open>One turn of the network after an operation has been started completes it.\<close>

lemma turn_completes:
  assumes "attached nd" "nd_tcp_backend nd' = Some c" "tc_fd c = 3 \<and> lp_server (tc_sys c) = server"
    and "pp_out (tc_sys c) = frame 0 request" "memory_server server"
    and sv: "serves (TCPServer_backend pipe_sys) (\<lambda>s. ts_client_fd s = 3) (\<lambda>s. pp_in (ts_sys s))
      (\<lambda>s. pp_out (ts_sys s)) (SpwRmapTCPServer_methods pipe_sys) server request reply m"
    and cl: "completes (TCPClient_backend pipe_sys) (\<lambda>c. pp_in (tc_sys c)) (\<lambda>c. pp_out (tc_sys c))
      (SpwRmapTCPClient_methods pipe_sys) nd nd' reply user"
  obtains nd'' where "network_poll nd' = Some (Inr True, nd'')" "attached nd''" "memory nd'' = m" "nd_user nd'' = user"
    "nd_promises nd'' = nd_promises nd @ [Some (Inr ())]" "settings nd'' = settings nd"
proof -
  have "ts_client_fd (server_over (frame 0 request)) = 3" "pp_in (ts_sys (server_over (frame 0 request))) = frame 0 request"
    by simp_all
  from sv [unfolded serves_def, rule_format, OF this] obtain server' s where
    s: "poll (TCPServer_backend pipe_sys) (SpwRmapTCPServer_methods pipe_sys)
      (server\<lparr>nd_tcp_backend := Some (server_over (frame 0 request))\<rparr>) = Some (Inr True, server')"
    "nd_tcp_backend server' = Some s" "pp_out (ts_sys s) = frame 0 reply" "answered server server' m" by auto
  let ?c = "c\<lparr>tc_sys := (tc_sys c)\<lparr>pp_in := frame 0 reply, pp_out := [], lp_server := server'\<rparr>\<rparr>"
  have "tc_fd ?c = 3 \<and> lp_server (tc_sys ?c) = server'" "pp_in (tc_sys ?c) = frame 0 reply" using assms(3) by simp_all
  from cl [unfolded completes_def, rule_format, OF loop.client.tcp_stream_axioms this] obtain nd'' b where
    n: "poll (TCPClient_backend pipe_sys) (SpwRmapTCPClient_methods pipe_sys) (nd'\<lparr>nd_tcp_backend := Some ?c\<rparr>) =
      Some (Inr True, nd'')" "node_inv nd''" "nd_promises nd'' = nd_promises nd @ [Some (Inr ())]"
    "nd_available nd'' = nd_available nd" "nd_user nd'' = user" "settings nd'' = settings nd"
    "length (nd_send_buf nd) \<le> length (nd_send_buf nd'')" "nd_tcp_backend nd'' = Some b"
    "tc_fd b = 3" "lp_server (tc_sys b) = server'" "pp_in (tc_sys b) = []" "pp_out (tc_sys b) = []" by auto
  have "memory_server (lp_server (tc_sys b))" using answered_memory_server [OF s(4) assms(5)] n(10) by simp
  then have "attached nd''" by (rule attached_settings [OF assms(1) n(6,4,2,7-9,11,12)])
  moreover have "network_poll nd' = Some (Inr True, nd'')"
    using s(1-3) n(1) assms(2-4) by (simp add: network_poll_def network_deliver_def Let_def)
  moreover have "memory nd'' = m" using n(8,10) answered_fields(1) [OF s(4)] by (simp add: memory_def)
  ultimately show thesis using n(3,5,6) that by blast
qed

lemma attached_obtain:
  assumes "attached nd"
  obtains c i server where "nd_tcp_backend nd = Some c" "tc_fd c = 3 \<and> lp_server (tc_sys c) = server"
    "pp_out (tc_sys c) = []" "memory_server server" "nd_user server = memory nd"
    "node_inv nd" "first_free nd = Some i" "nd_buffer_policy nd = AutoResize" "4096 \<le> length (nd_send_buf nd)"
  using assms by (auto simp: attached_def memory_def)

lemma reply_padding: "reply_ok r \<Longrightarrow> (length r + 3) div 4 * 4 \<le> 15"
  using div_times_less_eq_dividend [of "length r + 3" 4] unfolding reply_ok_def by linarith

lemma write_over_network:
  assumes "attached nd" "target_ok t" "clock_ok clock" "length data < 2 ^ 24"
    and oc: "\<And>pk. pk_type pk = PT_WriteReply \<Longrightarrow> oc pk (nd_user nd) = Some (Returns (), user)"
  obtains nd' nd'' tid where "startWriteAsyncOperation (TCPClient_backend pipe_sys) clock t a data oc nd =
      Some (\<lparr>op_future = length (nd_promises nd), op_transaction_id = tid\<rparr>, nd')"
    "network_poll nd' = Some (Inr True, nd'')" "attached nd''" "memory nd'' = mem_store a data (memory nd)" "nd_user nd'' = user"
    "nd_promises nd'' = nd_promises nd @ [Some (Inr ())]" "settings nd'' = settings nd"
proof -
  from assms(1) obtain b i server where b: "nd_tcp_backend nd = Some b" "tc_fd b = 3 \<and> lp_server (tc_sys b) = server"
      "pp_out (tc_sys b) = []" "memory_server server" "nd_user server = memory nd"
    and nd: "node_inv nd" "first_free nd = Some i" "nd_buffer_policy nd = AutoResize"
    by (rule attached_obtain)
  define c where "c = write_config t (slot_id nd i) a data nd"
  have sv: "nd_on_write server = Some memory_write" "nd_buffer_policy server = AutoResize"
    using b(4) by (simp_all add: memory_server_def)
  have rp: "(length (getReplyAddress t) + 3) div 4 * 4 \<le> 15" using assms(2) reply_padding by (simp add: target_ok_def)
  have "write_wf c" "path_ok (getReplyAddress t)" "send_room nd (WritePacketBuilder_getTotalSize c)"
    "recv_room (nd_buffer_policy nd) (length (nd_recv_buf nd)) (length (getReplyAddress t) + 8)"
    "recv_room (nd_buffer_policy server) (length (nd_recv_buf server)) (WritePacketBuilder_getTotalSize c)"
    "send_room server (length (getReplyAddress t) + 8)"
    using assms(2,4) rp nd(3) sv(2)
    by (simp_all add: c_def write_config_def write_wf_def target_ok_def reply_ok_def send_room_def recv_room_def
        WritePacketBuilder_getTotalSize_def INT_MAX_def VECTOR_MAX_SIZE_def)
  note facts = this
  have hand: "memory_write (write_decoded c (nd_packet server)) (nd_user server) =
      Some (Returns (), mem_store a data (memory nd))"
    by (simp add: memory_write_def write_decoded_def c_def write_config_def b(5))
  obtain nd' b' reply where x: "startWriteAsyncOperation (TCPClient_backend pipe_sys) clock t a data oc nd =
      Some (\<lparr>op_future = length (nd_promises nd), op_transaction_id = Some (slot_id nd i)\<rparr>, nd')"
    "nd_tcp_backend nd' = Some b'" "tc_fd b' = 3 \<and> lp_server (tc_sys b') = server"
    "pp_out (tc_sys b') = pp_out (tc_sys b) @ frame 0 (write_packet c)"
    "serves (TCPServer_backend pipe_sys) (\<lambda>s. ts_client_fd s = 3) (\<lambda>s. pp_in (ts_sys s))
      (\<lambda>s. pp_out (ts_sys s)) (SpwRmapTCPServer_methods pipe_sys) server (write_packet c) reply (mem_store a data (memory nd))"
    "completes (TCPClient_backend pipe_sys) (\<lambda>c. pp_in (tc_sys c)) (\<lambda>c. pp_out (tc_sys c))
      (SpwRmapTCPClient_methods pipe_sys) nd nd' reply user"
    by (rule write_exchange [where oc = oc and user_c = user and f = memory_write and user_s = "mem_store a data (memory nd)", OF loop.client.tcp_stream_axioms [where server = server] pipe.server.tcp_stream_axioms
      nd(1) assms(3) nd(2) b(1,2) c_def facts sv(1) hand oc])
  from x(4) b(3) have out: "pp_out (tc_sys b') = frame 0 (write_packet c)" by simp
  from turn_completes [OF assms(1) x(2,3) out b(4) x(5,6)] that [OF x(1)] show thesis by metis
qed

lemma read_over_network:
  assumes "attached nd" "target_ok t" "clock_ok clock" "unat l < 2 ^ 24"
    and oc: "\<And>pk. pk_type pk = PT_ReadReply \<Longrightarrow> pk_data pk = mem_fetch a (unat l) (memory nd) \<Longrightarrow>
      oc pk (nd_user nd) = Some (Returns (), user)"
  obtains nd' nd'' tid where "startReadAsyncOperation (TCPClient_backend pipe_sys) clock t a l oc nd =
      Some (\<lparr>op_future = length (nd_promises nd), op_transaction_id = tid\<rparr>, nd')"
    "network_poll nd' = Some (Inr True, nd'')" "attached nd''" "memory nd'' = memory nd" "nd_user nd'' = user"
    "nd_promises nd'' = nd_promises nd @ [Some (Inr ())]" "settings nd'' = settings nd"
proof -
  from assms(1) obtain b i server where b: "nd_tcp_backend nd = Some b" "tc_fd b = 3 \<and> lp_server (tc_sys b) = server"
      "pp_out (tc_sys b) = []" "memory_server server" "nd_user server = memory nd"
    and nd: "node_inv nd" "first_free nd = Some i" "nd_buffer_policy nd = AutoResize" "4096 \<le> length (nd_send_buf nd)"
    by (rule attached_obtain)
  define c where "c = read_config t (slot_id nd i) a l nd"
  let ?data = "mem_fetch a (unat l) (memory nd)"
  have sv: "nd_on_read server = Some memory_read" "nd_buffer_policy server = AutoResize"
    using b(4) by (simp_all add: memory_server_def)
  have rp: "(length (getReplyAddress t) + 3) div 4 * 4 \<le> 15" using assms(2) reply_padding by (simp add: target_ok_def)
  have "read_wf c" "path_ok (getReplyAddress t)" "ReadPacketBuilder_getTotalSize c \<le> INT_MAX"
    "ReadPacketBuilder_getTotalSize c + 12 \<le> length (nd_send_buf nd)"
    "recv_room (nd_buffer_policy nd) (length (nd_recv_buf nd)) (length (getReplyAddress t) + 13 + length ?data)"
    "recv_room (nd_buffer_policy server) (length (nd_recv_buf server)) (ReadPacketBuilder_getTotalSize c)"
    "send_room server (length (getReplyAddress t) + 13 + length ?data)" "length ?data < 2 ^ 24"
    using assms(2,4) rp nd(3,4) sv(2)
    by (simp_all add: c_def read_config_def read_wf_def target_ok_def reply_ok_def send_room_def recv_room_def
        ReadPacketBuilder_getTotalSize_def INT_MAX_def VECTOR_MAX_SIZE_def)
  note facts = this
  have hand: "memory_read (read_decoded c (nd_packet server)) (nd_user server) = Some (Returns ?data, memory nd)"
    by (simp add: memory_read_def read_decoded_def c_def read_config_def b(5))
  obtain nd' b' reply where x: "startReadAsyncOperation (TCPClient_backend pipe_sys) clock t a l oc nd =
      Some (\<lparr>op_future = length (nd_promises nd), op_transaction_id = Some (slot_id nd i)\<rparr>, nd')"
    "nd_tcp_backend nd' = Some b'" "tc_fd b' = 3 \<and> lp_server (tc_sys b') = server"
    "pp_out (tc_sys b') = pp_out (tc_sys b) @ frame 0 (read_packet c)"
    "serves (TCPServer_backend pipe_sys) (\<lambda>s. ts_client_fd s = 3) (\<lambda>s. pp_in (ts_sys s))
      (\<lambda>s. pp_out (ts_sys s)) (SpwRmapTCPServer_methods pipe_sys) server (read_packet c) reply (memory nd)"
    "completes (TCPClient_backend pipe_sys) (\<lambda>c. pp_in (tc_sys c)) (\<lambda>c. pp_out (tc_sys c))
      (SpwRmapTCPClient_methods pipe_sys) nd nd' reply user"
    by (rule read_exchange [where oc = oc and user_c = user and data = ?data and f = memory_read and user_s = "memory nd", OF loop.client.tcp_stream_axioms [where server = server] pipe.server.tcp_stream_axioms
      nd(1) assms(3) nd(2) b(1,2) c_def facts(1-7) sv(1) hand facts(8) oc])
  from x(4) b(3) have out: "pp_out (tc_sys b') = frame 0 (read_packet c)" by simp
  from turn_completes [OF assms(1) x(2,3) out b(4) x(5,6)] that [OF x(1)] show thesis by metis
qed

section \<open>Reading and writing the memory\<close>

lemma span_at_last: "span_at (xs @ [x]) (length xs) = Some x"
  by (simp add: span_at_def)

lemma sync_first_attempt:
  assumes "start 0 nd = Some (\<lparr>op_future = length ps, op_transaction_id = tid\<rparr>, nd')" "wait 0 (length ps) nd' = Some nd''"
    and "nd_promises nd'' = ps @ [Some res]" "k \<noteq> 0"
  shows "sync_attempts start wait k 0 nd = Some (res, nd'')"
  using assms by (cases k) (simp_all add: future_status_last)

lemma attempts_pos: "attempts n \<noteq> 0"
  by (simp add: attempts_def)

lemma write_memory:
  assumes "attached nd" "target_ok t" "\<And>k. clock_ok (clock k)" "length data < 2 ^ 24"
  obtains nd' where "write_sync (TCPClient_backend pipe_sys) clock (\<lambda>_ _. network_turn) t a data n nd = Some (Inr (), nd')"
    "attached nd'" "memory nd' = mem_store a data (memory nd)" "nd_user nd' = nd_user nd"
proof -
  from write_over_network [OF assms(1-4), where oc = "\<lambda>packet user. Some (Returns (), user)" and user = "nd_user nd" and a = a] obtain nd' nd'' tid where
    w: "startWriteAsyncOperation (TCPClient_backend pipe_sys) (clock 0) t a data (\<lambda>packet user. Some (Returns (), user)) nd =
      Some (\<lparr>op_future = length (nd_promises nd), op_transaction_id = tid\<rparr>, nd')" "network_poll nd' = Some (Inr True, nd'')"
    and x: "attached nd''" "memory nd'' = mem_store a data (memory nd)" "nd_user nd'' = nd_user nd"
      "nd_promises nd'' = nd_promises nd @ [Some (Inr ())]" by blast
  have "write_sync (TCPClient_backend pipe_sys) clock (\<lambda>_ _. network_turn) t a data n nd = Some (Inr (), nd'')"
    unfolding write_sync_def using w(1) network_turn_poll [OF w(2)] x(4) attempts_pos by (intro sync_first_attempt) auto
  then show thesis using x by (intro that)
qed

lemma read_memory:
  assumes "attached nd" "target_ok t" "\<And>k. clock_ok (clock k)" "n < 2 ^ 24"
  obtains nd' where "read_sync (TCPClient_backend pipe_sys) clock (\<lambda>_ _. network_turn) t a n put_data r nd = Some (Inr (), nd')"
    "attached nd'" "memory nd' = memory nd" "nd_user nd' = put_data (mem_fetch a n (memory nd)) (nd_user nd)"
proof -
  have l: "unat (word_of_nat n :: u32) = n" using assms(4) by (simp add: unsigned_of_nat take_bit_nat_eq_self)
  have oc: "copy_data n put_data pk (nd_user nd) = Some (Returns (), put_data (mem_fetch a n (memory nd)) (nd_user nd))"
    if "pk_data pk = mem_fetch a (unat (word_of_nat n :: u32)) (memory nd)" for pk
    using that l by (simp add: copy_data_def span_first_def)
  from read_over_network [OF assms(1-3), of "word_of_nat n" a "copy_data n put_data"] assms(4) l oc obtain nd' nd'' tid where
    w: "startReadAsyncOperation (TCPClient_backend pipe_sys) (clock 0) t a (word_of_nat n) (copy_data n put_data) nd =
      Some (\<lparr>op_future = length (nd_promises nd), op_transaction_id = tid\<rparr>, nd')" "network_poll nd' = Some (Inr True, nd'')"
    and x: "attached nd''" "memory nd'' = memory nd" "nd_user nd'' = put_data (mem_fetch a n (memory nd)) (nd_user nd)"
      "nd_promises nd'' = nd_promises nd @ [Some (Inr ())]" by metis
  have "read_sync (TCPClient_backend pipe_sys) clock (\<lambda>_ _. network_turn) t a n put_data r nd = Some (Inr (), nd'')"
    unfolding read_sync_def using w(1) network_turn_poll [OF w(2)] x(4) attempts_pos by (intro sync_first_attempt) auto
  then show thesis using x by (intro that)
qed

text \<open>C3. Remote memory over the network, with both nodes, both backends, framing, packets and CRC in between: a synchronous write
  to a server that is a memory succeeds, changes the memory exactly at the addressed bytes, and a
  synchronous read of these addresses then succeeds and delivers exactly what was written. Both nodes are ready
  for the next operation afterwards.\<close>

theorem read_after_write:
  fixes nd :: "(loop tcp_client, bytes) node"
  assumes "attached nd" and "target_ok t" and "\<And>k. clock_ok (clock k)" and "length data < 2 ^ 24"
  shows "\<exists>nd' nd''. write_sync (TCPClient_backend pipe_sys) clock (\<lambda>_ _. network_turn) t a data n nd = Some (Inr (), nd') \<and>
     attached nd' \<and> memory nd' = mem_store a data (memory nd) \<and>
     read_sync (TCPClient_backend pipe_sys) clock (\<lambda>_ _. network_turn) t a (length data) (\<lambda>bytes _. bytes) m nd' =
       Some (Inr (), nd'') \<and> attached nd'' \<and> memory nd'' = memory nd' \<and> nd_user nd'' = data"
proof -
  obtain nd' where w:
    "write_sync (TCPClient_backend pipe_sys) clock (\<lambda>_ _. network_turn) t a data n nd = Some (Inr (), nd')"
    "attached nd'" "memory nd' = mem_store a data (memory nd)" "nd_user nd' = nd_user nd" by (rule write_memory [OF assms])
  obtain nd'' where
    "read_sync (TCPClient_backend pipe_sys) clock (\<lambda>_ _. network_turn) t a (length data) (\<lambda>bytes _. bytes) m nd' = Some (Inr (), nd'')"
    "attached nd''" "memory nd'' = memory nd'" "nd_user nd'' = mem_fetch a (length data) (memory nd')"
    by (rule read_memory [OF w(2) assms(2-4)])
  then show ?thesis using w assms(4) by (auto simp: mem_fetch_store)
qed

definition sample_memory :: "(pipe tcp_server, u32 \<Rightarrow> u8) node" where
  "sample_memory = registerOnWrite (Some memory_write) (registerOnRead (Some memory_read)
     (SpwRmapTCPNodeImpl (\<lambda>ip port. server_over []) sample_config (\<lambda>_. 0)))"

definition sample_loop :: loop where
  "sample_loop = \<lparr>pp_in = [], pp_out = [], pp_step = 4, pp_open = [3], lp_server = sample_memory\<rparr>"

definition loop_client :: "(loop tcp_client, bytes) node" where
  "loop_client = SpwRmapTCPNodeImpl (\<lambda>ip port. (TCPClient sample_loop ip port)\<lparr>tc_fd := 3\<rparr>)
     (sample_config\<lparr>cf_send_buffer_size := 4096\<rparr>) []"

lemma sample_memory_server: "memory_server sample_memory" "nd_user sample_memory = (\<lambda>_. 0)"
  by (simp_all add: memory_server_def sample_memory_def registerOnWrite_def registerOnRead_def SpwRmapTCPNodeImpl_def
      sample_config_def Let_def)

lemma loop_client_attached: "attached loop_client" "memory loop_client = (\<lambda>_. 0)"
proof -
  have "node_inv loop_client" unfolding loop_client_def by (rule new_node_inv) (simp add: sample_config_def)
  moreover have "first_free loop_client = Some 0"
    by (simp add: first_free_def find_upt_Some loop_client_def SpwRmapTCPNodeImpl_def sample_config_def
        sample_count id_count_def replicate_2 Let_def)
  ultimately show "attached loop_client" "memory loop_client = (\<lambda>_. 0)"
    by (simp_all add: attached_def memory_def loop_client_def SpwRmapTCPNodeImpl_def sample_config_def sample_loop_def
        sample_memory_server TCPClient_def Let_def)
qed

lemma sample_target_ok: "target_ok sample_target"
  by (simp add: target_ok_def sample_target_def getTargetSpaceWireAddress_def getReplyAddress_def
      getTargetLogicalAddress_def path_ok_def reply_ok_def)

theorem read_after_write_witness:
  "\<exists>nd' nd''. write_sync (TCPClient_backend pipe_sys) (\<lambda>_ _. 0) (\<lambda>_ _. network_turn) sample_target 0x100 [1, 2] 3 loop_client =
       Some (Inr (), nd') \<and> memory nd' 0x101 = 2 \<and> memory nd' 0x102 = 0 \<and>
     read_sync (TCPClient_backend pipe_sys) (\<lambda>_ _. 0) (\<lambda>_ _. network_turn) sample_target 0x100 2 (\<lambda>bytes _. bytes) 3 nd' =
       Some (Inr (), nd'') \<and> nd_user nd'' = [1, 2]"
proof -
  have "length [1, 2 :: u8] < 2 ^ 24" by simp
  from read_after_write [OF loop_client_attached(1) sample_target_ok zero_clock this, where a = "0x100" and n = 3 and m = 3] obtain nd' nd'' where
    x: "write_sync (TCPClient_backend pipe_sys) (\<lambda>_ _. 0) (\<lambda>_ _. network_turn) sample_target 0x100 [1, 2] 3 loop_client =
       Some (Inr (), nd')" "memory nd' = mem_store 0x100 [1, 2] (memory loop_client)"
    "read_sync (TCPClient_backend pipe_sys) (\<lambda>_ _. 0) (\<lambda>_ _. network_turn) sample_target 0x100 (length [1, 2 :: u8])
       (\<lambda>bytes _. bytes) 3 nd' = Some (Inr (), nd'')" "nd_user nd'' = [1, 2]" by blast
  have "memory nd' 0x101 = 2" "memory nd' 0x102 = 0" unfolding x(2) loop_client_attached(2) by (simp_all add: mem_store_def)
  moreover have "length [1, 2 :: u8] = 2" by simp
  ultimately show ?thesis using x by metis
qed

end
