(* ===== verification/App_Speedtest.thy ===== *)
theory App_Speedtest
  imports App_Statistics Node_Memory
begin

text \<open>
  The program \<open>app/spwrmap_speedtest.cc\<close>: its options, the chunked write of the pattern, the
  repeated reads with their latencies, the exit code and the output. The statistics are in \<open>App_Statistics\<close>.
\<close>

unbundle bit_operations_syntax

section \<open>Options of the speed test\<close>

record Speed_Options =
  so_ip :: string
  so_port :: string
  so_target_address :: bytes
  so_reply_address :: bytes
  so_ntimes :: "nat option"
  so_nbytes :: "nat option"
  so_start_address :: "u32 option"

definition default_speed_options :: Speed_Options where
  "default_speed_options = \<lparr>so_ip = ''127.0.0.1'', so_port = ''10030'', so_target_address = [],
     so_reply_address = [], so_ntimes = None, so_nbytes = None, so_start_address = None\<rparr>"

definition speed_parseUnsigned :: "string \<Rightarrow> nat \<Rightarrow> nat option" where
  "speed_parseUnsigned token max_value = (case stoull token of
       None \<Rightarrow> None
     | Some (v, idx) \<Rightarrow> if idx \<noteq> length token \<or> v > max_value then None else Some v)"

fun speed_byte_sequence :: "bool \<Rightarrow> string list \<Rightarrow> bytes \<Rightarrow> (string list \<times> bytes) option" where
  "speed_byte_sequence parsed [] dst = (if parsed then Some ([], dst) else None)"
| "speed_byte_sequence parsed (next # args) dst =
    (if take 2 next = ''--'' then if parsed then Some (next # args, dst) else None
     else case speed_parseUnsigned next 0xFF of
         None \<Rightarrow> None
       | Some v \<Rightarrow> speed_byte_sequence True args (dst @ [word_of_nat v]))"

definition speed_parseByteSequence :: "string list \<Rightarrow> bytes \<Rightarrow> (string list \<times> bytes) option" where
  "speed_parseByteSequence args dst = speed_byte_sequence False args dst"

text \<open>The two programs have their own copies of these functions, which agree.\<close>

lemma speed_parseUnsigned_eq [simp]: "speed_parseUnsigned token max_value = parseUnsigned token max_value"
  by (simp add: speed_parseUnsigned_def parseUnsigned_def)

lemma speed_parseByteSequence_eq [simp]: "speed_parseByteSequence args dst = parseByteSequence args dst"
proof -
  have "speed_byte_sequence parsed args dst = byte_sequence parsed args dst" for parsed
    by (induction parsed args dst rule: byte_sequence.induct) (simp_all split: option.split)
  then show ?thesis by (simp add: speed_parseByteSequence_def parseByteSequence_def)
qed

text \<open>
  \<open>--help\<close> ends the program with exit code 0 as soon as it is reached; every error gives no
  options. An error is \<open>Inl 1\<close> here and help is \<open>Inl 0\<close>: the exit code of the program.
\<close>

definition exit_on_error :: "'a option \<Rightarrow> nat + 'a" where
  "exit_on_error x = (case x of None \<Rightarrow> Inl 1 | Some a \<Rightarrow> Inr a)"

definition speed_option_step :: "string \<Rightarrow> string list \<Rightarrow> Speed_Options \<Rightarrow> nat + (string list \<times> Speed_Options)" where
  "speed_option_step name args opts =
    (if name = ''ip'' then exit_on_error (takeValue (\<lambda>v. Some (opts\<lparr>so_ip := v\<rparr>)) args)
     else if name = ''port'' then exit_on_error (takeValue (\<lambda>v. Some (opts\<lparr>so_port := v\<rparr>)) args)
     else if name = ''target-address'' then
       (case speed_parseByteSequence args (so_target_address opts) of
          None \<Rightarrow> Inl 1
        | Some (args, dst) \<Rightarrow> Inr (args, opts\<lparr>so_target_address := dst\<rparr>))
     else if name = ''reply-address'' then
       (case speed_parseByteSequence args (so_reply_address opts) of
          None \<Rightarrow> Inl 1
        | Some (args, dst) \<Rightarrow> Inr (args, opts\<lparr>so_reply_address := dst\<rparr>))
     else if name = ''ntimes'' then
       exit_on_error (takeValue (\<lambda>v. case speed_parseUnsigned v (2 ^ 64 - 1) of
           None \<Rightarrow> None
         | Some parsed \<Rightarrow> if parsed = 0 then None else Some (opts\<lparr>so_ntimes := Some parsed\<rparr>)) args)
     else if name = ''nbytes'' then
       exit_on_error (takeValue (\<lambda>v. case speed_parseUnsigned v (2 ^ 64 - 1) of
           None \<Rightarrow> None
         | Some parsed \<Rightarrow>
             if parsed = 0 \<or> parsed > 2 ^ 32 - 1 then None else Some (opts\<lparr>so_nbytes := Some parsed\<rparr>)) args)
     else if name = ''start_address'' then
       exit_on_error (takeValue (\<lambda>v. case speed_parseUnsigned v (2 ^ 32 - 1) of
           None \<Rightarrow> None
         | Some parsed \<Rightarrow> Some (opts\<lparr>so_start_address := Some (word_of_nat parsed)\<rparr>)) args)
     else if name = ''help'' then Inl 0
     else Inl 1)"

lemma takeValue_length: "takeValue f args = Some (args', v) \<Longrightarrow> length args' \<le> length args"
  by (auto simp: takeValue_def split: list.split_asm option.split_asm)

lemma speed_option_step_length:
  "speed_option_step name args opts = Inr (args', opts') \<Longrightarrow> length args' \<le> length args"
  unfolding speed_option_step_def exit_on_error_def
  by (auto dest: parseByteSequence_length takeValue_length split: if_split_asm option.split_asm prod.split_asm)

function speed_parse_args :: "string list \<Rightarrow> Speed_Options \<Rightarrow> nat + Speed_Options" where
  "speed_parse_args [] opts = Inr opts"
| "speed_parse_args (arg # args) opts =
    (if take 2 arg \<noteq> ''--'' then Inl 1
     else case speed_option_step (drop 2 arg) args opts of
         Inl code \<Rightarrow> Inl code
       | Inr (args, opts) \<Rightarrow> speed_parse_args args opts)"
  by pat_completeness auto
termination
  by (relation "measure (\<lambda>(args, opts). length args)") (auto dest: speed_option_step_length)

definition speed_options_complete :: "Speed_Options \<Rightarrow> bool" where
  "speed_options_complete opts \<longleftrightarrow> so_target_address opts \<noteq> [] \<and> so_reply_address opts \<noteq> [] \<and>
     so_ntimes opts \<noteq> None \<and> so_nbytes opts \<noteq> None \<and> so_start_address opts \<noteq> None"

definition speed_parseOptions :: "string list \<Rightarrow> nat + Speed_Options" where
  "speed_parseOptions argv = (case speed_parse_args (tl argv) default_speed_options of
       Inl code \<Rightarrow> Inl code
     | Inr opts \<Rightarrow> if speed_options_complete opts then Inr opts else Inl 1)"

section \<open>The measurement\<close>

definition kChunkSize :: nat where "kChunkSize = 1024"

text \<open>
  The first loop of \<open>main\<close>. \<open>wr offset address data\<close> is the synchronous write that the
  pass at \<open>offset\<close> makes.
\<close>

function write_chunks ::
    "(nat \<Rightarrow> u32 \<Rightarrow> bytes \<Rightarrow> 's \<Rightarrow> ((error_code + unit) \<times> 's) option) \<Rightarrow> bytes \<Rightarrow> u32 \<Rightarrow> nat \<Rightarrow> 's \<Rightarrow>
     ((error_code + unit) \<times> 's) option" where
  "write_chunks wr pattern base_address offset s =
    (if offset < length pattern
     then do {
       let chunk = min kChunkSize (length pattern - offset);
       let chunk_span = take chunk (drop offset pattern);
       (res, s) \<leftarrow> wr offset (base_address + word_of_nat offset) chunk_span s;
       case res of
         Inl e \<Rightarrow> Some (Inl e, s)
       | Inr _ \<Rightarrow> write_chunks wr pattern base_address (offset + kChunkSize) s
     }
     else Some (Inr (), s))"
  by pat_completeness auto
termination
  by (relation "measure (\<lambda>(wr, pattern, base, offset, s). length pattern - offset)") (auto simp: kChunkSize_def)

declare write_chunks.simps [simp del]

text \<open>
  One pass of the second loop: an asynchronous read into \<open>read_buffer\<close>, the state of the user, and the
  comparison. \<open>future.wait()\<close> returns when the future is ready; \<open>wait\<close> is what the polling thread does
  until then. The exception of a broken promise leaves \<open>main\<close>.
\<close>

definition read_callback :: "bytes completion" where
  "read_callback packet read_buffer =
    (if length (pk_data packet) \<noteq> length read_buffer then Some (Throws_exception, read_buffer)
     else Some (Returns (), pk_data packet))"

definition read_pass ::
    "'b backend \<Rightarrow> (nat \<Rightarrow> int) \<Rightarrow> (nat \<Rightarrow> ('b, bytes) node \<Rightarrow> ('b, bytes) node option) \<Rightarrow> target_node \<Rightarrow>
     bytes \<Rightarrow> u32 \<Rightarrow> ('b, bytes) node \<Rightarrow> (bool \<times> ('b, bytes) node) option" where
  "read_pass B clock wait target pattern base_address client = do {
     (future, client) \<leftarrow> readAsync B clock target base_address (word_of_nat (length pattern)) read_callback client;
     client \<leftarrow> wait future client;
     status \<leftarrow> future_status future client;
     case status of
       Future_pending \<Rightarrow> None
     | Future_broken \<Rightarrow> None
     | Future_ready res \<Rightarrow> (case res of
           Inl _ \<Rightarrow> Some (False, client)
         | Inr _ \<Rightarrow> Some (nd_user client = pattern, client))
   }"

text \<open>The second loop: the latencies, if all passes succeed. \<open>elapsed\<close> is the latency of a pass.\<close>

fun read_passes ::
    "(nat \<Rightarrow> 's \<Rightarrow> (bool \<times> 's) option) \<Rightarrow> (nat \<Rightarrow> 'd) \<Rightarrow> nat \<Rightarrow> nat \<Rightarrow> 'd list \<Rightarrow> 's \<Rightarrow> ('d list option \<times> 's) option" where
  "read_passes pass elapsed 0 iter latencies_us s = Some (Some latencies_us, s)"
| "read_passes pass elapsed (Suc k) iter latencies_us s = do {
     (ok, s) \<leftarrow> pass iter s;
     if ok then read_passes pass elapsed k (Suc iter) (latencies_us @ [elapsed iter]) s else Some (None, s)
   }"

text \<open>The two readings of the clock, in nanoseconds, around the read of a pass.\<close>

definition latency :: "'d double_ops \<Rightarrow> (nat \<Rightarrow> int) \<Rightarrow> nat \<Rightarrow> 'd" where
  "latency F now iter = (let start_time = now (2 * iter); end_time = now (2 * iter + 1)
     in d_of_int F (end_time - start_time))"

text \<open>The longest \<open>std::vector<double>\<close>.\<close>

definition DOUBLES_MAX_SIZE :: nat where "DOUBLES_MAX_SIZE = 2 ^ 60 - 1"

text \<open>
  \<open>main\<close>: its exit code, what it writes to \<open>std::cout\<close> and the node if one was made. \<open>random\<close> stands for the
  random numbers, \<open>now\<close> for the readings of the clock. The two pairs of functions are the clock and
  the polling thread during the writes, by offset, and during the reads, by iteration.
\<close>

definition speedtest_main ::
    "'w sys \<Rightarrow> 'd::linorder double_ops \<Rightarrow> (nat \<Rightarrow> int) \<Rightarrow> (nat \<Rightarrow> nat \<Rightarrow> nat \<Rightarrow> int) \<Rightarrow>
     (nat \<Rightarrow> nat \<Rightarrow> nat \<Rightarrow> ('w tcp_client, bytes) node \<Rightarrow> ('w tcp_client, bytes) node option) \<Rightarrow>
     (nat \<Rightarrow> nat \<Rightarrow> int) \<Rightarrow> (nat \<Rightarrow> nat \<Rightarrow> ('w tcp_client, bytes) node \<Rightarrow> ('w tcp_client, bytes) node option) \<Rightarrow>
     (nat \<Rightarrow> u8) \<Rightarrow> string list \<Rightarrow> 'w \<Rightarrow> (nat \<times> string \<times> ('w tcp_client, bytes) node option) option" where
  "speedtest_main S F now write_clock write_wait read_clock read_wait random argv w =
    (case speed_parseOptions argv of
       Inl code \<Rightarrow> Some (code, [], None)
     | Inr opts \<Rightarrow> do {
         ntimes \<leftarrow> so_ntimes opts;
         total_bytes \<leftarrow> so_nbytes opts;
         base_address \<leftarrow> so_start_address opts;
         if unat base_address + total_bytes > 2 ^ 32 - 1 + 1 then Some (1, [], None)
         else do {
           let pattern = map random [0..<total_bytes];
           let client = setInitiatorLogicalAddress kInitiatorLogicalAddress
             (SpwRmapTCPNodeImpl (TCPClient w) (default_config (so_ip opts) (so_port opts)) []);
           (res, client) \<leftarrow> SpwRmapTCPClient_connect S 1000000 client;
           case res of
             Inl _ \<Rightarrow> Some (1, [], Some client)
           | Inr _ \<Rightarrow> do {
               let target = TargetNodeDynamic kTargetLogicalAddress (so_target_address opts) (so_reply_address opts);
               (res, client) \<leftarrow> write_chunks
                 (\<lambda>offset address data.
                    write_sync (TCPClient_backend S) (write_clock offset) (write_wait offset) target address data 3)
                 pattern base_address 0 client;
               case res of
                 Inl _ \<Rightarrow> do { (_, client) \<leftarrow> SpwRmapTCPClient_shutdown S client; Some (1, [], Some client) }
               | Inr _ \<Rightarrow>
                   if ntimes > DOUBLES_MAX_SIZE then None
                   else do {
                     let client = client\<lparr>nd_user := replicate total_bytes 0\<rparr>;
                     (latencies_us, client) \<leftarrow> read_passes
                       (\<lambda>iter. read_pass (TCPClient_backend S) (read_clock iter) (read_wait iter) target pattern base_address)
                       (latency F now) ntimes 0 [] client;
                     (res, client) \<leftarrow> SpwRmapTCPClient_shutdown S client;
                     Some (case latencies_us of
                         None \<Rightarrow> (1, [], Some client)
                       | Some latencies_us \<Rightarrow> (if isl res then 1 else 0, speed_report F latencies_us, Some client))
                   }
             }
         }
       })"

section \<open>The pattern in the memory of the target\<close>

lemma store_chunk:
  assumes "offset + length data \<le> 2 ^ 32" "data \<noteq> []"
  shows "mem_store (base + word_of_nat offset) data m x =
    (if offset \<le> unat (x - base) \<and> unat (x - base) < offset + length data then data ! (unat (x - base) - offset) else m x)"
proof -
  have off: "unat (word_of_nat offset :: u32) = offset"
    using assms by (cases data) (simp_all add: unsigned_of_nat take_bit_nat_eq_self)
  have "x - (base + word_of_nat offset) = (x - base) - word_of_nat offset" by simp
  then have "unat (x - (base + word_of_nat offset)) =
    (if offset \<le> unat (x - base) then unat (x - base) - offset else unat (x - base) + 2 ^ 32 - offset)"
    by (simp only: unat_sub_if' off) simp
  then show ?thesis using assms(1) by (auto simp: mem_store_def)
qed

text \<open>What the loop needs of the operation that writes: it succeeds and stores the chunk.\<close>

locale memory_device =
  fixes wr :: "nat \<Rightarrow> u32 \<Rightarrow> bytes \<Rightarrow> 's \<Rightarrow> ((error_code + unit) \<times> 's) option"
    and good :: "'s \<Rightarrow> bool" and mem :: "'s \<Rightarrow> u32 \<Rightarrow> u8"
  assumes step: "d \<noteq> [] \<Longrightarrow> length d \<le> kChunkSize \<Longrightarrow> good st \<Longrightarrow>
      \<exists>st'. wr off a d st = Some (Inr (), st') \<and> good st' \<and> mem st' = mem_store a d (mem st)"
begin

lemma write_chunks_stores:
  assumes "length pattern \<le> 2 ^ 32" "good st"
  shows "\<exists>st'. write_chunks wr pattern base offset st = Some (Inr (), st') \<and> good st' \<and>
    (\<forall>x. mem st' x = (if offset \<le> unat (x - base) \<and> unat (x - base) < length pattern then pattern ! unat (x - base)
       else mem st x))"
  using assms(2)
proof (induction "length pattern - offset" arbitrary: offset st rule: less_induct)
  case less
  show ?case
  proof (cases "offset < length pattern")
    case False
    with less.prems show ?thesis by (subst write_chunks.simps) auto
  next
    case True
    define d where "d = take (min kChunkSize (length pattern - offset)) (drop offset pattern)"
    have d: "d \<noteq> []" "length d \<le> kChunkSize" "offset + length d \<le> length pattern"
      "length d = kChunkSize \<or> offset + length d = length pattern"
      using True by (auto simp: d_def kChunkSize_def)
    from step [OF d(1,2) less.prems] obtain st1 where st1:
      "wr offset (base + word_of_nat offset) d st = Some (Inr (), st1)" "good st1"
      "mem st1 = mem_store (base + word_of_nat offset) d (mem st)" by blast
    have "length pattern - (offset + kChunkSize) < length pattern - offset" using True by (simp add: kChunkSize_def)
    from less.hyps [OF this st1(2)] obtain st2 where st2:
      "write_chunks wr pattern base (offset + kChunkSize) st1 = Some (Inr (), st2)" "good st2"
      "\<And>x. mem st2 x = (if offset + kChunkSize \<le> unat (x - base) \<and> unat (x - base) < length pattern
         then pattern ! unat (x - base) else mem st1 x)" by blast
    have nth: "d ! (k - offset) = pattern ! k" if "offset \<le> k" "k < offset + length d" for k
    proof -
      have "k - offset < min kChunkSize (length pattern - offset)" "offset + (k - offset) = k"
        using that by (auto simp: d_def)
      then show ?thesis using d(3) that by (simp add: d_def)
    qed
    have "mem st1 x = (if offset \<le> unat (x - base) \<and> unat (x - base) < offset + length d
        then pattern ! unat (x - base) else mem st x)" for x
      using store_chunk [of offset d base "mem st" x] d(1,3) assms(1) nth by (simp add: st1(3))
    then have "mem st2 x = (if offset \<le> unat (x - base) \<and> unat (x - base) < length pattern
        then pattern ! unat (x - base) else mem st x)" for x
      using d(2-4) st2(3) [of x] by auto
    moreover have "write_chunks wr pattern base offset st = Some (Inr (), st2)"
      using True st1(1) st2(1) by (subst write_chunks.simps) (simp add: Let_def d_def)
    ultimately show ?thesis using st2(2) by blast
  qed
qed

end

text \<open>The first part of the speed test writes the pattern in chunks of at most 1024 bytes. Over a target whose
  memory takes each write as it is, the loop ends with success and the memory holds the whole
  pattern from the start address on and is otherwise unchanged: no byte is left out or written to
  a wrong place, and with the check of \<open>main\<close> on the range no address wraps around.\<close>

lemma write_chunks_fill_range:
  assumes "\<And>offset address data s. data \<noteq> [] \<Longrightarrow> length data \<le> 1024 \<Longrightarrow> good s \<Longrightarrow>
      \<exists>s'. wr offset address data s = Some (Inr (), s') \<and> good s' \<and> mem s' = mem_store address data (mem s)"
    and "unat base_address + length pattern \<le> 2 ^ 32" and "good s"
  shows "\<exists>s'. write_chunks wr pattern base_address 0 s = Some (Inr (), s') \<and> good s' \<and>
    (\<forall>x. mem s' x =
      (if unat base_address \<le> unat x \<and> unat x < unat base_address + length pattern
       then pattern ! (unat x - unat base_address) else mem s x))"
proof -
  have "length pattern \<le> 2 ^ 32" using assms(2) by simp
  moreover have "memory_device wr good mem" using assms(1) by unfold_locales (simp add: kChunkSize_def)
  ultimately obtain s' where
    s': "write_chunks wr pattern base_address 0 s = Some (Inr (), s')" "good s'"
    "\<And>x. mem s' x = (if unat (x - base_address) < length pattern then pattern ! unat (x - base_address) else mem s x)"
    using memory_device.write_chunks_stores [of wr good mem pattern s base_address 0] assms(3) by auto
  have "unat x < 2 ^ 32" for x :: u32 using unsigned_less [of x] by simp
  then have "mem s' x = (if unat base_address \<le> unat x \<and> unat x < unat base_address + length pattern
       then pattern ! (unat x - unat base_address) else mem s x)" for x
    unfolding s'(3) [of x] using assms(2) by (auto simp: unat_sub_if')
  with s'(1,2) show ?thesis by blast
qed

lemma write_chunks_fill_range_witness:
  "\<exists>m. write_chunks (\<lambda>_ address data m. Some (Inr (), mem_store address data m)) (replicate 3000 7) 0xFFFFF000 0
       (\<lambda>_. 0) = Some (Inr (), m) \<and> m 0xFFFFF000 = 7 \<and> m 0xFFFFFBB7 = 7 \<and> m 0xFFFFFBB8 = 0 \<and> m 0xFFFFEFFF = 0"
proof -
  have range: "unat (0xFFFFF000 :: u32) + length (replicate 3000 (7 :: u8)) \<le> 2 ^ 32" by simp
  from write_chunks_fill_range [where good = "\<lambda>_. True" and mem = "\<lambda>m. m" and s = "\<lambda>_. 0"
      and wr = "\<lambda>_ address data m. Some (Inr (), mem_store address data m)", OF _ range]
  obtain m where m: "write_chunks (\<lambda>_ address data m. Some (Inr (), mem_store address data m)) (replicate 3000 7)
      0xFFFFF000 0 (\<lambda>_. 0) = Some (Inr (), m)"
    "\<And>x. m x = (if unat (0xFFFFF000 :: u32) \<le> unat x \<and> unat x < unat (0xFFFFF000 :: u32) + 3000
      then replicate 3000 7 ! (unat x - unat (0xFFFFF000 :: u32)) else 0)" by auto
  show ?thesis by (rule exI [of _ m]) (simp add: m(1) m(2))
qed

end
