(* ===== verification/App_Loop.thy ===== *)
theory App_Loop
  imports App_Speedtest
begin

text \<open>
  The two programs from start to end against a server that is a memory: connecting, the operations over the
  network, shutting down, and the exit code.
\<close>

unbundle bit_operations_syntax

section \<open>Connecting\<close>

text \<open>A world in which nothing is open yet and the server at the other end is a memory.\<close>

definition fresh_loop :: "loop \<Rightarrow> bool" where
  "fresh_loop w \<longleftrightarrow> pp_in w = [] \<and> pp_out w = [] \<and> pp_open w = [] \<and> memory_server (lp_server w)"

definition program_client :: "string \<Rightarrow> string \<Rightarrow> loop \<Rightarrow> (loop tcp_client, bytes) node" where
  "program_client ip port w = setInitiatorLogicalAddress kInitiatorLogicalAddress
     (SpwRmapTCPNodeImpl (TCPClient w) (default_config ip port) [])"

text \<open>Any client that has been constructed over this world and not connected yet.\<close>

lemma fresh_client_connects:
  assumes "fresh_loop w" "0 \<le> t" "nd_tcp_backend nd = Some (TCPClient w ip port)"
    and "node_inv nd" "first_free nd \<noteq> None" "nd_buffer_policy nd = AutoResize" "4096 \<le> length (nd_send_buf nd)"
      "0 \<le> nd_send_timeout nd"
  obtains b where "SpwRmapTCPClient_connect pipe_sys t nd = Some (Inr (), nd\<lparr>nd_tcp_backend := Some b, nd_shutdowned := False\<rparr>)"
    "attached (nd\<lparr>nd_tcp_backend := Some b, nd_shutdowned := False\<rparr>)"
    "memory (nd\<lparr>nd_tcp_backend := Some b, nd_shutdowned := False\<rparr>) = nd_user (lp_server w)"
proof -
  define b where "b = \<lparr>tc_fd = 3, tc_ip_address = ip, tc_port = port, tc_sys = w\<lparr>pp_open := [3]\<rparr>\<rparr>"
  let ?nd = "nd\<lparr>nd_tcp_backend := Some b, nd_shutdowned := False\<rparr>"
  have c: "TCPClient_connect pipe_sys t (TCPClient w ip port) = Some (Inr (), b)"
    using assms(1,2)
    by (simp add: fresh_loop_def b_def TCPClient_connect_def TCPClient_def set_sockopts_def set_cloexec_def
        connect_with_timeout_def connect_nonblocking_def retry_eintr_once [OF pipe_no_eintr] pipe_calls)
  have "SpwRmapTCPClient_connect pipe_sys t nd = Some (Inr (), ?nd)"
    using c assms(3,8)
    by (simp add: SpwRmapTCPClient_connect_def on_backend_def TCPClient_setSendTimeout_def b_def pipe_calls)
  moreover have "node_inv ?nd" using assms(4) node_inv_table [of ?nd nd] by simp
  moreover have "tc_fd b = 3 \<and> pp_in (tc_sys b) = [] \<and> pp_out (tc_sys b) = [] \<and> memory_server (lp_server (tc_sys b)) \<and>
      lp_server (tc_sys b) = lp_server w" using assms(1) by (simp add: b_def fresh_loop_def)
  ultimately show thesis using assms(5-7)
    by (intro that [of b]) (auto simp: attached_def memory_def first_free_def id_count_def)
qed

text \<open>A new client with the default configuration.\<close>

lemma default_client:
  fixes user :: 'u and w :: loop and ip port :: string
  defines "nd \<equiv> SpwRmapTCPNodeImpl (TCPClient w) (default_config ip port) user"
  shows "nd_tcp_backend nd = Some (TCPClient w ip port)" "node_inv nd" "first_free nd \<noteq> None"
    "nd_buffer_policy nd = AutoResize" "4096 \<le> length (nd_send_buf nd)" "0 \<le> nd_send_timeout nd"
proof -
  have "first_free nd = Some 0"
    by (simp add: first_free_def find_upt_Some nd_def SpwRmapTCPNodeImpl_def default_config_def transaction_count_def
        id_count_def Let_def)
  moreover show "node_inv nd" unfolding nd_def by (rule new_node_inv) (simp add: default_config_def)
  ultimately show "nd_tcp_backend nd = Some (TCPClient w ip port)" "first_free nd \<noteq> None"
    "nd_buffer_policy nd = AutoResize" "4096 \<le> length (nd_send_buf nd)" "0 \<le> nd_send_timeout nd"
    by (simp_all add: nd_def SpwRmapTCPNodeImpl_def default_config_def Let_def)
qed

lemma initiator_connects:
  fixes user :: 'u
  assumes "fresh_loop w" "0 \<le> t"
  obtains nd where "SpwRmapTCPClient_connect pipe_sys t
      (setInitiatorLogicalAddress address (SpwRmapTCPNodeImpl (TCPClient w) (default_config ip port) user)) = Some (Inr (), nd)"
    "attached nd" "memory nd = nd_user (lp_server w)" "nd_user nd = user"
proof -
  note d = default_client [of w ip port user]
  define nd0 where "nd0 = setInitiatorLogicalAddress address (SpwRmapTCPNodeImpl (TCPClient w) (default_config ip port) user)"
  have "table nd0 = table (SpwRmapTCPNodeImpl (TCPClient w) (default_config ip port) user)" "nd_user nd0 = user"
    by (simp_all add: nd0_def setInitiatorLogicalAddress_def table_def SpwRmapTCPNodeImpl_def Let_def)
  from node_inv_table [OF this(1)] d(2) this(2) have "node_inv nd0" "nd_user nd0 = user" by simp_all
  moreover have "nd_tcp_backend nd0 = Some (TCPClient w ip port)" "first_free nd0 \<noteq> None"
    "nd_buffer_policy nd0 = AutoResize" "4096 \<le> length (nd_send_buf nd0)" "0 \<le> nd_send_timeout nd0"
    using d by (simp_all add: nd0_def setInitiatorLogicalAddress_def first_free_def id_count_def)
  ultimately obtain b where "SpwRmapTCPClient_connect pipe_sys t nd0 = Some (Inr (), nd0\<lparr>nd_tcp_backend := Some b, nd_shutdowned := False\<rparr>)"
    "attached (nd0\<lparr>nd_tcp_backend := Some b, nd_shutdowned := False\<rparr>)"
    "memory (nd0\<lparr>nd_tcp_backend := Some b, nd_shutdowned := False\<rparr>) = nd_user (lp_server w)"
    using fresh_client_connects [OF assms] by metis
  then show thesis using that \<open>nd_user nd0 = user\<close> unfolding nd0_def by simp
qed

lemma loop_connects:
  assumes "fresh_loop w"
  obtains nd where "SpwRmapTCPClient_connect pipe_sys 1000000 (program_client ip port w) = Some (Inr (), nd)"
    "attached nd" "memory nd = nd_user (lp_server w)"
  unfolding program_client_def by (rule initiator_connects [OF assms, of 1000000]) simp_all

lemma attached_shuts_down:
  assumes "attached nd"
  obtains nd' where "SpwRmapTCPClient_shutdown pipe_sys nd = Some (Inr (), nd')"
proof -
  from assms obtain c where "nd_tcp_backend nd = Some c" "0 \<le> tc_fd c" by (auto simp: attached_def)
  then show thesis using that by (rule pipe_shuts_down)
qed

lemma attached_user [simp]: "attached (nd\<lparr>nd_user := u\<rparr>) = attached nd" "memory (nd\<lparr>nd_user := u\<rparr>) = memory nd"
proof -
  have "node_inv (nd\<lparr>nd_user := u\<rparr>) = node_inv nd" using node_inv_table [of "nd\<lparr>nd_user := u\<rparr>" nd] by simp
  then show "attached (nd\<lparr>nd_user := u\<rparr>) = attached nd"
    by (simp add: attached_def first_free_def id_count_def)
qed (simp add: memory_def)

section \<open>The programs against a memory\<close>

lemma parseOptions_length:
  assumes "parseOptions argv = Some opts"
  shows "length argv \<noteq> 1"
proof
  assume "length argv = 1"
  then obtain p where "argv = [p]" by (auto simp: length_Suc_conv)
  then show False using assms by (simp add: parseOptions_def default_options_def options_complete_def)
qed

text \<open>C36. \<open>spwrmap --type read\<close> against a server that is a memory: the program ends with exit code 0
  and prints the requested number of bytes from the requested address, in hexadecimal, as they are in the
  memory.\<close>

theorem spwrmap_prints_memory:
  assumes "fresh_loop w" and "\<And>k. clock_ok (clock k)"
    and "parseOptions argv = Some opts" and "''--help'' \<notin> set (tl argv)"
    and "op_type opts = ''read''" and "op_address opts = Some a" and "op_length opts = Some n" and "n < 2 ^ 24"
    and "target_ok (TargetNodeDynamic kTargetLogicalAddress (op_target_address opts) (op_reply_address opts))"
  shows "\<exists>nd. spwrmap_main pipe_sys clock (\<lambda>_ _. network_turn) argv w =
    Some (0, ''Read '' @ dec n @ '' bytes from 0x'' @ fill_zeros 8 (hex (unat a)) @ '':'' @
      concat (map (\<lambda>byte. '' 0x'' @ fill_zeros 2 (hex (unat byte))) (mem_fetch a n (nd_user (lp_server w)))) @ newline,
      Some nd)"
proof -
  obtain nd where c: "SpwRmapTCPClient_connect pipe_sys 1000000 (program_client (op_ip opts) (op_port opts) w) = Some (Inr (), nd)"
    "attached nd" "memory nd = nd_user (lp_server w)" by (rule loop_connects [OF assms(1)])
  have at: "attached (nd\<lparr>nd_user := replicate n 0\<rparr>)" using c(2) by simp
  obtain nd' where r: "read_sync (TCPClient_backend pipe_sys) clock (\<lambda>_ _. network_turn)
      (TargetNodeDynamic kTargetLogicalAddress (op_target_address opts) (op_reply_address opts)) a n (\<lambda>bytes _. bytes) 3
      (nd\<lparr>nd_user := replicate n 0\<rparr>) = Some (Inr (), nd')" "attached nd'"
    "memory nd' = memory (nd\<lparr>nd_user := replicate n 0\<rparr>)"
    "nd_user nd' = mem_fetch a n (memory (nd\<lparr>nd_user := replicate n 0\<rparr>))"
    by (rule read_memory [OF at assms(9,2,8)])
  note user = r(4) [unfolded attached_user c(3)]
  obtain nd'' where "SpwRmapTCPClient_shutdown pipe_sys nd' = Some (Inr (), nd'')" by (rule attached_shuts_down [OF r(2)])
  moreover have "vector_resize n [] = Some (replicate n 0)" using assms(8) by (simp add: vector_resize_def VECTOR_MAX_SIZE_def)
  moreover have "length argv \<noteq> 1" using parseOptions_length [OF assms(3)] .
  ultimately show ?thesis
    using assms(4-7) c(1) r(1) user unfolding spwrmap_main_def assms(3) option.case program_client_def
    by (simp add: performRead_def)
qed

text \<open>The passes of the speed test that read: each of them finds the pattern.\<close>

lemma read_pass_ok:
  assumes "attached nd" "target_ok t" "clock_ok clock" "length pattern < 2 ^ 24"
    and "mem_fetch a (length pattern) (memory nd) = pattern" "length (nd_user nd) = length pattern"
  obtains nd' where "read_pass (TCPClient_backend pipe_sys) clock (\<lambda>_. network_turn) t pattern a nd = Some (True, nd')"
    "attached nd'" "memory nd' = memory nd" "length (nd_user nd') = length pattern"
proof -
  have l: "unat (word_of_nat (length pattern) :: u32) = length pattern"
    using assms(4) by (simp add: unsigned_of_nat take_bit_nat_eq_self)
  have small: "unat (word_of_nat (length pattern) :: u32) < 2 ^ 24" using assms(4) l by simp
  have oc: "read_callback pk (nd_user nd) = Some (Returns (), pattern)"
    if "pk_data pk = mem_fetch a (unat (word_of_nat (length pattern) :: u32)) (memory nd)" for pk
    using that assms(5,6) by (simp add: l read_callback_def)
  obtain nd1 nd' tid where w: "startReadAsyncOperation (TCPClient_backend pipe_sys) clock t a (word_of_nat (length pattern))
      read_callback nd = Some (\<lparr>op_future = length (nd_promises nd), op_transaction_id = tid\<rparr>, nd1)"
    "network_poll nd1 = Some (Inr True, nd')" "attached nd'" "memory nd' = memory nd" "nd_user nd' = pattern"
    "nd_promises nd' = nd_promises nd @ [Some (Inr ())]" "settings nd' = settings nd"
    by (rule read_over_network [OF assms(1-3) small, where oc = read_callback and user = pattern and a = a])
      (use oc in auto)
  then have "read_pass (TCPClient_backend pipe_sys) clock (\<lambda>_. network_turn) t pattern a nd = Some (True, nd')"
    by (simp add: read_pass_def readAsync_def future_status_last network_turn_poll)
  then show thesis using w(3-5) by (intro that [of nd']) simp_all
qed

lemma read_passes_ok:
  assumes "target_ok t" "\<And>k. clock_ok (clock k)" "length pattern < 2 ^ 24"
    and "attached nd" "mem_fetch a (length pattern) (memory nd) = pattern" "length (nd_user nd) = length pattern"
  shows "\<exists>nd'. read_passes (\<lambda>iter. read_pass (TCPClient_backend pipe_sys) (clock iter) (\<lambda>_. network_turn) t pattern a)
    elapsed k iter xs nd = Some (Some (xs @ map elapsed [iter..<iter + k]), nd') \<and> attached nd'"
  using assms(4-6)
proof (induction k arbitrary: iter xs nd)
  case (Suc k)
  obtain nd1 where p: "read_pass (TCPClient_backend pipe_sys) (clock iter) (\<lambda>_. network_turn) t pattern a nd = Some (True, nd1)"
    "attached nd1" "memory nd1 = memory nd" "length (nd_user nd1) = length pattern"
    by (rule read_pass_ok [OF Suc.prems(1) assms(1,2,3) Suc.prems(2,3)])
  have "[iter..<iter + Suc k] = iter # [Suc iter..<Suc iter + k]" by (simp add: upt_rec)
  with p Suc.IH [of nd1 "Suc iter" "xs @ [elapsed iter]"] Suc.prems show ?case by simp
qed simp

lemma remote_write:
  assumes "attached st \<and> target_ok t \<and> (\<forall>off k. clock_ok (clock off k))" and "length d \<le> kChunkSize"
  shows "\<exists>st'. write_sync (TCPClient_backend pipe_sys) (clock off) (\<lambda>_ _. network_turn) t a d n st = Some (Inr (), st') \<and>
      (attached st' \<and> target_ok t \<and> (\<forall>off k. clock_ok (clock off k))) \<and> memory st' = mem_store a d (memory st)"
proof -
  have st: "attached st" "target_ok t" "\<And>k. clock_ok (clock off k)" "length d < 2 ^ 24"
    using assms by (simp_all add: kChunkSize_def)
  obtain st' where "write_sync (TCPClient_backend pipe_sys) (clock off) (\<lambda>_ _. network_turn) t a d n st = Some (Inr (), st')"
    "attached st'" "memory st' = mem_store a d (memory st)" "nd_user st' = nd_user st" by (rule write_memory [OF st])
  then show ?thesis using assms(1) by blast
qed

text \<open>The synchronous write over the network keeps the contract of a memory.\<close>

interpretation remote_memory: memory_device
  "\<lambda>off a d. write_sync (TCPClient_backend pipe_sys) (clock off) (\<lambda>_ _. network_turn) t a d n"
  "\<lambda>nd. attached nd \<and> target_ok t \<and> (\<forall>off k. clock_ok (clock off k))" memory for clock t n
  by unfold_locales (rule remote_write)

lemma write_pattern:
  assumes "attached nd" "target_ok t" "\<And>off k. clock_ok (clock off k)" "length pattern < 2 ^ 24"
  obtains nd' where "write_chunks (\<lambda>off a d. write_sync (TCPClient_backend pipe_sys) (clock off) (\<lambda>_ _. network_turn) t a d n)
      pattern base 0 nd = Some (Inr (), nd')" "attached nd'" "mem_fetch base (length pattern) (memory nd') = pattern"
proof -
  have "length pattern \<le> 2 ^ 32" "attached nd \<and> target_ok t \<and> (\<forall>off k. clock_ok (clock off k))"
    using assms by simp_all
  from remote_memory.write_chunks_stores [OF this, of n base 0] obtain nd' where
    w: "write_chunks (\<lambda>off a d. write_sync (TCPClient_backend pipe_sys) (clock off) (\<lambda>_ _. network_turn) t a d n)
      pattern base 0 nd = Some (Inr (), nd')" "attached nd'"
    "\<And>x. memory nd' x = mem_store base pattern (memory nd) x" by (auto simp: mem_store_def)
  have m: "memory nd' = mem_store base pattern (memory nd)" using w(3) by (rule ext)
  show thesis by (rule that [OF w(1,2)]) (use assms(4) in \<open>simp add: m mem_fetch_store\<close>)
qed

text \<open>C35. The speed test against a server that is a memory passes: whatever the random pattern is, with complete
  options, a range within the 32-bit address space and fewer than \<open>2 ^ 24\<close> bytes the program writes the
  pattern in chunks, reads it back as often as asked, finds it each time, prints the summary of exactly as many latencies
  and ends with exit code 0.\<close>

theorem speedtest_passes:
  assumes "fresh_loop w" and "\<And>off k. clock_ok (write_clock off k)" and "\<And>iter. clock_ok (read_clock iter)"
    and "speed_parseOptions argv = Inr opts"
    and "so_ntimes opts = Some ntimes" and "so_nbytes opts = Some total_bytes" and "so_start_address opts = Some base_address"
    and "ntimes \<le> DOUBLES_MAX_SIZE" and "total_bytes < 2 ^ 24" and "unat base_address + total_bytes \<le> 2 ^ 32"
    and "target_ok (TargetNodeDynamic kTargetLogicalAddress (so_target_address opts) (so_reply_address opts))"
  shows "\<exists>nd. speedtest_main pipe_sys F now write_clock (\<lambda>_ _ _. network_turn) read_clock (\<lambda>_ _. network_turn) random argv w =
    Some (0, speed_report F (map (latency F now) [0..<ntimes]), Some nd)"
proof -
  define pattern where "pattern = map random [0..<total_bytes]"
  have len: "length pattern < 2 ^ 24" "length pattern = total_bytes" using assms(9) by (simp_all add: pattern_def)
  obtain nd where c: "SpwRmapTCPClient_connect pipe_sys 1000000 (program_client (so_ip opts) (so_port opts) w) = Some (Inr (), nd)"
    "attached nd" "memory nd = nd_user (lp_server w)" by (rule loop_connects [OF assms(1)])
  obtain nd1 where wr: "write_chunks (\<lambda>off a d. write_sync (TCPClient_backend pipe_sys) (write_clock off) (\<lambda>_ _. network_turn)
      (TargetNodeDynamic kTargetLogicalAddress (so_target_address opts) (so_reply_address opts)) a d 3)
      pattern base_address 0 nd = Some (Inr (), nd1)"
    "attached nd1" "mem_fetch base_address (length pattern) (memory nd1) = pattern"
    by (rule write_pattern [OF c(2) assms(11,2) len(1)])
  have "attached (nd1\<lparr>nd_user := replicate total_bytes 0\<rparr>)"
    "mem_fetch base_address (length pattern) (memory (nd1\<lparr>nd_user := replicate total_bytes 0\<rparr>)) = pattern"
    "length (nd_user (nd1\<lparr>nd_user := replicate total_bytes 0\<rparr>)) = length pattern"
    using wr(2,3) len(2) by simp_all
  from read_passes_ok [where clock = read_clock, OF assms(11,3) len(1) this, of "latency F now" ntimes 0 "[]"] obtain nd2 where
    rd: "read_passes (\<lambda>iter. read_pass (TCPClient_backend pipe_sys) (read_clock iter) (\<lambda>_. network_turn)
      (TargetNodeDynamic kTargetLogicalAddress (so_target_address opts) (so_reply_address opts)) pattern base_address)
      (latency F now) ntimes 0 [] (nd1\<lparr>nd_user := replicate total_bytes 0\<rparr>) =
      Some (Some (map (latency F now) [0..<ntimes]), nd2)" "attached nd2" by auto
  obtain nd3 where "SpwRmapTCPClient_shutdown pipe_sys nd2 = Some (Inr (), nd3)" by (rule attached_shuts_down [OF rd(2)])
  moreover have "\<not> unat base_address + total_bytes > 2 ^ 32 - 1 + 1" "\<not> ntimes > DOUBLES_MAX_SIZE" using assms(8,10) by simp_all
  ultimately show ?thesis
    using assms(5-7) c(1) wr(1) rd(1)
    unfolding speedtest_main_def assms(4) sum.case program_client_def pattern_def by simp
qed

section \<open>Runs\<close>

definition counting_loop :: loop where
  "counting_loop = sample_loop\<lparr>pp_open := [], lp_server := sample_memory\<lparr>nd_user := \<lambda>x. ucast x\<rparr>\<rparr>"

lemma counting_loop_fresh: "fresh_loop counting_loop" "nd_user (lp_server counting_loop) = (\<lambda>x. ucast x)"
  using sample_memory_server(1) by (simp_all add: fresh_loop_def counting_loop_def sample_loop_def memory_server_def)

definition read_options :: Options where
  "read_options = default_options\<lparr>op_type := ''read'', op_target_address := [3], op_reply_address := [2],
     op_address := Some 0x44A2006C, op_length := Some 2\<rparr>"

lemma read_options_parse: "parseOptions (''spwrmap'' # command_line read_options) = Some read_options"
  by (rule parseOptions_command_line)
    (simp_all add: options_complete_def length_ok_def read_options_def default_options_def)

lemma read_options_no_help: "''--help'' \<notin> set (command_line read_options)"
  by (auto simp: command_line_def read_options_def default_options_def dec_not_help dec_not_help [symmetric])

lemma small_target: "target_ok (TargetNodeDynamic kTargetLogicalAddress [3] [2])"
  by (simp add: target_ok_def getTargetSpaceWireAddress_def getReplyAddress_def getTargetLogicalAddress_def
      kTargetLogicalAddress_def path_ok_def reply_ok_def)

lemma read_output: "fill_zeros 2 (hex (unat (0x6C :: u8))) = ''6c''" "fill_zeros 2 (hex (unat (0x6D :: u8))) = ''6d''"
  by (simp_all add: hex.simps hex_digit_def fill_zeros_def char_of_eq_iff)

theorem spwrmap_prints_memory_witness:
  "\<exists>nd. spwrmap_main pipe_sys (\<lambda>_ _. 0) (\<lambda>_ _. network_turn) (''spwrmap'' # command_line read_options) counting_loop =
     Some (0, ''Read 2 bytes from 0x44a2006c: 0x6c 0x6d'' @ newline, Some nd)"
proof -
  have o: "op_type read_options = ''read''" "op_address read_options = Some 0x44A2006C" "op_length read_options = Some 2"
    by (simp_all add: read_options_def)
  have t: "target_ok (TargetNodeDynamic kTargetLogicalAddress (op_target_address read_options) (op_reply_address read_options))"
    using small_target by (simp add: read_options_def)
  have n: "(2 :: nat) < 2 ^ 24" "''--help'' \<notin> set (tl (''spwrmap'' # command_line read_options))"
    using read_options_no_help by simp_all
  have m: "mem_fetch 0x44A2006C 2 (nd_user (lp_server counting_loop)) = [0x6C, 0x6D]"
    by (simp add: mem_fetch_def counting_loop_fresh(2) upt_rec)
  have a: "fill_zeros 8 (hex (unat (0x44A2006C :: u32))) = ''44a2006c''" using sample_output(2) by simp
  from spwrmap_prints_memory [where clock = "\<lambda>_ _. 0", OF counting_loop_fresh(1) zero_clock read_options_parse n(2) o n(1) t]
  show ?thesis unfolding m a sample_output(1) list.map read_output concat.simps append.simps .
qed

definition speed_argv :: "string list" where
  "speed_argv = [''speedtest'', ''--target-address'', dec 3, ''--reply-address'', dec 2, ''--ntimes'', dec 5,
     ''--nbytes'', dec 3000, ''--start_address'', dec 0x1000]"

definition speed_options :: Speed_Options where
  "speed_options = default_speed_options\<lparr>so_target_address := [3], so_reply_address := [2], so_ntimes := Some 5,
     so_nbytes := Some 3000, so_start_address := Some 0x1000\<rparr>"

lemma speed_argv_parse: "speed_parseOptions speed_argv = Inr speed_options"
proof -
  have b: "byte_sequence False (dec 3 # ''--reply-address'' # rest) dst = Some (''--reply-address'' # rest, dst @ [3])"
    "byte_sequence False (dec 2 # ''--ntimes'' # rest) dst = Some (''--ntimes'' # rest, dst @ [2])" for rest dst
    using byte_sequence_dec [of "''--reply-address'' # rest" False "[3]" dst]
      byte_sequence_dec [of "''--ntimes'' # rest" False "[2]" dst] by (simp_all add: dec_not_option)
  show ?thesis
    by (simp add: speed_argv_def speed_options_def speed_parseOptions_def speed_option_step_def exit_on_error_def
        parseByteSequence_def b dec_not_option takeValue_def parseUnsigned_dec default_speed_options_def speed_options_complete_def)
qed

theorem speedtest_passes_witness:
  "\<exists>nd. speedtest_main pipe_sys exact_ops int (\<lambda>_ _ _. 0) (\<lambda>_ _ _. network_turn) (\<lambda>_ _. 0) (\<lambda>_ _. network_turn) (\<lambda>k. word_of_nat k)
     speed_argv counting_loop = Some (0, speed_report exact_ops (map (latency exact_ops int) [0..<5]), Some nd)"
  by (rule speedtest_passes [OF counting_loop_fresh(1) zero_clock zero_clock speed_argv_parse,
      where ntimes = 5 and total_bytes = 3000 and base_address = "0x1000"])
    (use small_target in \<open>simp_all add: speed_options_def DOUBLES_MAX_SIZE_def\<close>)

end
