(* ===== verification/Py_Node.thy ===== *)
theory Py_Node
  imports App_Loop
begin

text \<open>
  The class \<open>PySpwRmapTCPNode\<close> of the Python bindings, \<open>bindings/python/src/pyspw_rmap.cc\<close>: a client node with a
  background thread that runs \<open>runLoop\<close>, two flags and the error that the thread has left. Thread and
  caller are interleaved: an operation lets the other thread and the operating system act between its accesses to the
  shared state. A pass of the loop in \<open>runLoop\<close> is one step. Calls from Python are not interleaved with each other: they hold the
  lock of the interpreter until they return.
\<close>

unbundle bit_operations_syntax

section \<open>State\<close>

record PyTargetNode =
  pt_logical_address :: u32
  pt_target_spacewire_address :: bytes
  pt_reply_address :: bytes

text \<open>
  The background thread: not there (never started, or joined), at the beginning of its function, in the
  loop of \<open>runLoop\<close>, with the result of \<open>runLoop\<close>, before each of the two last stores, and at its end.
\<close>

datatype loop_thread =
    No_thread | Starting | Polling | Failing error_code | Returning | Clearing | Disconnecting | Exited

text \<open>
  The state of the user that callbacks change are the vectors \<open>data\<close> of all calls of \<open>read\<close>; a vector
  that has been destroyed is \<open>None\<close>.
\<close>

record 'w py_node =
  py_node :: "('w tcp_client, bytes option list) node"
  py_thread :: loop_thread
  py_thread_error :: "error_code option"
  py_running :: bool
  py_connected :: bool

datatype py_exception = Already_running | System_error error_code | Future_error

definition PySpwRmapTCPNode :: "'w \<Rightarrow> string \<Rightarrow> string \<Rightarrow> 'w py_node" where
  "PySpwRmapTCPNode w ip_address port = \<lparr>
     py_node = SpwRmapTCPNodeImpl (TCPClient w) ((default_config ip_address port)
       \<lparr>cf_send_buffer_size := 4096, cf_recv_buffer_size := 4096, cf_buffer_policy := AutoResize\<rparr>) [],
     py_thread = No_thread, py_thread_error = None, py_running = False, py_connected = False\<rparr>"

section \<open>The thread\<close>

text \<open>One step of the thread that \<open>start\<close> makes: a pass of the loop in \<open>runLoop\<close>, or one store.\<close>

definition thread_step :: "'w sys \<Rightarrow> 'w py_node \<Rightarrow> 'w py_node option" where
  "thread_step S s = (case py_thread s of
       No_thread \<Rightarrow> Some s
     | Starting \<Rightarrow> Some (s\<lparr>py_node := (py_node s)\<lparr>nd_running := True\<rparr>, py_thread := Polling\<rparr>)
     | Polling \<Rightarrow>
         if \<not> nd_running (py_node s) then Some (s\<lparr>py_thread := Returning\<rparr>)
         else do {
           (res, nd) \<leftarrow> poll (TCPClient_backend S) (SpwRmapTCPClient_methods S) (py_node s);
           Some (s\<lparr>py_node := nd, py_thread := (case res of
               Inl e \<Rightarrow> Failing e
             | Inr go_on \<Rightarrow> if \<not> go_on then Returning else Polling)\<rparr>)
         }
     | Failing e \<Rightarrow> Some (s\<lparr>py_thread_error := Some e, py_thread := Clearing\<rparr>)
     | Returning \<Rightarrow> Some (s\<lparr>py_thread := Clearing\<rparr>)
     | Clearing \<Rightarrow> Some (s\<lparr>py_running := False, py_thread := Disconnecting\<rparr>)
     | Disconnecting \<Rightarrow> Some (s\<lparr>py_connected := False, py_thread := Exited\<rparr>)
     | Exited \<Rightarrow> Some s)"

fun thread_steps :: "'w sys \<Rightarrow> nat \<Rightarrow> 'w py_node \<Rightarrow> 'w py_node option" where
  "thread_steps S 0 s = Some s"
| "thread_steps S (Suc n) s = do { s \<leftarrow> thread_step S s; thread_steps S n s }"

section \<open>Operations\<close>

text \<open>
  The operations run in the thread of the caller. Between two accesses to the shared state the other thread and the operating
  system go on: \<open>env k\<close> is what they do at the \<open>k\<close>-th such place of an operation. Joining a thread that does not
  finish in that time does not return.
\<close>

definition joinThread :: "('w py_node \<Rightarrow> 'w py_node option) \<Rightarrow> 'w py_node \<Rightarrow> 'w py_node option" where
  "joinThread env s =
    (if py_thread s = No_thread then Some s
     else do {
       s \<leftarrow> env s;
       if py_thread s = Exited then Some (s\<lparr>py_thread := No_thread\<rparr>) else None
     })"

definition rethrowThreadError :: "'w py_node \<Rightarrow> (py_exception + unit) \<times> 'w py_node" where
  "rethrowThreadError s =
    (case py_thread_error s of None \<Rightarrow> Inr () | Some e \<Rightarrow> Inl (System_error e), s\<lparr>py_thread_error := None\<rparr>)"

definition checkThreadError :: "'w py_node \<Rightarrow> py_exception + unit" where
  "checkThreadError s = (case py_thread_error s of None \<Rightarrow> Inr () | Some e \<Rightarrow> Inl (System_error e))"

text \<open>Assigning a new thread to \<open>thread_\<close> while it is joinable ends the program.\<close>

definition start_thread :: "'w py_node \<Rightarrow> 'w py_node option" where
  "start_thread s = (if py_thread s = No_thread then Some (s\<lparr>py_thread := Starting\<rparr>) else None)"

definition py_start ::
    "'w sys \<Rightarrow> (nat \<Rightarrow> 'w py_node \<Rightarrow> 'w py_node option) \<Rightarrow> 'w py_node \<Rightarrow> ((py_exception + unit) \<times> 'w py_node) option" where
  "py_start S env s = do {
     s \<leftarrow> env 0 s;
     if py_running s then Some (Inl Already_running, s)
     else do {
       (res, s) \<leftarrow> (if py_thread s \<noteq> No_thread
          then do { s \<leftarrow> joinThread (env 1) s; Some (rethrowThreadError s) }
          else Some (Inr (), s));
       case res of
         Inl e \<Rightarrow> Some (Inl e, s)
       | Inr _ \<Rightarrow> do {
           (res, nd) \<leftarrow> SpwRmapTCPClient_connect S 5000000 (py_node s);
           let s = s\<lparr>py_node := nd\<rparr>;
           case res of
             Inl e \<Rightarrow> Some (Inl (System_error e), s)
           | Inr _ \<Rightarrow> do {
               let s = s\<lparr>py_connected := True, py_running := True, py_thread_error := None\<rparr>;
               s \<leftarrow> start_thread s;
               Some (Inr (), s)
             }
         }
     }
   }"

text \<open>The part of \<open>stop\<close> that shuts the node down, if it is connected.\<close>

definition stop_node ::
    "'w sys \<Rightarrow> (nat \<Rightarrow> 'w py_node \<Rightarrow> 'w py_node option) \<Rightarrow> 'w py_node \<Rightarrow> ((error_code + unit) \<times> 'w py_node) option" where
  "stop_node S env s =
    (if py_connected s
     then do {
       (res, nd) \<leftarrow> SpwRmapTCPClient_shutdown S (py_node s);
       s \<leftarrow> env 4 (s\<lparr>py_node := nd\<rparr>);
       s \<leftarrow> env 5 (s\<lparr>py_connected := False\<rparr>);
       Some (res, s\<lparr>py_running := False\<rparr>)
     }
     else Some (Inr (), s\<lparr>py_running := False\<rparr>))"

definition stop_result :: "py_exception + unit \<Rightarrow> error_code + unit \<Rightarrow> py_exception + unit" where
  "stop_result thrown res = (case thrown of
       Inl e \<Rightarrow> Inl e
     | Inr _ \<Rightarrow> (case res of Inl e \<Rightarrow> Inl (System_error e) | Inr _ \<Rightarrow> Inr ()))"

definition py_stop ::
    "'w sys \<Rightarrow> (nat \<Rightarrow> 'w py_node \<Rightarrow> 'w py_node option) \<Rightarrow> 'w py_node \<Rightarrow> ((py_exception + unit) \<times> 'w py_node) option" where
  "py_stop S env s = do {
     s \<leftarrow> env 0 s;
     let running = py_running s;
     s \<leftarrow> env 1 s;
     if \<not> running \<and> \<not> py_connected s then do {
       s \<leftarrow> joinThread (env 2) s;
       Some (rethrowThreadError s)
     }
     else do {
       s \<leftarrow> env 3 s;
       (res, s) \<leftarrow> stop_node S env s;
       s \<leftarrow> joinThread (env 6) s;
       let (thrown, s) = rethrowThreadError s;
       Some (stop_result thrown res, s)
     }
   }"

definition py_destroy ::
    "'w sys \<Rightarrow> (nat \<Rightarrow> 'w py_node \<Rightarrow> 'w py_node option) \<Rightarrow> 'w py_node \<Rightarrow> 'w py_node option" where
  "py_destroy S env s = do {
     (_, s) \<leftarrow> py_stop S env s;
     joinThread (env 7) s
   }"

definition py_target :: "PyTargetNode \<Rightarrow> target_node" where
  "py_target t = TargetNodeDynamic (ucast (pt_logical_address t)) (pt_target_spacewire_address t) (pt_reply_address t)"

text \<open>
  The callback of \<open>read\<close> refers to the vector \<open>data\<close> of the call; that vector number \<open>i\<close> must still be there.
\<close>

definition py_copy :: "nat \<Rightarrow> nat \<Rightarrow> bytes option list completion" where
  "py_copy i n packet buffers = do {
     bytes \<leftarrow> span_first (pk_data packet) n;
     buffer \<leftarrow> span_at buffers i;
     case buffer of
       None \<Rightarrow> None
     | Some _ \<Rightarrow> Some (Returns (), buffers[i := Some bytes])
   }"

text \<open>What \<open>future.wait_for(1s)\<close> and \<open>future.get()\<close> make of the future as it is after the wait.\<close>

definition py_future :: "future_state \<Rightarrow> py_exception + unit" where
  "py_future status = (case status of
       Future_pending \<Rightarrow> Inl (System_error (Generic timed_out))
     | Future_broken \<Rightarrow> Inl Future_error
     | Future_ready res \<Rightarrow> (case res of Inl e \<Rightarrow> Inl (System_error e) | Inr _ \<Rightarrow> Inr ()))"

definition py_read ::
    "'w sys \<Rightarrow> (nat \<Rightarrow> int) \<Rightarrow> (nat \<Rightarrow> 'w py_node \<Rightarrow> 'w py_node option) \<Rightarrow> PyTargetNode \<Rightarrow> u32 \<Rightarrow> u32 \<Rightarrow> 'w py_node \<Rightarrow>
     ((py_exception + bytes) \<times> 'w py_node) option" where
  "py_read S clock env target_node memory_address data_length s = do {
     s \<leftarrow> env 0 s;
     case checkThreadError s of
       Inl e \<Rightarrow> Some (Inl e, s)
     | Inr _ \<Rightarrow> do {
         let n = unat data_length;
         let i = length (nd_user (py_node s));
         let nd = (py_node s)\<lparr>nd_user := nd_user (py_node s) @ [Some (replicate n 0)]\<rparr>;
         (future, nd) \<leftarrow> readAsync (TCPClient_backend S) clock (py_target target_node) memory_address
           (word_of_nat n) (py_copy i n) nd;
         s \<leftarrow> env 1 (s\<lparr>py_node := nd\<rparr>);
         status \<leftarrow> future_status future (py_node s);
         data \<leftarrow> span_at (nd_user (py_node s)) i;
         data \<leftarrow> data;
         let s = s\<lparr>py_node := (py_node s)\<lparr>nd_user := (nd_user (py_node s))[i := None]\<rparr>\<rparr>;
         Some (case py_future status of Inl e \<Rightarrow> Inl e | Inr _ \<Rightarrow> Inr data, s)
       }
   }"

definition py_write ::
    "'w sys \<Rightarrow> (nat \<Rightarrow> int) \<Rightarrow> (nat \<Rightarrow> 'w py_node \<Rightarrow> 'w py_node option) \<Rightarrow> PyTargetNode \<Rightarrow> u32 \<Rightarrow> bytes \<Rightarrow> 'w py_node \<Rightarrow>
     ((py_exception + unit) \<times> 'w py_node) option" where
  "py_write S clock env target_node memory_address data s = do {
     s \<leftarrow> env 0 s;
     case checkThreadError s of
       Inl e \<Rightarrow> Some (Inl e, s)
     | Inr _ \<Rightarrow> do {
         (future, nd) \<leftarrow> writeAsync (TCPClient_backend S) clock (py_target target_node) memory_address data
           (\<lambda>packet user. Some (Returns (), user)) (py_node s);
         s \<leftarrow> env 1 (s\<lparr>py_node := nd\<rparr>);
         status \<leftarrow> future_status future (py_node s);
         Some (py_future status, s)
       }
   }"

section \<open>What happens meanwhile\<close>

inductive meanwhile :: "'w sys \<Rightarrow> 'w py_node \<Rightarrow> 'w py_node \<Rightarrow> bool" for S where
  meanwhile_thread: "thread_step S s = Some s' \<Longrightarrow> meanwhile S s s'"
| meanwhile_world: "nd_tcp_backend (py_node s) = Some c \<Longrightarrow>
    meanwhile S s (s\<lparr>py_node := (py_node s)\<lparr>nd_tcp_backend := Some (c\<lparr>tc_sys := w\<rparr>)\<rparr>\<rparr>)"

definition env_ok :: "'w sys \<Rightarrow> (nat \<Rightarrow> 'w py_node \<Rightarrow> 'w py_node option) \<Rightarrow> bool" where
  "env_ok S env \<longleftrightarrow> (\<forall>k s s'. env k s = Some s' \<longrightarrow> (meanwhile S)\<^sup>*\<^sup>* s s')"

inductive_cases meanwhileE: "meanwhile S s s'"

section \<open>Consistency\<close>

text \<open>Which values the flags have by the position of the thread, and where it may have left an error.\<close>

fun loop_runs :: "loop_thread \<Rightarrow> bool" where
  "loop_runs No_thread = False"
| "loop_runs Disconnecting = False"
| "loop_runs Exited = False"
| "loop_runs _ = True"

fun loop_ended :: "loop_thread \<Rightarrow> bool" where
  "loop_ended Clearing = True"
| "loop_ended Disconnecting = True"
| "loop_ended Exited = True"
| "loop_ended _ = False"

definition consistent :: "'w py_node \<Rightarrow> bool" where
  "consistent s \<longleftrightarrow> py_running s = loop_runs (py_thread s) \<and>
     py_connected s = (loop_runs (py_thread s) \<or> py_thread s = Disconnecting) \<and>
     (py_thread_error s \<noteq> None \<longrightarrow> loop_ended (py_thread s)) \<and> node_inv (py_node s)"

text \<open>What every step of the thread and the world respects.\<close>

definition calmer :: "'w py_node \<Rightarrow> 'w py_node \<Rightarrow> bool" where
  "calmer s s' \<longleftrightarrow> (py_running s' \<longrightarrow> py_running s) \<and> (py_connected s' \<longrightarrow> py_connected s) \<and>
     (py_thread s' = No_thread) = (py_thread s = No_thread) \<and> safe_step (py_node s) (py_node s')"

lemma calmer_trans: "calmer a b \<Longrightarrow> calmer b c \<Longrightarrow> calmer a c"
  unfolding calmer_def by (blast intro: safe_step_trans)

lemma calmer_refl [simp]: "calmer s s"
  by (simp add: calmer_def)

lemma safe_step_poll_client:
  "poll (TCPClient_backend S) (SpwRmapTCPClient_methods S) nd = Some (r, nd') \<Longrightarrow> safe_step nd nd'"
  by (rule client_node.safe_step_poll)

lemma thread_step_calmer: "thread_step S s = Some s' \<Longrightarrow> calmer s s'"
  by (auto simp: thread_step_def calmer_def elim!: bind_SomeE intro: safe_step_poll_client
      split: loop_thread.split_asm if_split_asm sum.split_asm)

lemma thread_step_consistent: "thread_step S s = Some s' \<Longrightarrow> consistent s \<Longrightarrow> consistent s'"
  using thread_step_calmer [of S s s']
  by (auto simp: thread_step_def consistent_def calmer_def safe_step_def elim!: bind_SomeE
      split: loop_thread.split_asm if_split_asm sum.split)

lemma meanwhile_calmer: "(meanwhile S)\<^sup>*\<^sup>* s s' \<Longrightarrow> calmer s s'"
proof (induction rule: rtranclp_induct)
  case (step s' s'')
  from step.hyps(2) have "calmer s' s''"
  proof cases
    case meanwhile_thread
    then show ?thesis by (rule thread_step_calmer)
  qed (auto simp: calmer_def)
  with step.IH show ?case by (rule calmer_trans)
qed simp

lemma world_consistent:
  "consistent s \<Longrightarrow> consistent (s\<lparr>py_node := (py_node s)\<lparr>nd_tcp_backend := b\<rparr>\<rparr>)"
  using node_inv_table [of "(py_node s)\<lparr>nd_tcp_backend := b\<rparr>" "py_node s"] by (simp add: consistent_def)

lemma meanwhile_consistent: "(meanwhile S)\<^sup>*\<^sup>* s s' \<Longrightarrow> consistent s \<Longrightarrow> consistent s'"
proof (induction rule: rtranclp_induct)
  case (step s' s'')
  from step.hyps(2) show ?case
    by cases (use step in \<open>auto intro: thread_step_consistent world_consistent\<close>)
qed

lemma env_calmer: "env_ok S env \<Longrightarrow> env k s = Some s' \<Longrightarrow> calmer s s'"
  by (auto simp: env_ok_def intro: meanwhile_calmer)

lemma env_consistent: "env_ok S env \<Longrightarrow> env k s = Some s' \<Longrightarrow> consistent s \<Longrightarrow> consistent s'"
  by (auto simp: env_ok_def intro: meanwhile_consistent)

text \<open>Nothing runs, nothing is left over.\<close>

definition stopped :: "'w py_node \<Rightarrow> bool" where
  "stopped s \<longleftrightarrow> py_thread s = No_thread \<and> \<not> py_running s \<and> \<not> py_connected s \<and> py_thread_error s = None"

lemma stopped_consistent: "stopped s \<Longrightarrow> node_inv (py_node s) \<Longrightarrow> consistent s"
  by (simp add: stopped_def consistent_def)

lemma join_result:
  assumes "env_ok S env" "joinThread (env k) s = Some s'"
  shows "py_thread s' = No_thread \<and> (py_running s' \<longrightarrow> py_running s) \<and> (py_connected s' \<longrightarrow> py_connected s) \<and>
    safe_step (py_node s) (py_node s')"
  using assms env_calmer [OF assms(1), of k s]
  by (auto simp: joinThread_def calmer_def elim!: bind_SomeE split: if_split_asm)

lemma join_consistent:
  assumes "env_ok S env" "joinThread (env k) s = Some s'" "consistent s"
  shows "\<not> py_running s' \<and> \<not> py_connected s'"
  using assms env_consistent [OF assms(1), of k s]
  by (auto simp: joinThread_def consistent_def elim!: bind_SomeE split: if_split_asm)

lemma rethrow_stopped:
  "py_thread s = No_thread \<Longrightarrow> \<not> py_running s \<Longrightarrow> \<not> py_connected s \<Longrightarrow> rethrowThreadError s = (r, s') \<Longrightarrow>
   stopped s' \<and> py_node s' = py_node s"
  by (auto simp: rethrowThreadError_def stopped_def)

lemma on_backend_safe: "on_backend f nd = Some (r, nd') \<Longrightarrow> safe_step nd nd'"
  by (rule safe_step_table) (rule on_backend_table)

lemma connect_table: "SpwRmapTCPClient_connect S t nd = Some (r, nd') \<Longrightarrow> table nd' = table nd"
  by (auto simp: SpwRmapTCPClient_connect_def Let_def elim!: bind_SomeE dest!: on_backend_table client_disconnect_table
      split: sum.split_asm)

lemma shutdown_client_table: "SpwRmapTCPClient_shutdown S nd = Some (r, nd') \<Longrightarrow> table nd' = table nd"
  using client_node.shutdown_table [of S nd r nd'] by (simp add: SpwRmapTCPClient_methods_def)

lemma stop_node_result:
  assumes env: "env_ok S env" and stop: "stop_node S env s = Some (res, s')"
  shows "\<not> py_running s' \<and> \<not> py_connected s' \<and> safe_step (py_node s) (py_node s')"
proof (cases "py_connected s")
  case True
  with stop obtain nd sa sb where x: "SpwRmapTCPClient_shutdown S (py_node s) = Some (res, nd)"
    "env 4 (s\<lparr>py_node := nd\<rparr>) = Some sa" "env 5 (sa\<lparr>py_connected := False\<rparr>) = Some sb"
    "s' = sb\<lparr>py_running := False\<rparr>" by (auto simp: stop_node_def elim!: bind_SomeE)
  have "safe_step (py_node s) nd" using shutdown_client_table [OF x(1)] by (rule safe_step_table)
  moreover have "safe_step nd (py_node sa)" using env_calmer [OF env x(2)] by (simp add: calmer_def)
  moreover have "safe_step (py_node sa) (py_node sb)" "\<not> py_connected sb"
    using env_calmer [OF env x(3)] by (simp_all add: calmer_def)
  ultimately have "safe_step (py_node s) (py_node sb)" by (blast intro: safe_step_trans)
  then show ?thesis using x(4) \<open>\<not> py_connected sb\<close> by simp
qed (use stop in \<open>auto simp: stop_node_def\<close>)

lemma py_stop_stopped:
  assumes env: "env_ok S env" and stop: "py_stop S env s = Some (r, s')"
  shows "stopped s' \<and> safe_step (py_node s) (py_node s')"
proof -
  from stop obtain s0 where e0: "env 0 s = Some s0" unfolding py_stop_def by (rule bind_SomeE) blast
  from stop [unfolded py_stop_def e0] obtain s1 where e1: "env 1 s0 = Some s1"
    by (cases "env 1 s0") simp_all
  note e = e0 e1
  have c: "calmer s s1" using e env_calmer [OF env] calmer_trans by blast
  show ?thesis
  proof (cases "\<not> py_running s0 \<and> \<not> py_connected s1")
    case True
    with stop e obtain s2 where s2: "joinThread (env 2) s1 = Some s2" "rethrowThreadError s2 = (r, s')"
      by (simp add: py_stop_def) (erule bind_SomeE, simp)
    have "\<not> py_running s1" using True env_calmer [OF env e(2)] by (auto simp: calmer_def)
    with join_result [OF env s2(1)] True rethrow_stopped [OF _ _ _ s2(2)] c show ?thesis
      by (auto simp: calmer_def intro: safe_step_trans)
  next
    case False
    define rest where "rest = do {
       s \<leftarrow> env 3 s1;
       (res, s) \<leftarrow> stop_node S env s;
       s \<leftarrow> joinThread (env 6) s;
       let (thrown, s) = rethrowThreadError s;
       Some (stop_result thrown res, s)
     }"
    from stop e False have "rest = Some (r, s')" by (auto simp: py_stop_def rest_def)
    then obtain s2 res s3 s4 where s2: "env 3 s1 = Some s2" and s3: "stop_node S env s2 = Some (res, s3)"
      and s4: "joinThread (env 6) s3 = Some s4" and s': "s' = snd (rethrowThreadError s4)"
      unfolding rest_def by (elim bind_SomeE) (auto simp: split: prod.split_asm elim!: bind_SomeE)
    have c2: "calmer s s2" using c env_calmer [OF env s2] calmer_trans by blast
    note c3 = stop_node_result [OF env s3]
    have "stopped s' \<and> py_node s' = py_node s4"
      using rethrow_stopped [of s4 "fst (rethrowThreadError s4)" s'] join_result [OF env s4] c3
      by (auto simp: s')
    with c2 c3 join_result [OF env s4] show ?thesis by (auto simp: calmer_def intro: safe_step_trans)
  qed
qed

lemma consistent_node:
  assumes "consistent s" "safe_step (py_node s) nd"
  shows "consistent (s\<lparr>py_node := nd\<rparr>)"
  using assms by (simp add: consistent_def safe_step_def)

lemma py_stop_consistent:
  assumes "env_ok S env" "py_stop S env s = Some (r, s')" "consistent s"
  shows "consistent s'"
  using py_stop_stopped [OF assms(1,2)] assms(3)
  by (auto intro!: stopped_consistent simp: consistent_def [of s] safe_step_def)

text \<open>Where \<open>start\<close> gets to: no thread, and all that is left of an earlier one has been reported.\<close>

lemma start_joined:
  assumes env: "env_ok S env" and s: "consistent s" "\<not> py_running s"
    and j: "(if py_thread s \<noteq> No_thread then do { s \<leftarrow> joinThread (env k) s; Some (rethrowThreadError s) }
       else Some (Inr (), s)) = Some (r, s')"
  shows "stopped s' \<and> safe_step (py_node s) (py_node s')"
proof (cases "py_thread s = No_thread")
  case True
  then show ?thesis using j s by (auto simp: stopped_def consistent_def)
next
  case False
  with j obtain s1 where s1: "joinThread (env k) s = Some s1" "rethrowThreadError s1 = (r, s')"
    by (auto elim!: bind_SomeE)
  have "py_thread s1 = No_thread" "safe_step (py_node s) (py_node s1)" "\<not> py_running s1" "\<not> py_connected s1"
    using join_result [OF env s1(1)] join_consistent [OF env s1(1) s(1)] by simp_all
  then show ?thesis using rethrow_stopped [OF _ _ _ s1(2)] by simp
qed

lemma py_start_consistent:
  assumes env: "env_ok S env" and start: "py_start S env s = Some (r, s')" and s: "consistent s"
  shows "consistent s' \<and> (r = Inr () \<longrightarrow> py_thread s' = Starting)"
proof -
  from start obtain s0 where e0: "env 0 s = Some s0" unfolding py_start_def by (rule bind_SomeE) blast
  have s0: "consistent s0" by (rule env_consistent [OF env e0 s])
  show ?thesis
  proof (cases "py_running s0")
    case True
    then show ?thesis using start e0 s0 by (auto simp: py_start_def)
  next
    case False
    with start e0 obtain res s1 where j: "(if py_thread s0 \<noteq> No_thread
          then do { s \<leftarrow> joinThread (env 1) s0; Some (rethrowThreadError s) } else Some (Inr (), s0)) = Some (res, s1)"
      and rest: "(case res of
         Inl e \<Rightarrow> Some (Inl e, s1)
       | Inr _ \<Rightarrow> do {
           (res, nd) \<leftarrow> SpwRmapTCPClient_connect S 5000000 (py_node s1);
           let s = s1\<lparr>py_node := nd\<rparr>;
           case res of
             Inl e \<Rightarrow> Some (Inl (System_error e), s)
           | Inr _ \<Rightarrow> do {
               let s = s\<lparr>py_connected := True, py_running := True, py_thread_error := None\<rparr>;
               s \<leftarrow> start_thread s;
               Some (Inr (), s)
             }
         }) = Some (r, s')"
      unfolding py_start_def by (simp only: Option.bind.bind_lunit if_False) (erule bind_SomeE, auto)
    have st: "stopped s1" "safe_step (py_node s0) (py_node s1)" using start_joined [OF env s0 False j] by simp_all
    then have c1: "consistent s1" using s0 by (intro stopped_consistent) (auto simp: consistent_def safe_step_def)
    show ?thesis
    proof (cases res)
      case (Inr u)
      with rest obtain res' nd where c: "SpwRmapTCPClient_connect S 5000000 (py_node s1) = Some (res', nd)"
        by (auto elim!: bind_SomeE)
      have "consistent (s1\<lparr>py_node := nd\<rparr>)"
        by (rule consistent_node [OF c1 safe_step_table [OF connect_table [OF c]]])
      then show ?thesis using rest Inr c st(1)
        by (cases res') (auto simp: start_thread_def stopped_def consistent_def Let_def)
    qed (use rest c1 in auto)
  qed
qed

lemma safe_step_readAsync:
  "readAsync B clock t a l oc nd = Some (future, nd') \<Longrightarrow> clock_ok clock \<Longrightarrow> safe_step nd nd'"
  by (auto simp: readAsync_def startReadAsyncOperation_def elim!: bind_SomeE intro: safe_step_start senders_keep_core)

lemma safe_step_writeAsync:
  "writeAsync B clock t a data oc nd = Some (future, nd') \<Longrightarrow> clock_ok clock \<Longrightarrow> safe_step nd nd'"
  by (auto simp: writeAsync_def startWriteAsyncOperation_def elim!: bind_SomeE intro: safe_step_start senders_keep_core)

lemma py_write_cases:
  assumes "py_write S clock env t a data s = Some (r, s')"
  obtains s0 where "env 0 s = Some s0" "s' = s0" "py_thread_error s0 \<noteq> None"
  | s0 future nd s1 where "env 0 s = Some s0"
      "writeAsync (TCPClient_backend S) clock (py_target t) a data (\<lambda>packet user. Some (Returns (), user)) (py_node s0) = Some (future, nd)"
      "env 1 (s0\<lparr>py_node := nd\<rparr>) = Some s1" "s' = s1"
  using assms unfolding py_write_def checkThreadError_def
  by (elim bind_SomeE) (auto split: option.split_asm elim!: bind_SomeE)

lemma py_read_cases:
  assumes "py_read S clock env t a l s = Some (r, s')"
  obtains s0 where "env 0 s = Some s0" "s' = s0" "py_thread_error s0 \<noteq> None"
  | s0 oc u future nd s1 u' where "env 0 s = Some s0"
      "readAsync (TCPClient_backend S) clock (py_target t) a l oc ((py_node s0)\<lparr>nd_user := u\<rparr>) = Some (future, nd)"
      "env 1 (s0\<lparr>py_node := nd\<rparr>) = Some s1" "s' = s1\<lparr>py_node := (py_node s1)\<lparr>nd_user := u'\<rparr>\<rparr>"
  using assms unfolding py_read_def checkThreadError_def Let_def
  by (elim bind_SomeE) (auto split: option.split_asm elim!: bind_SomeE)

lemma consistent_user: "consistent s \<Longrightarrow> consistent (s\<lparr>py_node := (py_node s)\<lparr>nd_user := u\<rparr>\<rparr>)"
  by (erule consistent_node) (rule safe_step_table, simp)

lemma py_write_consistent:
  assumes env: "env_ok S env" and clock: "clock_ok clock" and w: "py_write S clock env t a data s = Some (r, s')"
    and s: "consistent s"
  shows "consistent s'"
  using w
proof (cases rule: py_write_cases)
  case (2 s0 future nd s1)
  have "consistent (s0\<lparr>py_node := nd\<rparr>)"
    by (rule consistent_node [OF env_consistent [OF env 2(1) s] safe_step_writeAsync [OF 2(2) clock]])
  then show ?thesis using env_consistent [OF env 2(3)] 2(4) by simp
qed (use env_consistent [OF env _ s] in auto)

lemma py_read_consistent:
  assumes env: "env_ok S env" and clock: "clock_ok clock" and r: "py_read S clock env t a l s = Some (r, s')"
    and s: "consistent s"
  shows "consistent s'"
  using r
proof (cases rule: py_read_cases)
  case (2 s0 oc u future nd s1 u')
  have "safe_step (py_node s0) ((py_node s0)\<lparr>nd_user := u\<rparr>)" by (rule safe_step_table) simp
  then have "safe_step (py_node s0) nd" using safe_step_readAsync [OF 2(2) clock] by (rule safe_step_trans)
  then have "consistent (s0\<lparr>py_node := nd\<rparr>)" by (rule consistent_node [OF env_consistent [OF env 2(1) s]])
  then show ?thesis using env_consistent [OF env 2(3)] consistent_user 2(4) by blast
qed (use env_consistent [OF env _ s] in auto)

text \<open>Everything a program can do with the object, and what happens between its calls.\<close>

inductive py_op :: "'w sys \<Rightarrow> 'w py_node \<Rightarrow> 'w py_node \<Rightarrow> bool" for S where
  op_start: "py_start S env s = Some (r, s') \<Longrightarrow> env_ok S env \<Longrightarrow> py_op S s s'"
| op_stop: "py_stop S env s = Some (r, s') \<Longrightarrow> env_ok S env \<Longrightarrow> py_op S s s'"
| op_read: "py_read S clock env t a l s = Some (res, s') \<Longrightarrow> clock_ok clock \<Longrightarrow> env_ok S env \<Longrightarrow> py_op S s s'"
| op_write: "py_write S clock env t a data s = Some (r, s') \<Longrightarrow> clock_ok clock \<Longrightarrow> env_ok S env \<Longrightarrow> py_op S s s'"
| op_between: "meanwhile S s s' \<Longrightarrow> py_op S s s'"

lemma py_op_consistent: "py_op S s s' \<Longrightarrow> consistent s \<Longrightarrow> consistent s'"
  by (induction rule: py_op.induct)
    (blast intro: py_start_consistent [THEN conjunct1] py_stop_consistent py_read_consistent py_write_consistent
      meanwhile_consistent r_into_rtranclp)+

lemma py_constructor: "stopped (PySpwRmapTCPNode w ip port)" "node_inv (py_node (PySpwRmapTCPNode w ip port))"
proof -
  show "node_inv (py_node (PySpwRmapTCPNode w ip port))"
    unfolding PySpwRmapTCPNode_def py_node.simps by (rule new_node_inv) (simp add: default_config_def)
qed (simp add: stopped_def PySpwRmapTCPNode_def)

lemma reachable_consistent: "(py_op S)\<^sup>*\<^sup>* (PySpwRmapTCPNode w ip port) s \<Longrightarrow> consistent s"
proof (induction rule: rtranclp_induct)
  case base
  then show ?case using py_constructor by (rule stopped_consistent)
next
  case (step s s')
  then show ?case by (blast intro: py_op_consistent)
qed

end
