(* ===== verification/Py_Session.thy ===== *)
theory Py_Session
  imports Py_Node
begin

text \<open>
  What a Python program sees: stopping, a read that times out, a lost connection, and a program that writes and reads the
  memory behind a server.
\<close>

unbundle bit_operations_syntax

section \<open>Flags\<close>

text \<open>C8. Whatever a Python program calls, and however its thread, the background thread and the operating system are
  interleaved: \<open>running_\<close> is set exactly while there is a thread that has not come to the store that clears it,
  \<open>connected_\<close> exactly until its last store, an error is stored only when the loop of the thread has ended, and the transaction
  table of the node is consistent.\<close>

theorem py_flags_follow_thread:
  assumes "(py_op S)\<^sup>*\<^sup>* (PySpwRmapTCPNode w ip port) s"
  shows "py_running s = (py_thread s \<notin> {No_thread, Disconnecting, Exited}) \<and>
    py_connected s = (py_thread s \<notin> {No_thread, Exited}) \<and>
    (py_thread_error s \<noteq> None \<longrightarrow> py_thread s \<in> {Clearing, Disconnecting, Exited}) \<and> node_inv (py_node s)"
  using reachable_consistent [OF assms] by (cases "py_thread s") (simp_all add: consistent_def)

section \<open>Stopping\<close>

lemma poll_without_backend:
  "nd_tcp_backend nd = None \<Longrightarrow> nm_isShutdowned this nd \<Longrightarrow> poll B this nd = Some (Inr False, nd)"
  by (simp add: poll_def recvAndParseOnePacket_def)

lemma thread_steps_exited: "py_thread s = Exited \<Longrightarrow> thread_steps S n s = Some s"
  by (induction n) (simp_all add: thread_step_def)

text \<open>What the thread reports, if it has only to find out that it is over.\<close>

definition thread_report :: "'w py_node \<Rightarrow> error_code option" where
  "thread_report s = (case py_thread s of Failing e \<Rightarrow> Some e | _ \<Rightarrow> py_thread_error s)"

definition shut_down :: "'w py_node \<Rightarrow> bool" where
  "shut_down s \<longleftrightarrow> nd_tcp_backend (py_node s) = None \<and> nd_shutdowned (py_node s)"

lemma thread_step_shut_down:
  assumes "shut_down s"
  shows "\<exists>s'. thread_step S s = Some s' \<and> shut_down s' \<and> thread_report s' = thread_report s"
  using assms
  by (auto simp: shut_down_def thread_step_def thread_report_def SpwRmapTCPClient_methods_def poll_without_backend
      split: loop_thread.split)

fun steps_left :: "loop_thread \<Rightarrow> nat" where
  "steps_left Starting = 6"
| "steps_left Polling = 5"
| "steps_left (Failing e) = 4"
| "steps_left Returning = 4"
| "steps_left Clearing = 3"
| "steps_left Disconnecting = 2"
| "steps_left Exited = 1"
| "steps_left No_thread = 0"

lemma thread_step_down:
  assumes "shut_down s" "thread_step S s = Some s'"
  shows "steps_left (py_thread s') \<le> steps_left (py_thread s) - 1 \<or> py_thread s = Exited \<and> s' = s"
  using assms
  by (cases "py_thread s") (auto simp: shut_down_def thread_step_def SpwRmapTCPClient_methods_def poll_without_backend
      split: if_split_asm)

lemma thread_exits:
  assumes "shut_down s" "py_thread s \<noteq> No_thread" "steps_left (py_thread s) \<le> Suc n"
  shows "\<exists>s'. thread_steps S n s = Some s' \<and> py_thread s' = Exited \<and> shut_down s' \<and> py_thread_error s' = thread_report s"
  using assms
proof (induction n arbitrary: s)
  case 0
  then show ?case by (cases "py_thread s") (auto simp: thread_report_def)
next
  case (Suc n)
  obtain s1 where s1: "thread_step S s = Some s1" "shut_down s1" "thread_report s1 = thread_report s"
    using thread_step_shut_down [OF Suc.prems(1)] by blast
  have n: "py_thread s1 \<noteq> No_thread" using thread_step_calmer [OF s1(1)] Suc.prems(2) by (simp add: calmer_def)
  show ?case
  proof (cases "py_thread s = Exited")
    case True
    with Suc.prems thread_steps_exited [OF True] show ?thesis by (auto simp: thread_report_def)
  next
    case False
    then have "steps_left (py_thread s1) \<le> Suc n"
      using thread_step_down [OF Suc.prems(1) s1(1)] Suc.prems(3) by simp
    with Suc.IH [OF s1(2) n] s1 show ?thesis by simp
  qed
qed

definition thrown :: "error_code option \<Rightarrow> py_exception + unit" where
  "thrown e = (case e of None \<Rightarrow> Inr () | Some e \<Rightarrow> Inl (System_error e))"

lemma shutdown_succeeded:
  assumes "SpwRmapTCPClient_shutdown S nd = Some (Inr (), nd')"
  shows "nd_tcp_backend nd' = None \<and> (nd_tcp_backend nd \<noteq> None \<longrightarrow> nd_shutdowned nd')"
  using assms
  by (auto simp: SpwRmapTCPClient_shutdown_def on_backend_def client_disconnect_def Let_def elim!: bind_SomeE
      split: if_split_asm sum.split_asm)

text \<open>While the caller of \<open>stop\<close> waits for it, the thread makes \<open>n\<close> steps.\<close>

definition waiting :: "'w sys \<Rightarrow> nat \<Rightarrow> nat \<Rightarrow> 'w py_node \<Rightarrow> 'w py_node option" where
  "waiting S n k s = (if k = 6 then thread_steps S n s else Some s)"

lemma waiting_other [simp]: "k \<noteq> 6 \<Longrightarrow> waiting S n k s = Some s"
  by (simp add: waiting_def)

lemma thread_steps_meanwhile: "thread_steps S n s = Some s' \<Longrightarrow> (meanwhile S)\<^sup>*\<^sup>* s s'"
  by (induction n arbitrary: s)
    (auto elim!: bind_SomeE intro: converse_rtranclp_into_rtranclp meanwhile_thread)

lemma waiting_env_ok: "env_ok S (waiting S n)"
  by (auto simp: env_ok_def waiting_def intro: thread_steps_meanwhile)

lemma py_stop_connected:
  assumes "consistent s" and "py_connected s" and "nd_tcp_backend (py_node s) \<noteq> None"
    and "SpwRmapTCPClient_shutdown S (py_node s) = Some (Inr (), nd)" and "5 \<le> n"
  shows "\<exists>s'. py_stop S (waiting S n) s = Some (thrown (thread_report s), s') \<and> nd_tcp_backend (py_node s') = None"
proof -
  define s1 where "s1 = s\<lparr>py_node := nd, py_connected := False, py_running := False\<rparr>"
  have t: "py_thread s \<noteq> No_thread" using assms(1,2) by (auto simp: consistent_def)
  have "shut_down s1" using shutdown_succeeded [OF assms(4)] assms(3) by (simp add: s1_def shut_down_def)
  moreover have "py_thread s1 \<noteq> No_thread" "steps_left (py_thread s1) \<le> Suc n" using assms(5) t
    by (auto simp: s1_def intro: order_trans) (cases "py_thread s"; simp)
  ultimately obtain s2 where s2: "thread_steps S n s1 = Some s2" "py_thread s2 = Exited" "shut_down s2"
      "py_thread_error s2 = thread_report s1" using thread_exits by blast
  have r: "thread_report s1 = thread_report s" by (cases "py_thread s") (simp_all add: s1_def thread_report_def)
  have stop: "stop_node S (waiting S n) s = Some (Inr (), s1)"
    using assms(2,4) by (simp add: stop_node_def waiting_def s1_def)
  have join: "joinThread (waiting S n 6) s1 = Some (s2\<lparr>py_thread := No_thread\<rparr>)"
    using s2(1,2) \<open>py_thread s1 \<noteq> No_thread\<close> by (simp add: joinThread_def waiting_def)
  have "py_stop S (waiting S n) s = Some (thrown (thread_report s), s2\<lparr>py_thread := No_thread, py_thread_error := None\<rparr>)"
    using assms(2) s2(4) r
    by (simp add: py_stop_def stop join rethrowThreadError_def stop_result_def thrown_def split: option.split)
  then show ?thesis using s2(3) by (simp add: shut_down_def)
qed

section \<open>A read that times out\<close>

lemma node_user [simp]:
  "node_inv (nd\<lparr>nd_user := u\<rparr>) = node_inv nd" "first_free (nd\<lparr>nd_user := u\<rparr>) = first_free nd"
  "slot_id (nd\<lparr>nd_user := u\<rparr>) i = slot_id nd i" "read_config t tid a l (nd\<lparr>nd_user := u\<rparr>) = read_config t tid a l nd"
  "write_config t tid a data (nd\<lparr>nd_user := u\<rparr>) = write_config t tid a data nd" "id_count (nd\<lparr>nd_user := u\<rparr>) = id_count nd"
proof -
  show "node_inv (nd\<lparr>nd_user := u\<rparr>) = node_inv nd" using node_inv_table [of "nd\<lparr>nd_user := u\<rparr>" nd] by simp
qed (simp_all add: first_free_def id_count_def slot_id_def read_config_def write_config_def)

lemma node_packet [simp]:
  "node_inv (nd\<lparr>nd_packet := pk\<rparr>) = node_inv nd" "slot_id (nd\<lparr>nd_packet := pk\<rparr>) i = slot_id nd i"
  "id_count (nd\<lparr>nd_packet := pk\<rparr>) = id_count nd"
proof -
  show "node_inv (nd\<lparr>nd_packet := pk\<rparr>) = node_inv nd" by (rule node_inv_table) (simp add: table_def)
qed (simp_all add: id_count_def slot_id_def)

lemma py_copy_destroyed: "buffers ! i = None \<Longrightarrow> py_copy i n packet buffers = None"
  by (auto simp: py_copy_def span_at_def split: bind_split)

text \<open>A reply to an operation whose callback cannot run.\<close>

lemma reply_undefined:
  assumes "node_inv nd" "i < id_count nd" "nd_reply_callback nd ! i = Some rc" "pk_transactionID pk = slot_id nd i"
    and "rc_on_complete rc pk (nd_user nd) = None"
  shows "handle_reply pk nd = None"
proof -
  have "\<not> tid_out_of_range (slot_id nd i) nd" "tid_index (slot_id nd i) nd = i"
    using tid_index_slot_id [OF assms(2)] by simp_all
  then show ?thesis using assms(3-5)
    by (simp add: handle_reply_eq [OF assms(1)] Let_def)
qed

text \<open>C30. A \<open>read\<close> from Python that is not answered within its second throws \<open>timed_out\<close>, but does not cancel the
  transaction: the identifier stays in use and the callback stays registered, with a reference to the vector of the call, which no
  longer exists. When the reply comes later, handling it is undefined.\<close>

theorem py_read_timeout_dangles:
  assumes "tcp_stream (TCPClient_backend S) live pending sent" and "clock_ok clock"
    and "node_inv (py_node s)" and "py_thread_error s = None"
    and "first_free (py_node s) = Some i" and "nd_tcp_backend (py_node s) = Some b" and "live b"
    and c: "c = read_config (py_target t) (slot_id (py_node s) i) a l (py_node s)"
    and "length (pt_reply_address t) \<le> 12" and "ReadPacketBuilder_getTotalSize c \<le> INT_MAX"
    and "ReadPacketBuilder_getTotalSize c + 12 \<le> length (nd_send_buf (py_node s))"
  shows "\<exists>s' b'. py_read S clock (\<lambda>_. Some) t a l s = Some (Inl (System_error (Generic timed_out)), s') \<and>
     nd_tcp_backend (py_node s') = Some b' \<and> sent b' = sent b @ frame 0 (read_packet c) \<and>
     \<not> nd_available (py_node s') ! i \<and>
     (\<forall>pk. pk_type pk = PT_ReadReply \<longrightarrow> pk_transactionID pk = slot_id (py_node s) i \<longrightarrow>
        handle_packet B ((py_node s')\<lparr>nd_packet := pk\<rparr>) = None)"
proof -
  let ?n = "unat l" and ?j = "length (nd_user (py_node s))"
  define nd where "nd = (py_node s)\<lparr>nd_user := nd_user (py_node s) @ [Some (replicate ?n 0)]\<rparr>"
  have nd: "node_inv nd" "first_free nd = Some i" "nd_tcp_backend nd = Some b"
    "c = read_config (py_target t) (slot_id nd i) a l nd" "length (nd_send_buf nd) = length (nd_send_buf (py_node s))"
    using assms by (simp_all add: nd_def)
  have r: "length (getReplyAddress (py_target t)) \<le> 12" using assms(9) by (simp add: py_target_def getReplyAddress_def)
  obtain nd' b' where x: "startReadAsyncOperation (TCPClient_backend S) clock (py_target t) a l (py_copy ?j ?n) nd =
      Some (\<lparr>op_future = length (nd_promises nd), op_transaction_id = Some (slot_id nd i)\<rparr>, nd')"
    "nd_tcp_backend nd' = Some b'" "sent b' = sent b @ frame 0 (read_packet c)" "node_inv nd'"
    "nd_reply_callback nd' ! i = Some \<lparr>rc_on_complete = py_copy ?j ?n, rc_promise = length (nd_promises nd),
       rc_transaction_id = slot_id nd i, rc_tx_index = i\<rparr>"
    "i < id_count nd" "id_count nd' = id_count nd" "slot_id nd' i = slot_id nd i"
    "nd_promises nd' = nd_promises nd @ [None]" "nd_user nd' = nd_user nd" "core nd' = core (registered i clock (py_copy ?j ?n) nd)"
    using tcp_stream.startRead_stream [OF assms(1) nd(1) assms(2) nd(2,3) assms(7) r, of a l "py_copy ?j ?n"] nd(4,5) assms(10,11)
    by metis
  define s' where "s' = s\<lparr>py_node := nd'\<lparr>nd_user := (nd_user nd)[?j := None]\<rparr>\<rparr>"
  have "future_status (length (nd_promises nd)) nd' = Some Future_pending"
    using future_status_pending [OF x(4) _ x(5)] x(6,7) by simp
  then have "py_read S clock (\<lambda>_. Some) t a l s = Some (Inl (System_error (Generic timed_out)), s')"
    using assms(4) x(1,10) unfolding py_read_def checkThreadError_def
    by (simp add: readAsync_def nd_def [symmetric] py_future_def s'_def)
      (simp add: nd_def span_at_last)
  moreover have "\<not> nd_available (py_node s') ! i"
    using core_fields(3) [OF x(11)] shape_lengths(3) [OF nd(1)] x(6)
    by (simp add: s'_def registered_def register_def acquire_def)
  moreover have "handle_packet B ((py_node s')\<lparr>nd_packet := pk\<rparr>) = None"
    if "pk_type pk = PT_ReadReply" "pk_transactionID pk = slot_id (py_node s) i" for pk
  proof -
    have "handle_reply pk ((py_node s')\<lparr>nd_packet := pk\<rparr>) = None"
      by (rule reply_undefined [where i = i and rc = "\<lparr>rc_on_complete = py_copy ?j ?n, rc_promise = length (nd_promises nd),
       rc_transaction_id = slot_id nd i, rc_tx_index = i\<rparr>"])
        (use x that in \<open>simp_all add: s'_def py_copy_destroyed nd_def\<close>)
    then show ?thesis using that(1) by (simp add: handle_packet_def)
  qed
  ultimately show ?thesis using x(2,3) by (intro exI [of _ s'] exI [of _ b']) (simp add: s'_def)
qed

section \<open>A program over the network\<close>

text \<open>
  What happens while an operation of a program waits: the network delivers, and the thread makes one step. Before that,
  the thread has begun.
\<close>

definition py_turn :: "loop py_node \<Rightarrow> loop py_node option" where
  "py_turn s = do {
     nd \<leftarrow> network_deliver (py_node s);
     thread_step pipe_sys (s\<lparr>py_node := nd\<rparr>)
   }"

definition loop_env :: "nat \<Rightarrow> loop py_node \<Rightarrow> loop py_node option" where
  "loop_env k s = (if k = 0 then (if py_thread s = Starting then thread_step pipe_sys s else Some s) else py_turn s)"

lemma loop_env_ok: "env_ok pipe_sys loop_env"
proof -
  have "(meanwhile pipe_sys)\<^sup>*\<^sup>* s s'" if "py_turn s = Some s'" for s s'
  proof -
    from that obtain nd where nd: "network_deliver (py_node s) = Some nd" "thread_step pipe_sys (s\<lparr>py_node := nd\<rparr>) = Some s'"
      by (auto simp: py_turn_def elim!: bind_SomeE)
    from nd(1) obtain c w where "nd_tcp_backend (py_node s) = Some c" "nd = (py_node s)\<lparr>nd_tcp_backend := Some (c\<lparr>tc_sys := w\<rparr>)\<rparr>"
      by (auto simp: network_deliver_def Let_def elim!: bind_SomeE)
    then have "meanwhile pipe_sys s (s\<lparr>py_node := nd\<rparr>)" using meanwhile_world by metis
    then show ?thesis using meanwhile_thread [OF nd(2)] by (blast intro: converse_rtranclp_into_rtranclp)
  qed
  then show ?thesis by (auto simp: env_ok_def loop_env_def intro: meanwhile_thread split: if_split_asm)
qed

text \<open>The object is connected to a memory, and its thread runs.\<close>

definition py_attached :: "loop py_node \<Rightarrow> bool" where
  "py_attached s \<longleftrightarrow> consistent s \<and> py_thread s = Polling \<and> nd_running (py_node s) \<and> attached (py_node s)"

lemma settings_running: "settings nd' = settings nd \<Longrightarrow> nd_running nd' = nd_running nd"
  by (simp add: settings_def)

lemma py_turn_polls:
  assumes "py_thread s = Polling" "nd_running (py_node s)" "network_poll (py_node s) = Some (Inr True, nd)"
  shows "py_turn s = Some (s\<lparr>py_node := nd\<rparr>)"
proof -
  from assms(3) obtain nd' where d: "network_deliver (py_node s) = Some nd'"
    "poll (TCPClient_backend pipe_sys) (SpwRmapTCPClient_methods pipe_sys) nd' = Some (Inr True, nd)"
    by (auto simp: network_poll_def elim!: bind_SomeE)
  from d(1) assms(2) have "nd_running nd'" by (auto simp: network_deliver_def Let_def elim!: bind_SomeE)
  then show ?thesis using d assms(1) by (simp add: py_turn_def thread_step_def)
qed

lemma py_attached_error: "py_attached s \<Longrightarrow> py_thread_error s = None"
  by (auto simp: py_attached_def consistent_def)

lemma loop_env_attached: "py_attached s \<Longrightarrow> loop_env 0 s = Some s"
  by (simp add: py_attached_def loop_env_def)

lemma loop_env_turn: "py_turn s = Some s' \<Longrightarrow> loop_env 1 s = Some s'"
  by (simp add: loop_env_def)

lemma py_write_memory:
  assumes "py_attached s" "target_ok (py_target t)" "clock_ok clock" "length data < 2 ^ 24"
  obtains s' where "py_write pipe_sys clock loop_env t a data s = Some (Inr (), s')" "py_attached s'"
    "memory (py_node s') = mem_store a data (memory (py_node s))"
proof -
  note s = assms(1) [unfolded py_attached_def]
  have at: "attached (py_node s)" using s by simp
  have oc: "(\<lambda>packet user. Some (Returns (), user)) pk (nd_user (py_node s)) = Some (Returns (), nd_user (py_node s))"
    for pk :: packet by simp
  obtain nd' nd'' tid where w: "startWriteAsyncOperation (TCPClient_backend pipe_sys) clock (py_target t) a data
      (\<lambda>packet user. Some (Returns (), user)) (py_node s) = Some (\<lparr>op_future = length (nd_promises (py_node s)), op_transaction_id = tid\<rparr>, nd')"
    "network_poll nd' = Some (Inr True, nd'')" "attached nd''" "memory nd'' = mem_store a data (memory (py_node s))"
    "nd_user nd'' = nd_user (py_node s)" "nd_promises nd'' = nd_promises (py_node s) @ [Some (Inr ())]"
    "settings nd'' = settings (py_node s)"
    by (rule write_over_network [where oc = "\<lambda>packet user. Some (Returns (), user)" and a = a and user = "nd_user (py_node s)",
          OF at assms(2-4) oc])
  have inv: "node_inv (py_node s)" using s by (simp add: attached_def)
  have "nd_running nd'"
    using settings_running [OF settings_start [OF w(1) [unfolded startWriteAsyncOperation_def] inv assms(3) senders_keep_core(1)]] s
    by simp
  then have turn: "py_turn (s\<lparr>py_node := nd'\<rparr>) = Some (s\<lparr>py_node := nd''\<rparr>)"
    using py_turn_polls [of "s\<lparr>py_node := nd'\<rparr>" nd''] s w(2) by simp
  note env = loop_env_attached [OF assms(1)] loop_env_turn [OF turn]
  have as: "writeAsync (TCPClient_backend pipe_sys) clock (py_target t) a data (\<lambda>packet user. Some (Returns (), user)) (py_node s) =
      Some (length (nd_promises (py_node s)), nd')" unfolding writeAsync_def w(1) by simp
  have wr: "py_write pipe_sys clock loop_env t a data s = Some (Inr (), s\<lparr>py_node := nd''\<rparr>)"
    unfolding py_write_def env(1) checkThreadError_def py_attached_error [OF assms(1)] Option.bind.bind_lunit option.case sum.case
      as prod.case env(2)
    by (simp add: future_status_last [OF w(6)] py_future_def)
  have "consistent (s\<lparr>py_node := nd''\<rparr>)" using py_write_consistent [OF loop_env_ok assms(3) wr] s by simp
  then show thesis using wr w(3,4) s settings_running [OF w(7)] by (intro that [OF wr]) (simp_all add: py_attached_def)
qed

lemma py_read_memory:
  assumes "py_attached s" "target_ok (py_target t)" "clock_ok clock" "unat l < 2 ^ 24"
  obtains s' where "py_read pipe_sys clock loop_env t a l s = Some (Inr (mem_fetch a (unat l) (memory (py_node s))), s')"
    "py_attached s'" "memory (py_node s') = memory (py_node s)"
proof -
  note s = assms(1) [unfolded py_attached_def]
  let ?n = "unat l" and ?j = "length (nd_user (py_node s))"
  let ?data = "mem_fetch a ?n (memory (py_node s))"
  define nd where "nd = (py_node s)\<lparr>nd_user := nd_user (py_node s) @ [Some (replicate ?n 0)]\<rparr>"
  have at: "attached nd" "memory nd = memory (py_node s)" using s by (simp_all add: nd_def)
  have inv: "node_inv nd" using at(1) by (simp add: attached_def)
  have oc: "py_copy ?j ?n pk (nd_user nd) = Some (Returns (), nd_user (py_node s) @ [Some ?data])"
    if "pk_type pk = PT_ReadReply" "pk_data pk = mem_fetch a (unat l) (memory nd)" for pk
    using that(2) at(2) by (simp add: py_copy_def span_first_def nd_def span_at_last)
  obtain nd' nd'' tid where w: "startReadAsyncOperation (TCPClient_backend pipe_sys) clock (py_target t) a l
      (py_copy ?j ?n) nd = Some (\<lparr>op_future = length (nd_promises nd), op_transaction_id = tid\<rparr>, nd')"
    "network_poll nd' = Some (Inr True, nd'')" "attached nd''" "memory nd'' = memory nd"
    "nd_user nd'' = nd_user (py_node s) @ [Some ?data]" "nd_promises nd'' = nd_promises nd @ [Some (Inr ())]"
    "settings nd'' = settings nd"
    by (rule read_over_network [where oc = "py_copy ?j ?n" and a = a and user = "nd_user (py_node s) @ [Some ?data]",
          OF at(1) assms(2-4) oc])
  have run: "nd_running nd" using s by (simp add: nd_def)
  have "nd_running nd'"
    using settings_running [OF settings_start [OF w(1) [unfolded startReadAsyncOperation_def] inv assms(3) senders_keep_core(2)]] run
    by simp
  then have turn: "py_turn (s\<lparr>py_node := nd'\<rparr>) = Some (s\<lparr>py_node := nd''\<rparr>)"
    using py_turn_polls [of "s\<lparr>py_node := nd'\<rparr>" nd''] s w(2) by simp
  let ?s = "s\<lparr>py_node := nd''\<lparr>nd_user := nd_user (py_node s) @ [None]\<rparr>\<rparr>"
  note env = loop_env_attached [OF assms(1)] loop_env_turn [OF turn]
  have l: "word_of_nat (unat l) = l" by simp
  have as: "readAsync (TCPClient_backend pipe_sys) clock (py_target t) a l (py_copy ?j ?n) nd = Some (length (nd_promises nd), nd')"
    unfolding readAsync_def w(1) by simp
  have rd: "py_read pipe_sys clock loop_env t a l s = Some (Inr ?data, ?s)"
    unfolding py_read_def env(1) checkThreadError_def py_attached_error [OF assms(1)] Option.bind.bind_lunit option.case sum.case
      Let_def nd_def [symmetric] l as prod.case env(2)
    by (simp add: w(5) future_status_last [OF w(6)] py_future_def span_at_last)
  have "consistent ?s" using py_read_consistent [OF loop_env_ok assms(3) rd] s by simp
  then show thesis using rd w(3,4) at(2) s run settings_running [OF w(7)] by (intro that [OF rd]) (simp_all add: py_attached_def)
qed

lemma py_starts:
  assumes "fresh_loop w"
  obtains s s' where "py_start pipe_sys loop_env (PySpwRmapTCPNode w ip port) = Some (Inr (), s)"
    "loop_env 0 s = Some s'" "py_attached s'" "memory (py_node s') = nd_user (lp_server w)" "\<not> nd_shutdowned (py_node s')"
proof -
  let ?s = "PySpwRmapTCPNode w ip port"
  have n: "py_node ?s = SpwRmapTCPNodeImpl (TCPClient w) (default_config ip port) []"
    by (simp add: PySpwRmapTCPNode_def default_config_def)
  have "(0 :: int) \<le> 5000000" by simp
  from fresh_client_connects [OF assms this default_client [of w ip port "[] :: bytes option list"]] obtain b where
    c: "SpwRmapTCPClient_connect pipe_sys 5000000 (py_node ?s) = Some (Inr (), (py_node ?s)\<lparr>nd_tcp_backend := Some b, nd_shutdowned := False\<rparr>)"
    "attached ((py_node ?s)\<lparr>nd_tcp_backend := Some b, nd_shutdowned := False\<rparr>)"
    "memory ((py_node ?s)\<lparr>nd_tcp_backend := Some b, nd_shutdowned := False\<rparr>) = nd_user (lp_server w)" unfolding n by metis
  define nd where "nd = (py_node ?s)\<lparr>nd_tcp_backend := Some b, nd_shutdowned := False\<rparr>"
  define s where "s = ?s\<lparr>py_node := nd, py_connected := True, py_running := True, py_thread := Starting\<rparr>"
  have st: "py_start pipe_sys loop_env ?s = Some (Inr (), s)"
    using c(1) py_constructor(1) [of w ip port]
    by (simp add: py_start_def loop_env_def stopped_def start_thread_def s_def nd_def)
  have s: "py_thread s = Starting" "py_node s = nd" by (simp_all add: s_def)
  let ?s' = "s\<lparr>py_node := nd\<lparr>nd_running := True\<rparr>, py_thread := Polling\<rparr>"
  have step: "loop_env 0 s = Some ?s'" using s by (simp add: loop_env_def thread_step_def)
  have "consistent s" using py_start_consistent [OF loop_env_ok st stopped_consistent [OF py_constructor]] by simp
  then have "consistent ?s'" by (rule env_consistent [OF loop_env_ok step])
  moreover have "attached (nd\<lparr>nd_running := True\<rparr>)" "memory (nd\<lparr>nd_running := True\<rparr>) = nd_user (lp_server w)"
    using c(2,3) node_inv_table [of "nd\<lparr>nd_running := True\<rparr>" nd]
    by (simp_all add: nd_def [symmetric] attached_def memory_def first_free_def id_count_def)
  ultimately show thesis using st step by (intro that [of s ?s']) (simp_all add: py_attached_def nd_def)
qed

section \<open>Starting again\<close>

lemma connect_without_backend: "nd_tcp_backend nd = None \<Longrightarrow> SpwRmapTCPClient_connect S t nd = None"
  by (simp add: SpwRmapTCPClient_connect_def on_backend_def)

lemma stopped_meanwhile:
  assumes "(meanwhile S)\<^sup>*\<^sup>* s s'" "py_thread s = No_thread" "nd_tcp_backend (py_node s) = None"
  shows "s' = s"
  using assms
proof (induction rule: rtranclp_induct)
  case (step s1 s2)
  from step.hyps(2) show ?case
    by cases (use step in \<open>auto simp: thread_step_def\<close>)
qed simp

lemma start_without_backend:
  assumes "env_ok S env" "stopped s" "nd_tcp_backend (py_node s) = None"
  shows "py_start S env s = None"
proof (cases "env 0 s")
  case (Some s')
  then have "s' = s" using stopped_meanwhile [of S s s'] assms by (auto simp: env_ok_def stopped_def)
  then show ?thesis using Some assms(2,3) by (simp add: py_start_def stopped_def connect_without_backend)
qed (simp add: py_start_def)

text \<open>C9. \<open>stop\<close> on a connected object returns once the background thread has made five steps: it shuts the connection
  down, the thread finds that out and ends, and is joined; what is thrown is exactly the error the thread had come to report before. Afterwards
  nothing runs and all flags are clear. But the object cannot be started again: the backend is gone, and \<open>start\<close>
  dereferences the empty pointer, whatever happens in between.\<close>

theorem py_stop_is_final:
  assumes "consistent s" and "py_connected s" and "nd_tcp_backend (py_node s) \<noteq> None"
    and "SpwRmapTCPClient_shutdown S (py_node s) = Some (Inr (), nd)" and "5 \<le> n"
  shows "\<exists>s'. py_stop S (waiting S n) s = Some (thrown (thread_report s), s') \<and> stopped s' \<and>
     (\<forall>env. env_ok S env \<longrightarrow> py_start S env s' = None)"
proof -
  obtain s' where s': "py_stop S (waiting S n) s = Some (thrown (thread_report s), s')" "nd_tcp_backend (py_node s') = None"
    using py_stop_connected [OF assms] by blast
  have "stopped s'" using py_stop_stopped [OF waiting_env_ok s'(1)] by simp
  with s' start_without_backend show ?thesis by blast
qed

section \<open>A lost connection\<close>

lemma io_error_poll:
  assumes "posix_stream_eof S conn inq outq" "nd_tcp_backend nd = Some c" "conn (tc_fd c) (tc_sys c)"
    "inq (tc_fd c) (tc_sys c) = []" "\<not> nd_shutdowned nd"
  shows "poll (TCPClient_backend S) (SpwRmapTCPClient_methods S) nd = Some (Inl (Generic io_error), nd)"
proof -
  have "sys_recv S (tc_fd c) 12 (tc_sys c) = (Some [], tc_sys c)"
    using posix_stream_eof.recv_end [OF assms(1,3) _ assms(4)] by simp
  then have "TCPClient_recvSome S 12 c = Some (Inl (Generic io_error), c)"
    by (simp add: TCPClient_recvSome_def client_recv_loop.simps)
  then show ?thesis using assms(2,5)
    by (simp add: poll_def recvAndParseOnePacket_def recv_packet_loop.simps recv_turn_def recvExact_def recv_loop.simps
        TCPClient_backend_def SpwRmapTCPClient_methods_def)
qed

lemma failed_operations:
  assumes "py_thread_error s = Some e"
  shows "py_write S clock (\<lambda>_. Some) t a data s = Some (Inl (System_error e), s)"
    "py_read S clock (\<lambda>_. Some) t a l s = Some (Inl (System_error e), s)"
  using assms by (simp_all add: py_write_def py_read_def checkThreadError_def)

lemma exited_operations:
  assumes "py_thread_error s = Some e" "py_thread s = Exited" "\<not> py_running s" "\<not> py_connected s"
  shows "py_start S (\<lambda>_. Some) s = Some (Inl (System_error e), s\<lparr>py_thread := No_thread, py_thread_error := None\<rparr>)"
    "py_stop S (\<lambda>_. Some) s = Some (Inl (System_error e), s\<lparr>py_thread := No_thread, py_thread_error := None\<rparr>)"
  using assms by (simp_all add: py_start_def py_stop_def joinThread_def rethrowThreadError_def)

lemma start_stopped_fails:
  assumes "py_start S (\<lambda>_. Some) s = Some (r, s')" "stopped s"
    and fails: "\<And>res nd. SpwRmapTCPClient_connect S 5000000 (py_node s) = Some (res, nd) \<Longrightarrow> res = Inl e"
  obtains nd where "SpwRmapTCPClient_connect S 5000000 (py_node s) = Some (Inl e, nd)" "r = Inl (System_error e)" "s' = s\<lparr>py_node := nd\<rparr>"
proof (cases "SpwRmapTCPClient_connect S 5000000 (py_node s)")
  case None
  with assms(1,2) show thesis by (simp add: py_start_def stopped_def)
next
  case (Some a)
  obtain res nd where a: "a = (res, nd)" by (cases a)
  have res: "res = Inl e" by (rule fails [OF Some [unfolded a]])
  show thesis
    by (rule that [OF Some [unfolded a res]]) (use assms(1,2) Some a res in \<open>simp_all add: py_start_def stopped_def\<close>)
qed

text \<open>C31. The peer closes the connection. The background thread ends within four steps with \<open>io_error\<close>, which every \<open>read\<close> and
  \<open>write\<close> throws from then on, until \<open>start\<close> or \<open>stop\<close> has thrown it too. Neither of these closes the descriptor: the next \<open>start\<close>
  fails with \<open>already_connected\<close> and only thereby closes it.\<close>

theorem py_lost_connection:
  assumes "posix_stream_eof S conn inq outq" and "posix_fds S opened" and "consistent s" and "py_thread s = Polling"
    and "nd_running (py_node s)" and "\<not> nd_shutdowned (py_node s)" and "nd_tcp_backend (py_node s) = Some c"
    and "conn (tc_fd c) (tc_sys c)" and "inq (tc_fd c) (tc_sys c) = []"
  shows "\<exists>s1 s2. thread_steps S 4 s = Some s1 \<and> py_thread s1 = Exited \<and>
     py_write S clock (\<lambda>_. Some) t a data s1 = Some (Inl (System_error (Generic io_error)), s1) \<and>
     py_read S clock (\<lambda>_. Some) t a l s1 = Some (Inl (System_error (Generic io_error)), s1) \<and>
     py_start S (\<lambda>_. Some) s1 = Some (Inl (System_error (Generic io_error)), s2) \<and>
     py_stop S (\<lambda>_. Some) s1 = Some (Inl (System_error (Generic io_error)), s2) \<and> stopped s2 \<and>
     (\<forall>r s3. py_start S (\<lambda>_. Some) s2 = Some (r, s3) \<longrightarrow> r = Inl (System_error (Generic already_connected)) \<and>
        stopped s3 \<and> (\<exists>c'. nd_tcp_backend (py_node s3) = Some c' \<and> tc_fd c' = -1 \<and>
          opened (tc_sys c') = opened (tc_sys c) - {tc_fd c}))"
proof -
  let ?e = "Generic io_error"
  define s1 where "s1 = s\<lparr>py_thread := Exited, py_thread_error := Some ?e, py_running := False, py_connected := False\<rparr>"
  define s2 where "s2 = s1\<lparr>py_thread := No_thread, py_thread_error := None\<rparr>"
  have "poll (TCPClient_backend S) (SpwRmapTCPClient_methods S) (py_node s) = Some (Inl ?e, py_node s)"
    by (rule io_error_poll [OF assms(1,7,8,9,6)])
  then have "thread_steps S 4 s = Some s1"
    using assms(4,5) by (simp add: eval_nat_numeral thread_step_def s1_def)
  moreover have "py_write S clock (\<lambda>_. Some) t a data s1 = Some (Inl (System_error ?e), s1)"
    "py_read S clock (\<lambda>_. Some) t a l s1 = Some (Inl (System_error ?e), s1)"
    "py_start S (\<lambda>_. Some) s1 = Some (Inl (System_error ?e), s2)"
    "py_stop S (\<lambda>_. Some) s1 = Some (Inl (System_error ?e), s2)"
    unfolding s2_def by (rule failed_operations exited_operations; simp add: s1_def)+
  moreover have s2: "stopped s2" "nd_tcp_backend (py_node s2) = Some c" using assms(7) by (simp_all add: stopped_def s1_def s2_def)
  moreover have "r = Inl (System_error (Generic already_connected)) \<and> stopped s3 \<and>
      (\<exists>c'. nd_tcp_backend (py_node s3) = Some c' \<and> tc_fd c' = -1 \<and> opened (tc_sys c') = opened (tc_sys c) - {tc_fd c})"
    if start: "py_start S (\<lambda>_. Some) s2 = Some (r, s3)" for r s3
  proof -
    have fd: "0 \<le> tc_fd c"
      using posix_stream.conn_fd [OF posix_stream_eof.axioms(1) [OF assms(1)] assms(8)] .
    note twice = connect_twice_disconnects [OF assms(2) s2(2) fd]
    obtain nd where "SpwRmapTCPClient_connect S 5000000 (py_node s2) = Some (Inl (Generic already_connected), nd)"
      "r = Inl (System_error (Generic already_connected))" "s3 = s2\<lparr>py_node := nd\<rparr>"
      by (rule start_stopped_fails [OF start s2(1)]) (use twice in blast)+
    with twice s2(1) show ?thesis by (auto simp: stopped_def)
  qed
  ultimately show ?thesis by (intro exI [of _ s1] exI [of _ s2]) (auto simp: s1_def)
qed

lemma py_write_begun:
  "loop_env 0 s = Some s' \<Longrightarrow> loop_env 0 s' = Some s' \<Longrightarrow> py_write S clock loop_env t a data s = py_write S clock loop_env t a data s'"
  by (simp add: py_write_def)

lemma py_attached_stops:
  assumes "py_attached s" "5 \<le> n"
  obtains s' where "py_stop pipe_sys (waiting pipe_sys n) s = Some (Inr (), s')" "stopped s'"
proof -
  note s = assms(1) [unfolded py_attached_def]
  have at: "attached (py_node s)" using s by simp
  obtain nd where sh: "SpwRmapTCPClient_shutdown pipe_sys (py_node s) = Some (Inr (), nd)" by (rule attached_shuts_down [OF at])
  have "consistent s" "py_connected s" "nd_tcp_backend (py_node s) \<noteq> None" using s by (auto simp: consistent_def attached_def)
  from py_stop_connected [OF this sh assms(2)] obtain s' where
    "py_stop pipe_sys (waiting pipe_sys n) s = Some (thrown (thread_report s), s')" by blast
  moreover have "thread_report s = None" using s py_attached_error [OF assms(1)] by (simp add: thread_report_def)
  ultimately have st: "py_stop pipe_sys (waiting pipe_sys n) s = Some (Inr (), s')" by (simp add: thrown_def)
  show thesis using py_stop_stopped [OF waiting_env_ok st] by (intro that [OF st]) simp
qed

text \<open>C7. A Python program over the network, with a memory behind the server: \<open>start\<close>, \<open>write\<close>, \<open>read\<close> and \<open>stop\<close> all succeed,
  the write changes the memory exactly at the addressed bytes, the read returns what was written, and at the end nothing runs.\<close>

theorem py_program_over_memory:
  assumes "fresh_loop w" and "target_ok (py_target t)" and "clock_ok clock" and "clock_ok clock'" and "length data < 2 ^ 24"
  shows "\<exists>s1 s2 s3 s4. py_start pipe_sys loop_env (PySpwRmapTCPNode w ip port) = Some (Inr (), s1) \<and>
     py_write pipe_sys clock loop_env t a data s1 = Some (Inr (), s2) \<and>
     memory (py_node s2) = mem_store a data (nd_user (lp_server w)) \<and>
     py_read pipe_sys clock' loop_env t a (word_of_nat (length data)) s2 = Some (Inr data, s3) \<and>
     py_stop pipe_sys (waiting pipe_sys 5) s3 = Some (Inr (), s4) \<and> stopped s4"
proof -
  obtain s1 s1' where s1: "py_start pipe_sys loop_env (PySpwRmapTCPNode w ip port) = Some (Inr (), s1)"
    "loop_env 0 s1 = Some s1'" "py_attached s1'" "memory (py_node s1') = nd_user (lp_server w)"
    "\<not> nd_shutdowned (py_node s1')" by (rule py_starts [OF assms(1)])
  obtain s2 where s2: "py_write pipe_sys clock loop_env t a data s1' = Some (Inr (), s2)" "py_attached s2"
    "memory (py_node s2) = mem_store a data (memory (py_node s1'))" by (rule py_write_memory [OF s1(3) assms(2,3,5)])
  have l: "unat (word_of_nat (length data) :: u32) = length data"
    using assms(5) by (simp add: unsigned_of_nat take_bit_nat_eq_self)
  then have small: "unat (word_of_nat (length data) :: u32) < 2 ^ 24" using assms(5) by simp
  obtain s3 where s3: "py_read pipe_sys clock' loop_env t a (word_of_nat (length data)) s2 =
      Some (Inr (mem_fetch a (unat (word_of_nat (length data) :: u32)) (memory (py_node s2))), s3)" "py_attached s3"
    "memory (py_node s3) = memory (py_node s2)" by (rule py_read_memory [OF s2(2) assms(2,4) small])
  obtain s4 where "py_stop pipe_sys (waiting pipe_sys 5) s3 = Some (Inr (), s4)" "stopped s4"
    by (rule py_attached_stops [OF s3(2), of 5]) simp
  moreover have "py_write pipe_sys clock loop_env t a data s1 = Some (Inr (), s2)"
    using py_write_begun [OF s1(2) loop_env_attached [OF s1(3)]] s2(1) by simp
  moreover have "mem_fetch a (length data) (memory (py_node s2)) = data" using assms(5) by (simp add: s2(3) mem_fetch_store)
  ultimately show ?thesis using s1(1,4) s2(3) s3(1) l by metis
qed

section \<open>Runs\<close>

definition sample_py_target :: PyTargetNode where
  "sample_py_target = \<lparr>pt_logical_address = 0xFE, pt_target_spacewire_address = [3], pt_reply_address = [2]\<rparr>"

lemma sample_py_target_ok: "target_ok (py_target sample_py_target)"
  by (simp add: target_ok_def py_target_def sample_py_target_def getTargetSpaceWireAddress_def getReplyAddress_def
      getTargetLogicalAddress_def path_ok_def reply_ok_def)

theorem py_program_over_memory_witness:
  "\<exists>s1 s2 s3 s4. py_start pipe_sys loop_env (PySpwRmapTCPNode counting_loop ''127.0.0.1'' ''10030'') = Some (Inr (), s1) \<and>
     py_write pipe_sys (\<lambda>_. 0) loop_env sample_py_target 0x100 [7, 8, 9] s1 = Some (Inr (), s2) \<and>
     memory (py_node s2) 0x101 = 8 \<and> memory (py_node s2) 0x103 = 3 \<and>
     py_read pipe_sys (\<lambda>_. 0) loop_env sample_py_target 0x100 3 s2 = Some (Inr [7, 8, 9], s3) \<and>
     py_stop pipe_sys (waiting pipe_sys 5) s3 = Some (Inr (), s4) \<and> stopped s4"
proof -
  have d: "length [7, 8, 9 :: u8] < 2 ^ 24" "word_of_nat (length [7, 8, 9 :: u8]) = (3 :: u32)" by simp_all
  from py_program_over_memory [OF counting_loop_fresh(1) sample_py_target_ok zero_clock zero_clock d(1),
      of "''127.0.0.1''" "''10030''" "0x100", unfolded d(2)]
  obtain s1 s2 s3 s4 where x: "py_start pipe_sys loop_env (PySpwRmapTCPNode counting_loop ''127.0.0.1'' ''10030'') = Some (Inr (), s1)"
    "py_write pipe_sys (\<lambda>_. 0) loop_env sample_py_target 0x100 [7, 8, 9] s1 = Some (Inr (), s2)"
    "memory (py_node s2) = mem_store 0x100 [7, 8, 9] (nd_user (lp_server counting_loop))"
    "py_read pipe_sys (\<lambda>_. 0) loop_env sample_py_target 0x100 3 s2 = Some (Inr [7, 8, 9], s3)"
    "py_stop pipe_sys (waiting pipe_sys 5) s3 = Some (Inr (), s4)" "stopped s4" by blast
  have "memory (py_node s2) 0x101 = 8" "memory (py_node s2) 0x103 = 3"
    unfolding x(3) counting_loop_fresh(2) by (simp_all add: mem_store_def)
  with x show ?thesis by blast
qed

text \<open>A connected object, for the remaining witnesses.\<close>

lemma sample_py_attached:
  obtains s where "py_attached s" "(py_op pipe_sys)\<^sup>*\<^sup>* (PySpwRmapTCPNode counting_loop ip port) s" "\<not> nd_shutdowned (py_node s)"
proof -
  obtain s s' where s: "py_start pipe_sys loop_env (PySpwRmapTCPNode counting_loop ip port) = Some (Inr (), s)"
    "loop_env 0 s = Some s'" "py_attached s'" "memory (py_node s') = nd_user (lp_server counting_loop)"
    "\<not> nd_shutdowned (py_node s')" by (rule py_starts [OF counting_loop_fresh(1)])
  have "py_op pipe_sys (PySpwRmapTCPNode counting_loop ip port) s" using s(1) loop_env_ok by (rule op_start)
  moreover have "(meanwhile pipe_sys)\<^sup>*\<^sup>* s s'" using loop_env_ok s(2) by (auto simp: env_ok_def)
  then have "(py_op pipe_sys)\<^sup>*\<^sup>* s s'" by (rule rtranclp_mono [THEN predicate2D, rotated]) (auto intro: op_between)
  ultimately show thesis using that s(3,5) by (blast intro: converse_rtranclp_into_rtranclp)
qed

lemma sample_py_node:
  obtains s c i where "py_attached s" "(py_op pipe_sys)\<^sup>*\<^sup>* (PySpwRmapTCPNode counting_loop ''127.0.0.1'' ''10030'') s"
    "\<not> nd_shutdowned (py_node s)" "nd_tcp_backend (py_node s) = Some c" "tc_fd c = 3" "pp_in (tc_sys c) = []"
    "first_free (py_node s) = Some i" "4096 \<le> length (nd_send_buf (py_node s))"
proof -
  obtain s where s: "py_attached s" "(py_op pipe_sys)\<^sup>*\<^sup>* (PySpwRmapTCPNode counting_loop ''127.0.0.1'' ''10030'') s"
    "\<not> nd_shutdowned (py_node s)" by (rule sample_py_attached)
  then have "attached (py_node s)" by (simp add: py_attached_def)
  then show thesis using s that by (auto simp: attached_def)
qed

theorem py_flags_follow_thread_witness:
  "\<exists>s. (py_op pipe_sys)\<^sup>*\<^sup>* (PySpwRmapTCPNode counting_loop ''127.0.0.1'' ''10030'') s \<and> py_thread s = Polling \<and> py_running s"
proof -
  obtain s where s: "py_attached s" "(py_op pipe_sys)\<^sup>*\<^sup>* (PySpwRmapTCPNode counting_loop ''127.0.0.1'' ''10030'') s"
    by (rule sample_py_node)
  have "py_thread s = Polling" using s(1) by (simp add: py_attached_def)
  with py_flags_follow_thread [OF s(2)] s(2) show ?thesis by auto
qed

theorem py_stop_is_final_witness:
  "\<exists>s s'. py_thread s = Polling \<and> py_stop pipe_sys (waiting pipe_sys 5) s = Some (Inr (), s') \<and> stopped s' \<and>
     py_start pipe_sys loop_env s' = None"
proof -
  obtain s c i where s: "py_attached s" "nd_tcp_backend (py_node s) = Some c" by (rule sample_py_node)
  have a: "consistent s" "py_connected s" "nd_tcp_backend (py_node s) \<noteq> None" "attached (py_node s)" "py_thread s = Polling"
    using s by (auto simp: py_attached_def consistent_def)
  obtain nd where sh: "SpwRmapTCPClient_shutdown pipe_sys (py_node s) = Some (Inr (), nd)" by (rule attached_shuts_down [OF a(4)])
  have "thread_report s = None" using a(5) py_attached_error [OF s(1)] by (simp add: thread_report_def)
  with py_stop_is_final [OF a(1-3) sh, of 5] loop_env_ok a(5) show ?thesis by (auto simp: thrown_def)
qed

theorem py_read_timeout_dangles_witness:
  "\<exists>(s :: loop py_node) s' i. py_read pipe_sys (\<lambda>_. 0) (\<lambda>_. Some) sample_py_target 0x100 4 s = Some (Inl (System_error (Generic timed_out)), s') \<and>
     \<not> nd_available (py_node s') ! i \<and>
     handle_packet (TCPClient_backend pipe_sys) ((py_node s')\<lparr>nd_packet := (nd_packet (py_node s'))\<lparr>pk_type := PT_ReadReply,
       pk_transactionID := slot_id (py_node s) i, pk_data := [1, 2, 3, 4]\<rparr>\<rparr>) = None"
proof -
  obtain s c i where s: "py_attached s" "nd_tcp_backend (py_node s) = Some c" "tc_fd c = 3" "first_free (py_node s) = Some i"
    "4096 \<le> length (nd_send_buf (py_node s))" by (rule sample_py_node)
  have inv: "node_inv (py_node s)" using s(1) by (simp add: py_attached_def attached_def)
  have live: "tc_fd c = 3 \<and> lp_server (tc_sys c) = lp_server (tc_sys c)" using s(3) by simp
  have r: "length (pt_reply_address sample_py_target) \<le> 12"
    "ReadPacketBuilder_getTotalSize (read_config (py_target sample_py_target) (slot_id (py_node s) i) 0x100 4 (py_node s)) \<le> INT_MAX"
    "ReadPacketBuilder_getTotalSize (read_config (py_target sample_py_target) (slot_id (py_node s) i) 0x100 4 (py_node s)) + 12
       \<le> length (nd_send_buf (py_node s))"
    using s(5) by (simp_all add: sample_py_target_def py_target_def ReadPacketBuilder_getTotalSize_def read_config_def
        getTargetSpaceWireAddress_def getReplyAddress_def INT_MAX_def)
  from py_read_timeout_dangles [OF loop.client.tcp_stream_axioms zero_clock inv py_attached_error [OF s(1)] s(4,2) live refl r,
      of "TCPClient_backend pipe_sys"]
  obtain s' where "py_read pipe_sys (\<lambda>_. 0) (\<lambda>_. Some) sample_py_target 0x100 4 s = Some (Inl (System_error (Generic timed_out)), s')"
    "\<not> nd_available (py_node s') ! i" "\<forall>pk. pk_type pk = PT_ReadReply \<longrightarrow> pk_transactionID pk = slot_id (py_node s) i \<longrightarrow>
        handle_packet (TCPClient_backend pipe_sys) ((py_node s')\<lparr>nd_packet := pk\<rparr>) = None" by blast
  then show ?thesis by (intro exI [of _ s] exI [of _ s'] exI [of _ i]) simp
qed

theorem py_lost_connection_witness:
  "\<exists>(s :: loop py_node) s1 s2. py_thread s = Polling \<and> thread_steps pipe_sys 4 s = Some s1 \<and>
     py_write pipe_sys (\<lambda>_. 0) (\<lambda>_. Some) sample_py_target 0x100 [1] s1 = Some (Inl (System_error (Generic io_error)), s1) \<and>
     py_start pipe_sys (\<lambda>_. Some) s1 = Some (Inl (System_error (Generic io_error)), s2) \<and> stopped s2"
proof -
  obtain s c where s: "py_attached s" "\<not> nd_shutdowned (py_node s)" "nd_tcp_backend (py_node s) = Some c" "tc_fd c = 3"
    "pp_in (tc_sys c) = []" by (rule sample_py_node)
  have a: "consistent s" "py_thread s = Polling" "nd_running (py_node s)" using s(1) by (simp_all add: py_attached_def)
  have live: "tc_fd c = 3 \<and> lp_server (tc_sys c) = lp_server (tc_sys c)" using s(4) by simp
  from py_lost_connection [OF loop.posix_stream_eof_axioms pipe_fds.posix_fds_axioms a s(2,3) live s(5),
      of "\<lambda>_. 0" sample_py_target "0x100" "[1]"] a(2)
  show ?thesis by blast
qed

end
