(* ===== verification/Py_Span.thy ===== *)
theory Py_Span
  imports Prelude
begin

text \<open>
  Conversion between spans and Python memory views, \<open>bindings/python/src/span_caster.hh\<close>. The library
  \<open>pybind11\<close> is not part of the sources; its functions are arguments.
\<close>

unbundle bit_operations_syntax

section \<open>Definitions\<close>

text \<open>The element type \<open>T\<close> of \<open>std::span<T>\<close>: \<open>sizeof\<close> and whether it is \<open>const\<close>. A span is a pointer, \<open>None\<close> for a null
  pointer, and a length.\<close>

record element =
  el_size :: nat
  el_const :: bool

record 'p span_of =
  sp_data :: "'p option"
  sp_size :: nat

text \<open>What the source reads of \<open>py::buffer_info\<close>.\<close>

record 'p buffer_info =
  bi_ptr :: "'p option"
  bi_itemsize :: int
  bi_size :: int
  bi_ndim :: int
  bi_strides :: "int list"
  bi_readonly :: bool

definition size_t_of :: "int \<Rightarrow> u64" where
  "size_t_of n = word_of_int n"

definition ssize_t_of :: "nat \<Rightarrow> int" where
  "ssize_t_of n = sint (word_of_nat n :: u64)"

text \<open>
  \<open>check_buffer\<close> and \<open>request\<close> are \<open>PyObject_CheckBuffer\<close> and \<open>py::buffer::request\<close>; an exception of the latter is \<open>Inl\<close>.
  The result of \<open>load\<close> is the span it has stored in \<open>value\<close>, if it returns true.
\<close>

definition load :: "('h \<Rightarrow> bool) \<Rightarrow> ('h \<Rightarrow> 'x + 'p buffer_info) \<Rightarrow> element \<Rightarrow> 'h \<Rightarrow> 'x + 'p span_of option" where
  "load check_buffer request T src =
    (if \<not> check_buffer src then Inr None
     else case request src of
         Inl e \<Rightarrow> Inl e
       | Inr info \<Rightarrow>
           if bi_ndim info \<noteq> 1 then Inr None
           else if size_t_of (bi_itemsize info) \<noteq> word_of_nat (el_size T) then Inr None
           else if bi_strides info \<noteq> [] \<and> hd (bi_strides info) \<noteq> ssize_t_of (el_size T) then Inr None
           else if \<not> el_const T \<and> bi_readonly info then Inr None
           else Inr (Some \<lparr>sp_data = bi_ptr info, sp_size = unat (size_t_of (bi_size info))\<rparr>))"

text \<open>
  \<open>from_buffer\<close> is \<open>py::memoryview::from_buffer\<close>, with the size of the elements, the pointer, shape and strides and whether
  the view is read-only, which it is for a pointer to \<open>const\<close>. It may throw.
\<close>

type_synonym ('p, 'x, 'h) from_buffer = "nat \<Rightarrow> 'p option \<Rightarrow> int list \<Rightarrow> int list \<Rightarrow> bool \<Rightarrow> 'x + 'h"

definition cast :: "('p, 'x, 'h) from_buffer \<Rightarrow> element \<Rightarrow> 'p span_of \<Rightarrow> 'x + 'h" where
  "cast from_buffer T s = (let
       shape = [ssize_t_of (sp_size s)];
       strides = [ssize_t_of (el_size T)]
     in if el_const T then from_buffer (el_size T) (sp_data s) shape strides True
        else from_buffer (el_size T) (sp_data s) shape strides False)"

definition to_py_memoryview :: "('p, 'x, 'h) from_buffer \<Rightarrow> element \<Rightarrow> 'p span_of \<Rightarrow> 'x + 'h" where
  "to_py_memoryview from_buffer T s = (let
       shape = [ssize_t_of (sp_size s)];
       strides = [ssize_t_of (el_size T)]
     in if el_const T then from_buffer (el_size T) (sp_data s) shape strides True
        else from_buffer (el_size T) (sp_data s) shape strides False)"

definition to_py_bytes :: "('p option \<Rightarrow> int \<Rightarrow> 'h) \<Rightarrow> 'p span_of \<Rightarrow> 'h" where
  "to_py_bytes py_bytes s = py_bytes (sp_data s) (ssize_t_of (sp_size s))"

section \<open>Views\<close>

text \<open>A memory view exports what it was made from, and there is none of a null pointer.\<close>

definition views_export ::
    "('h \<Rightarrow> bool) \<Rightarrow> ('h \<Rightarrow> 'x + 'p buffer_info) \<Rightarrow> ('p, 'x, 'h) from_buffer \<Rightarrow> bool" where
  "views_export check_buffer request from_buffer \<longleftrightarrow> (\<forall>itemsize ptr n stride readonly. 0 \<le> n \<longrightarrow>
     (\<exists>v. from_buffer itemsize (Some ptr) [n] [stride] readonly = Inr v \<and> check_buffer v \<and>
       request v = Inr \<lparr>bi_ptr = Some ptr, bi_itemsize = int itemsize, bi_size = n, bi_ndim = 1, bi_strides = [stride],
         bi_readonly = readonly\<rparr>) \<and>
     (\<exists>e. from_buffer itemsize None [n] [stride] readonly = Inl e))"

lemma ssize_t_small: "n < 2 ^ 63 \<Longrightarrow> ssize_t_of n = int n"
  by (simp add: ssize_t_of_def signed_of_nat signed_take_bit_int_eq_self)

lemma size_t_small: "n < 2 ^ 63 \<Longrightarrow> unat (size_t_of (int n)) = n"
  by (simp add: size_t_of_def unsigned_of_nat take_bit_nat_eq_self)

lemma size_t_distinct: "n < 2 ^ 63 \<Longrightarrow> m < 2 ^ 63 \<Longrightarrow> size_t_of (int n) = word_of_nat m \<longleftrightarrow> n = m"
  by (simp add: size_t_of_def word_of_nat_eq_iff take_bit_nat_eq_self)

lemma load_view:
  assumes "views_export check_buffer request from_buffer" "el_size T < 2 ^ 63" "sp_size s < 2 ^ 63" "sp_data s = Some ptr"
  obtains v where "cast from_buffer T s = Inr v"
    "\<And>T'. el_size T' < 2 ^ 63 \<Longrightarrow> load check_buffer request T' v =
      Inr (if el_size T' = el_size T \<and> (el_const T \<longrightarrow> el_const T') then Some s else None)"
proof -
  have n: "0 \<le> int (sp_size s)" by simp
  from assms(1) [unfolded views_export_def, rule_format, OF n] obtain v where
    v: "from_buffer (el_size T) (Some ptr) [int (sp_size s)] [int (el_size T)] (el_const T) = Inr v" "check_buffer v"
      "request v = Inr \<lparr>bi_ptr = Some ptr, bi_itemsize = int (el_size T), bi_size = int (sp_size s), bi_ndim = 1,
        bi_strides = [int (el_size T)], bi_readonly = el_const T\<rparr>" by blast
  show thesis
  proof (rule that [of v])
    show "cast from_buffer T s = Inr v" using v(1) assms(2-4) by (cases "el_const T") (auto simp: cast_def ssize_t_small Let_def)
    show "load check_buffer request T' v =
      Inr (if el_size T' = el_size T \<and> (el_const T \<longrightarrow> el_const T') then Some s else None)" if "el_size T' < 2 ^ 63" for T'
      using v assms(2-4) that by (auto simp: load_def ssize_t_small size_t_small size_t_distinct)
  qed
qed

text \<open>C40. Memory views and spans. A span with a pointer that is handed to Python as a memory view, by \<open>cast\<close> or by
  \<open>to_py_memoryview\<close>, and loaded back at the same element type is the same span. At an element type of another size
  the view is refused, and so is a view of constant elements as a span of elements that may be changed. A span without a
  pointer cannot be handed over: the conversion throws.\<close>

theorem span_views:
  assumes "views_export check_buffer request from_buffer" and "el_size T < 2 ^ 63" and "el_size T' < 2 ^ 63"
    and "sp_size s < 2 ^ 63"
  shows "if sp_data s = None then (\<exists>e. cast from_buffer T s = Inl e) \<and> (\<exists>e. to_py_memoryview from_buffer T s = Inl e)
     else \<exists>v. cast from_buffer T s = Inr v \<and> to_py_memoryview from_buffer T s = Inr v \<and>
       load check_buffer request T v = Inr (Some s) \<and>
       (el_size T' \<noteq> el_size T \<longrightarrow> load check_buffer request T' v = Inr None) \<and>
       (el_const T \<longrightarrow> \<not> el_const T' \<longrightarrow> load check_buffer request T' v = Inr None)"
proof -
  have same: "to_py_memoryview from_buffer T s = cast from_buffer T s" by (simp add: to_py_memoryview_def cast_def)
  show ?thesis
  proof (cases "sp_data s")
    case None
    have n: "0 \<le> int (sp_size s)" by simp
    obtain e where "from_buffer (el_size T) None [int (sp_size s)] [int (el_size T)] (el_const T) = Inl e"
      using assms(1) [unfolded views_export_def, rule_format, OF n] by blast
    with None assms(2,4) show ?thesis unfolding same by (cases "el_const T") (auto simp: cast_def ssize_t_small Let_def)
  next
    case (Some ptr)
    obtain v where "cast from_buffer T s = Inr v" "\<And>T'. el_size T' < 2 ^ 63 \<Longrightarrow> load check_buffer request T' v =
      Inr (if el_size T' = el_size T \<and> (el_const T \<longrightarrow> el_const T') then Some s else None)"
      using load_view [OF assms(1,2,4) Some] by metis
    with Some assms(2,3) show ?thesis unfolding same by simp
  qed
qed

definition sample_view :: "(nat, unit, nat buffer_info) from_buffer" where
  "sample_view itemsize ptr shape strides readonly = (if ptr = None then Inl () else Inr \<lparr>bi_ptr = ptr,
     bi_itemsize = int itemsize, bi_size = prod_list shape, bi_ndim = int (length shape), bi_strides = strides,
     bi_readonly = readonly\<rparr>)"

theorem span_views_witness:
  "\<exists>v. cast sample_view \<lparr>el_size = 1, el_const = True\<rparr> \<lparr>sp_data = Some 0x1000, sp_size = 16\<rparr> = Inr v \<and>
     load (\<lambda>_. True) (\<lambda>v. Inr v :: unit + nat buffer_info) \<lparr>el_size = 1, el_const = True\<rparr> v =
       Inr (Some \<lparr>sp_data = Some 0x1000, sp_size = 16\<rparr>) \<and>
     load (\<lambda>_. True) (\<lambda>v. Inr v :: unit + nat buffer_info) \<lparr>el_size = 4, el_const = False\<rparr> v = Inr None"
proof -
  have "views_export (\<lambda>_. True) (\<lambda>v. Inr v :: unit + nat buffer_info) sample_view"
    by (simp add: views_export_def sample_view_def)
  from span_views [OF this, of "\<lparr>el_size = 1, el_const = True\<rparr>" "\<lparr>el_size = 4, el_const = False\<rparr>"
      "\<lparr>sp_data = Some 0x1000, sp_size = 16\<rparr>"]
  show ?thesis by auto
qed

end
