(* ===== verification/App_Examples.thy ===== *)
theory App_Examples
  imports App_Loop
begin

text \<open>
  The examples of the repository: \<open>examples/packet_builder.cc\<close> and \<open>examples/spwrmap_example.cc\<close>.
\<close>

unbundle bit_operations_syntax

section \<open>Building a packet\<close>

definition hex_digit_upper :: "nat \<Rightarrow> char" where
  "hex_digit_upper d = (if d < 10 then char_of (48 + d) else char_of (55 + d))"

fun hex_upper :: "nat \<Rightarrow> string" where
  "hex_upper n = (if n < 16 then [hex_digit_upper n] else hex_upper (n div 16) @ [hex_digit_upper (n mod 16)])"

declare hex_upper.simps [simp del]

definition printPacket :: "bytes \<Rightarrow> string" where
  "printPacket packet = ''Packet bytes:'' @ concat (map (\<lambda>byte. '' 0x'' @ hex_upper (unat byte)) packet) @ newline"

definition example_packet :: ReadPacketConfig where
  "example_packet = \<lparr>rd_targetSpaceWireAddress = [0x01, 0x02, 0x03, 0x04], rd_replyAddress = [0x05, 0x06, 0x07, 0x08],
     rd_targetLogicalAddress = 0xF2, rd_initiatorLogicalAddress = 0x35, rd_transactionID = 0x1234, rd_extendedAddress = 0x00,
     rd_address = 0x44A40000, rd_dataLength = 0x00000004, rd_key = 0xAB, rd_incrementMode = True\<rparr>"

text \<open>\<open>main\<close> of \<open>examples/packet_builder.cc\<close>: its exit code and what it writes to \<open>std::cout\<close>.\<close>

definition packet_builder_main :: "(nat \<times> string) option" where
  "packet_builder_main = do {
     let config = example_packet;
     buffer \<leftarrow> vector_resize (ReadPacketBuilder_getTotalSize config) [];
     (res, buffer) \<leftarrow> ReadPacketBuilder_build config buffer;
     case res of
       Inl _ \<Rightarrow> Some (1, [])
     | Inr _ \<Rightarrow> Some (0, printPacket buffer)
   }"

text \<open>The example prints the command that the round trip theorem takes back to the configuration.\<close>

lemma packet_builder_prints: "packet_builder_main = Some (0, printPacket (read_packet example_packet))"
proof -
  define n where "n = ReadPacketBuilder_getTotalSize example_packet"
  have n: "n = 24 + 0" "length (rd_replyAddress example_packet) \<le> 12"
    by (simp_all add: n_def ReadPacketBuilder_getTotalSize_def example_packet_def)
  then have v: "vector_resize n [] = Some (replicate n 0)" "n \<le> INT_MAX" by (simp_all add: vector_resize_def VECTOR_MAX_SIZE_def INT_MAX_def)
  have "ReadPacketBuilder_build example_packet (replicate n 0) = Some (Inr n, read_packet example_packet)"
    using ReadPacketBuilder_build_ok [of example_packet "replicate n 0"] v(2) n(2) by (simp add: n_def)
  then show ?thesis using v(1) unfolding packet_builder_main_def Let_def n_def [symmetric] by simp
qed

section \<open>A client\<close>

record example_state =
  ex_buffer :: bytes
  ex_out :: string

definition print_out :: "string \<Rightarrow> ('b, example_state) node \<Rightarrow> ('b, example_state) node" where
  "print_out s client = client\<lparr>nd_user := (nd_user client)\<lparr>ex_out := ex_out (nd_user client) @ s\<rparr>\<rparr>"

definition demo_address :: u32 where "demo_address = 0x44A20000"

definition payload :: bytes where "payload = [0x01, 0x02, 0x03, 0x04]"

definition example_target :: target_node where
  "example_target = TargetNodeDynamic 0x32 [0x06, 0x02] [0x01, 0x03]"

definition put_buffer :: "bytes \<Rightarrow> example_state \<Rightarrow> example_state" where
  "put_buffer bytes user = user\<lparr>ex_buffer := bytes\<rparr>"

text \<open>
  \<open>clock k\<close> and \<open>wait k\<close> are the clock and the thread that runs \<open>runLoop\<close> during the \<open>k\<close>-th operation.
\<close>

definition example_sync ::
    "'b backend \<Rightarrow> (nat \<Rightarrow> nat \<Rightarrow> nat \<Rightarrow> int) \<Rightarrow>
     (nat \<Rightarrow> nat \<Rightarrow> nat \<Rightarrow> ('b, example_state) node \<Rightarrow> ('b, example_state) node option) \<Rightarrow>
     ('b, example_state) node \<Rightarrow> (bool \<times> ('b, example_state) node) option" where
  "example_sync B clock wait client = do {
     (res, client) \<leftarrow> write_sync B (clock 0) (wait 0) example_target demo_address payload 3 client;
     case res of
       Inl _ \<Rightarrow> Some (False, client)
     | Inr _ \<Rightarrow> do {
         let client = client\<lparr>nd_user := (nd_user client)\<lparr>ex_buffer := replicate 4 0\<rparr>\<rparr>;
         (res, client) \<leftarrow> read_sync B (clock 1) (wait 1) example_target demo_address 4 put_buffer 3 client;
         case res of
           Inl _ \<Rightarrow> Some (False, client)
         | Inr _ \<Rightarrow> Some (True, print_out (''Sync read: '' @
             concat (map (\<lambda>byte. ''0x'' @ hex (unat byte) @ '' '') (ex_buffer (nd_user client))) @ newline) client)
       }
   }"

definition wrote :: "example_state completion" where
  "wrote packet user = Some (Returns (), user\<lparr>ex_out := ex_out user @ ''Async write completed'' @ newline\<rparr>)"

definition returned :: "example_state completion" where
  "returned packet user = Some (Returns (), user\<lparr>ex_out := ex_out user @ ''Async read returned '' @
     dec (length (pk_data packet)) @ '' bytes'' @ newline\<rparr>)"

text \<open>
  \<open>future.get()\<close> returns when the promise is set. When it throws for a broken promise, unwinding destroys the
  thread \<open>loop\<close> while it is joinable, which ends the program.
\<close>

definition get_future :: "nat \<Rightarrow> ('b, 'u) node \<Rightarrow> (error_code + unit) option" where
  "get_future future client = do {
     status \<leftarrow> future_status future client;
     case status of
       Future_pending \<Rightarrow> None
     | Future_broken \<Rightarrow> None
     | Future_ready res \<Rightarrow> Some res
   }"

definition example_writeAsync ::
    "'b backend \<Rightarrow> (nat \<Rightarrow> int) \<Rightarrow> (nat \<Rightarrow> ('b, example_state) node \<Rightarrow> ('b, example_state) node option) \<Rightarrow>
     ('b, example_state) node \<Rightarrow> (bool \<times> ('b, example_state) node) option" where
  "example_writeAsync B clock wait client = do {
     (write_future, client) \<leftarrow> writeAsync B clock example_target demo_address payload wrote client;
     client \<leftarrow> wait write_future client;
     res \<leftarrow> get_future write_future client;
     Some (\<not> isl res, client)
   }"

definition example_readAsync ::
    "'b backend \<Rightarrow> (nat \<Rightarrow> int) \<Rightarrow> (nat \<Rightarrow> ('b, example_state) node \<Rightarrow> ('b, example_state) node option) \<Rightarrow>
     ('b, example_state) node \<Rightarrow> ('b, example_state) node option" where
  "example_readAsync B clock wait client = do {
     (read_future, client) \<leftarrow> readAsync B clock example_target demo_address (word_of_nat (length payload)) returned client;
     client \<leftarrow> wait read_future client;
     res \<leftarrow> get_future read_future client;
     Some client
   }"

text \<open>\<open>main\<close> of \<open>examples/spwrmap_example.cc\<close>: its exit code and the node, which has the output in the state of its user.\<close>

definition example_main ::
    "'w sys \<Rightarrow> (nat \<Rightarrow> nat \<Rightarrow> nat \<Rightarrow> int) \<Rightarrow>
     (nat \<Rightarrow> nat \<Rightarrow> nat \<Rightarrow> ('w tcp_client, example_state) node \<Rightarrow> ('w tcp_client, example_state) node option) \<Rightarrow>
     'w \<Rightarrow> (nat \<times> ('w tcp_client, example_state) node) option" where
  "example_main S clock wait w = do {
     let B = TCPClient_backend S;
     let client = setInitiatorLogicalAddress 0xFE (SpwRmapTCPNodeImpl (TCPClient w)
       (default_config ''192.168.1.100'' ''10030'') \<lparr>ex_buffer = [], ex_out = []\<rparr>);
     (res, client) \<leftarrow> SpwRmapTCPClient_connect S 1000000 client;
     case res of
       Inl _ \<Rightarrow> Some (1, client)
     | Inr _ \<Rightarrow> do {
         let client = print_out (''Connected to RMAP bridge'' @ newline) client;
         (keep_running, client) \<leftarrow> example_sync B clock wait client;
         (keep_running, client) \<leftarrow> (if keep_running then example_writeAsync B (clock 2 0) (wait 2 0) client
            else Some (False, client));
         client \<leftarrow> (if keep_running then example_readAsync B (clock 3 0) (wait 3 0) client else Some client);
         (_, client) \<leftarrow> SpwRmapTCPClient_shutdown S client;
         Some (0, client)
       }
   }"


section \<open>The client against a memory\<close>

lemma print_out_simps [simp]:
  "attached (print_out s nd) = attached nd" "memory (print_out s nd) = memory nd"
  "ex_out (nd_user (print_out s nd)) = ex_out (nd_user nd) @ s"
  by (simp_all add: print_out_def)

lemma example_target_ok: "target_ok example_target"
  by (simp add: target_ok_def example_target_def getTargetSpaceWireAddress_def getReplyAddress_def getTargetLogicalAddress_def
      path_ok_def reply_ok_def)

lemma payload_length: "length payload = 4" "length payload < 2 ^ 24"
  by (simp_all add: payload_def)

lemma example_sync_ok:
  assumes "attached nd" "\<And>k a. clock_ok (clock k a)"
  obtains nd' where "example_sync (TCPClient_backend pipe_sys) clock (\<lambda>_ _ _. network_turn) nd = Some (True, nd')" "attached nd'"
    "mem_fetch demo_address 4 (memory nd') = payload"
    "ex_out (nd_user nd') = ex_out (nd_user nd) @ ''Sync read: '' @
      concat (map (\<lambda>byte. ''0x'' @ hex (unat byte) @ '' '') payload) @ newline"
proof -
  obtain nd1 where w: "write_sync (TCPClient_backend pipe_sys) (clock 0) (\<lambda>_ _. network_turn) example_target demo_address payload 3 nd =
      Some (Inr (), nd1)" "attached nd1" "memory nd1 = mem_store demo_address payload (memory nd)" "nd_user nd1 = nd_user nd"
    by (rule write_memory [OF assms(1) example_target_ok assms(2) payload_length(2)])
  let ?nd = "nd1\<lparr>nd_user := (nd_user nd1)\<lparr>ex_buffer := replicate 4 0\<rparr>\<rparr>"
  have at: "attached ?nd" "(4 :: nat) < 2 ^ 24" using w(2) by simp_all
  have m: "mem_fetch demo_address 4 (memory nd1) = payload"
    using mem_fetch_store [of payload demo_address "memory nd"] payload_length by (simp add: w(3))
  obtain nd2 where r: "read_sync (TCPClient_backend pipe_sys) (clock 1) (\<lambda>_ _. network_turn) example_target demo_address 4 put_buffer 3 ?nd =
      Some (Inr (), nd2)" "attached nd2" "memory nd2 = memory ?nd"
    "nd_user nd2 = put_buffer (mem_fetch demo_address 4 (memory ?nd)) (nd_user ?nd)"
    by (rule read_memory [OF at(1) example_target_ok assms(2) at(2)])
  have u: "nd_user nd2 = (nd_user nd)\<lparr>ex_buffer := payload\<rparr>" using r(4) w(4) m by (simp add: put_buffer_def)
  let ?nd' = "print_out (''Sync read: '' @ concat (map (\<lambda>byte. ''0x'' @ hex (unat byte) @ '' '') payload) @ newline) nd2"
  have "example_sync (TCPClient_backend pipe_sys) clock (\<lambda>_ _ _. network_turn) nd = Some (True, ?nd')"
    using w(1) r(1) u by (simp add: example_sync_def)
  then show thesis by (rule that) (use r(2,3) m u in simp_all)
qed

lemma example_writeAsync_ok:
  assumes "attached nd" "clock_ok clock"
  obtains nd' where "example_writeAsync (TCPClient_backend pipe_sys) clock (\<lambda>_. network_turn) nd = Some (True, nd')" "attached nd'"
    "memory nd' = mem_store demo_address payload (memory nd)"
    "ex_out (nd_user nd') = ex_out (nd_user nd) @ ''Async write completed'' @ newline"
proof -
  have oc: "wrote pk (nd_user nd) = Some (Returns (), (nd_user nd)\<lparr>ex_out := ex_out (nd_user nd) @ ''Async write completed'' @ newline\<rparr>)"
    for pk by (simp add: wrote_def)
  obtain nd1 nd' tid where w: "startWriteAsyncOperation (TCPClient_backend pipe_sys) clock example_target demo_address payload wrote nd =
      Some (\<lparr>op_future = length (nd_promises nd), op_transaction_id = tid\<rparr>, nd1)"
    "network_poll nd1 = Some (Inr True, nd')" "attached nd'" "memory nd' = mem_store demo_address payload (memory nd)"
    "nd_user nd' = (nd_user nd)\<lparr>ex_out := ex_out (nd_user nd) @ ''Async write completed'' @ newline\<rparr>"
    "nd_promises nd' = nd_promises nd @ [Some (Inr ())]" "settings nd' = settings nd"
    by (rule write_over_network [where oc = wrote and a = demo_address and user = "(nd_user nd)\<lparr>ex_out := ex_out (nd_user nd) @ ''Async write completed'' @ newline\<rparr>",
        OF assms(1) example_target_ok assms(2) payload_length(2) oc])
  have "example_writeAsync (TCPClient_backend pipe_sys) clock (\<lambda>_. network_turn) nd = Some (True, nd')"
    using w(1,6) network_turn_poll [OF w(2)] by (simp add: example_writeAsync_def writeAsync_def get_future_def future_status_last)
  then show thesis by (rule that [OF _ w(3,4)]) (simp add: w(5))
qed

lemma example_readAsync_ok:
  assumes "attached nd" "clock_ok clock"
  obtains nd' where "example_readAsync (TCPClient_backend pipe_sys) clock (\<lambda>_. network_turn) nd = Some nd'" "attached nd'"
    "ex_out (nd_user nd') = ex_out (nd_user nd) @ ''Async read returned '' @ dec 4 @ '' bytes'' @ newline"
proof -
  let ?l = "word_of_nat (length payload) :: u32"
  let ?user = "(nd_user nd)\<lparr>ex_out := ex_out (nd_user nd) @ ''Async read returned '' @ dec 4 @ '' bytes'' @ newline\<rparr>"
  have l: "unat ?l = 4" "unat ?l < 2 ^ 24" by (simp_all add: payload_length(1))
  have oc: "returned pk (nd_user nd) = Some (Returns (), ?user)"
    if "pk_type pk = PT_ReadReply" "pk_data pk = mem_fetch demo_address (unat ?l) (memory nd)" for pk
    using that l(1) by (simp add: returned_def)
  obtain nd1 nd' tid where w: "startReadAsyncOperation (TCPClient_backend pipe_sys) clock example_target demo_address ?l returned nd =
      Some (\<lparr>op_future = length (nd_promises nd), op_transaction_id = tid\<rparr>, nd1)"
    "network_poll nd1 = Some (Inr True, nd')" "attached nd'" "memory nd' = memory nd" "nd_user nd' = ?user"
    "nd_promises nd' = nd_promises nd @ [Some (Inr ())]" "settings nd' = settings nd"
    by (rule read_over_network [where oc = returned and a = demo_address and user = ?user, OF assms(1) example_target_ok assms(2) l(2) oc])
  have "example_readAsync (TCPClient_backend pipe_sys) clock (\<lambda>_. network_turn) nd = Some nd'"
    using w(1,6) network_turn_poll [OF w(2)] by (simp add: example_readAsync_def readAsync_def get_future_def future_status_last)
  then show thesis by (rule that [OF _ w(3)]) (simp add: w(5))
qed

lemma shutdown_user: "SpwRmapTCPClient_shutdown S nd = Some (r, nd') \<Longrightarrow> nd_user nd' = nd_user nd"
  by (auto simp: SpwRmapTCPClient_shutdown_def on_backend_def client_disconnect_def Let_def elim!: bind_SomeE
      split: if_split_asm sum.split_asm)

lemma payload_text: "concat (map (\<lambda>byte. ''0x'' @ hex (unat byte) @ '' '') payload) = ''0x1 0x2 0x3 0x4 ''"
  by (simp add: payload_def hex.simps hex_digit_def char_of_eq_iff)

lemma dec_4: "dec 4 = ''4''"
  by (simp add: dec.simps char_of_eq_iff)

text \<open>The example client against a server that is a memory ends with exit code 0, and its output is exactly
  what the example means to show.\<close>

lemma example_runs:
  assumes "fresh_loop w" and "\<And>k a. clock_ok (clock k a)"
  shows "\<exists>client. example_main pipe_sys clock (\<lambda>_ _ _. network_turn) w = Some (0, client) \<and>
    ex_out (nd_user client) = ''Connected to RMAP bridge'' @ newline @ ''Sync read: 0x1 0x2 0x3 0x4 '' @ newline @
      ''Async write completed'' @ newline @ ''Async read returned 4 bytes'' @ newline"
proof -
  have "(0 :: int) \<le> 1000000" by simp
  then obtain nd where c: "SpwRmapTCPClient_connect pipe_sys 1000000 (setInitiatorLogicalAddress 0xFE (SpwRmapTCPNodeImpl (TCPClient w)
       (default_config ''192.168.1.100'' ''10030'') \<lparr>ex_buffer = [], ex_out = []\<rparr>)) = Some (Inr (), nd)"
    "attached nd" "memory nd = nd_user (lp_server w)" "nd_user nd = \<lparr>ex_buffer = [], ex_out = []\<rparr>"
    by (rule initiator_connects [OF assms(1)])
  let ?nd = "print_out (''Connected to RMAP bridge'' @ newline) nd"
  have at: "attached ?nd" using c(2) by simp
  obtain nd1 where s: "example_sync (TCPClient_backend pipe_sys) clock (\<lambda>_ _ _. network_turn) ?nd = Some (True, nd1)" "attached nd1"
    "mem_fetch demo_address 4 (memory nd1) = payload"
    "ex_out (nd_user nd1) = ex_out (nd_user ?nd) @ ''Sync read: '' @ concat (map (\<lambda>byte. ''0x'' @ hex (unat byte) @ '' '') payload) @ newline"
    by (rule example_sync_ok [OF at assms(2)])
  obtain nd2 where wa: "example_writeAsync (TCPClient_backend pipe_sys) (clock 2 0) (\<lambda>_. network_turn) nd1 = Some (True, nd2)" "attached nd2"
    "memory nd2 = mem_store demo_address payload (memory nd1)"
    "ex_out (nd_user nd2) = ex_out (nd_user nd1) @ ''Async write completed'' @ newline" by (rule example_writeAsync_ok [OF s(2) assms(2)])
  obtain nd3 where ra: "example_readAsync (TCPClient_backend pipe_sys) (clock 3 0) (\<lambda>_. network_turn) nd2 = Some nd3" "attached nd3"
    "ex_out (nd_user nd3) = ex_out (nd_user nd2) @ ''Async read returned '' @ dec 4 @ '' bytes'' @ newline"
    by (rule example_readAsync_ok [OF wa(2) assms(2)])
  obtain nd4 where sh: "SpwRmapTCPClient_shutdown pipe_sys nd3 = Some (Inr (), nd4)" by (rule attached_shuts_down [OF ra(2)])
  have u: "nd_user nd4 = nd_user nd3" using shutdown_user [OF sh] .
  have "example_main pipe_sys clock (\<lambda>_ _ _. network_turn) w = Some (0, nd4)"
    using c(1) s(1) wa(1) ra(1) sh by (simp add: example_main_def)
  moreover have "ex_out (nd_user nd4) = ''Connected to RMAP bridge'' @ newline @ ''Sync read: 0x1 0x2 0x3 0x4 '' @ newline @
      ''Async write completed'' @ newline @ ''Async read returned 4 bytes'' @ newline"
    using s(4) [unfolded payload_text] wa(4) ra(3) [unfolded dec_4] c(4) by (simp add: u)
  ultimately show ?thesis by blast
qed

lemma example_runs_witness:
  "\<exists>client. example_main pipe_sys (\<lambda>_ _ _. 0) (\<lambda>_ _ _. network_turn) counting_loop = Some (0, client) \<and>
    ex_out (nd_user client) = ''Connected to RMAP bridge'' @ newline @ ''Sync read: 0x1 0x2 0x3 0x4 '' @ newline @
      ''Async write completed'' @ newline @ ''Async read returned 4 bytes'' @ newline"
  by (rule example_runs [OF counting_loop_fresh(1) zero_clock])

end
