(* ===== verification/Spec2Isabelle.thy ===== *)
theory Spec2Isabelle
  imports Node_Table Py_Session Py_Span App_Examples
begin

text \<open>
  Verification of \<open>spw_rmap\<close>, a C++ library for the SpaceWire remote memory access protocol (RMAP) over
  TCP, and of its command line programs, its Python bindings and its examples.

  \<^bold>\<open>The program.\<close> A \<^emph>\<open>node\<close> is a client or a server of a TCP connection. An initiator
  calls \<open>write\<close>, \<open>read\<close> or their asynchronous variants: the node takes a free transaction identifier,
  registers callbacks and a promise under it, builds an RMAP command, puts a 12-byte frame header in front
  and sends it. Another thread runs \<open>runLoop\<close>, which calls \<open>poll\<close>: it receives and unpacks one
  packet; a reply is handed to the callback registered under its identifier, a command is handed to
  the handler of the user and answered. Below the node are the backends, which work on sockets, and packet
  builders, packet parser and CRC, which work on bytes.

  \<^bold>\<open>Theories and sources\<close> (paths below \<open>src/\<close>). From the bytes up:

  \<^item> \<open>Prelude\<close>: machine integers, spans, the cursor of \<open>out[head++] = byte\<close>, vectors, shared lemmas.
  \<^item> \<open>Crc\<close>: \<open>src/crc.cc\<close>. \<open>Rmap_Types\<close>: \<open>rmap_packet_type.hh\<close>, \<open>error_code.hh\<close>,
    \<open>target_node.hh\<close>, the enumerations of \<open>packet_parser.hh\<close>.
  \<^item> \<open>Packet_Builder\<close>, \<open>Packet_Parser\<close>: \<open>src/packet_builder.cc\<close> and
    \<open>src/packet_parser.cc\<close>, store by store and read by read. \<open>Packet_Roundtrip\<close>: the two together, through
    the locale \<open>packet_codec\<close>, interpreted for the four kinds of packets.
  \<^item> \<open>Tcp_Backend\<close>: the concept \<open>TcpBackend\<close> as a record of operations. What the node
    relies on are the locales \<open>tcp_backend\<close> (a receive returns no more than was asked for),
    \<open>tcp_stream\<close> (a live connection delivers and takes bytes in order, in pieces of any size) and
    \<open>tcp_stream_eof\<close> (the end of the stream).
  \<^item> \<open>Node_State\<close>, \<open>Node_Frame\<close>, \<open>Node_Transactions\<close>, \<open>Node_Poll\<close>: the class template
    \<open>SpwRmapTCPNodeImpl\<close> of \<open>internal/spw_rmap_tcp_node_impl.hh\<close>: members and setters; framing,
    receiving and sending; identifiers, callbacks, promises and starting operations; handlers, \<open>poll\<close>,
    \<open>runLoop\<close> and the synchronous operations. The methods that derived classes override are the record
    \<open>node_methods\<close> with the contract \<open>node_derived\<close>.
  \<^item> \<open>Posix\<close>: the system calls as a record of functions on the state of the operating system, with
    their documented behaviour as the locales \<open>posix\<close>, \<open>posix_stream\<close>, \<open>posix_stream_eof\<close>,
    \<open>posix_fds\<close> and \<open>posix_signals\<close>. \<open>Tcp_Client\<close>, \<open>Tcp_Server\<close>: \<open>src/tcp_client.cc\<close> and
    \<open>src/tcp_server.cc\<close> over these calls. \<open>Tcp_Node\<close>: \<open>spw_rmap_tcp_node.hh\<close>.
  \<^item> \<open>Posix_Backends\<close>: both backends keep the contract of the node, by \<open>sublocale\<close> from the locales
    on system calls, which a concrete operating system (one connection of two byte queues with a bounded number of
    bytes per call) interprets, and the same with signals that interrupt calls.
  \<^item> \<open>App_Options\<close>, \<open>App_Spwrmap\<close>: \<open>app/spwrmap.cc\<close>. \<open>App_Statistics\<close>, \<open>App_Speedtest\<close>:
    \<open>app/spwrmap_speedtest.cc\<close>, with the arithmetic of \<open>double\<close> as the record \<open>double_ops\<close>. \<open>App_Examples\<close>:
    \<open>examples/\<close>.
  \<^item> \<open>Py_Node\<close>, \<open>Py_Session\<close>: the class of \<open>bindings/python/src/pyspw_rmap.cc\<close> with its background thread, whose
    position is part of the state. Every operation has an argument \<open>env\<close>, what that thread and the operating system do
    at each place where they can come in between; the contract of \<open>env\<close> is that it makes steps of the relation \<open>meanwhile\<close>.
    \<open>Py_Span\<close>: \<open>bindings/python/src/span_caster.hh\<close> over the functions of \<open>pybind11\<close>.
  \<^item> \<open>Node_Exchange\<close>, \<open>Node_Properties\<close>, \<open>Node_Session\<close>, \<open>Node_Table\<close>,
    \<open>Tcp_Properties\<close> and this theory hold the properties that span them. \<open>Node_Memory\<close> puts a memory
    behind a server and both nodes over a network; \<open>App_Loop\<close> runs the two programs against it. The contract of
    the loop that writes in chunks is the locale \<open>memory_device\<close>, interpreted by the synchronous write
    over this network.

  \<^bold>\<open>Conventions.\<close> A C++ object is a record, a method a function that returns the changed record.
  \<open>std::expected\<close> is a sum with the error on the left. A function whose behaviour the language leaves
  undefined for some input (an index out of range, an empty pointer), or in which an exception leaves
  a \<open>noexcept\<close> function, returns an option, and \<open>None\<close> is that case. Integers have their
  width wherever they can wrap around. A promise is an index into a list of the values set so far, a future
  the same index. The closures in the two tables of callbacks own the promises: one that is unset and that no closure
  refers to any more has been destroyed, and its future is broken (\<open>future_status\<close>). Callbacks are functions on a state of the user. The clock is a function from the number of the reading.

  \<^bold>\<open>Loops.\<close> The loops that consume a buffer, an argument list or a pattern are total, by a measure on what is left.
  The loops that the environment can keep alive (\<open>EINTR\<close>, packets to discard, expired identifiers, \<open>runLoop\<close>)
  are \<open>partial_function (option)\<close>; not returning is \<open>None\<close> there. No fuel is used. That they do return is part of the
  properties: \<open>client_operations_return\<close>, \<open>receive_reassembles\<close>, \<open>getAvailableTransactionID_outcome\<close>,
  \<open>reachable_operations_return\<close>, \<open>server_session_refines\<close> and the two transactions below all conclude that there is a result.

  \<^bold>\<open>What is shown.\<close>

  \<^item> CRC: the table computes the bit-serial register; bursts of up to eight bits are detected.
  \<^item> Packets: every outcome of every builder; what is built is parsed back; whatever is parsed is, byte for byte, the layout of
    the packet then held; a changed byte is refused, where a checksum covers it; \<open>parse\<close> is defined on every non-empty input; lengths beyond 24 bits are truncated.
  \<^item> Receiving and sending: a packet in parts between discarded packets and time codes is reassembled however the stream
    is cut; every outcome of sending.
  \<^item> Transactions: the table is consistent in every reachable state of a node (an inductive step relation over
    all operations), in which the operations return, fulfil no promise twice and, cancelling apart, break none; the table
    refines a finite map; and every outcome of asking for an identifier, starting, answering, cancelling and timing out. Between two
    threads: two races that break the promise of an operation, which ends the program if the operation is synchronous.
  \<^item> Python bindings: the flags, the stored error and the position of the thread agree in every reachable state, under every
    interleaving; \<open>stop\<close> returns and ends the thread; a program that starts, writes, reads and stops over the network; a
    read that times out, a lost connection, starting again; memory views are loaded back as the spans they were made from.
  \<^item> Nodes: a write and a read from one node to the other, end to end (below); with a memory behind the server, what is
    written is read back, through all layers; \<open>runLoop\<close> of a server
    refines an abstract server that answers a list of commands; the connection that ends inside a packet.
  \<^item> Sockets: connecting and accepting own exactly the descriptors they should, whichever calls fail; where they do not; the
    operations of the client return unless a call is interrupted for ever.
  \<^item> Programs: printing and parsing options is a round trip; exit codes; the chunked write fills exactly its range; against a memory \<open>spwrmap\<close> prints what is there, the speed test
    passes and the example prints what it means to; the printed statistics are in order.

  \<^bold>\<open>Not modelled.\<close> Mutexes, memory ordering and the interleaving of threads within an operation of a node, except for the
  races above, the argument \<open>wait\<close> of the synchronous operations, which is what the polling thread does to
  the node in that time, and the thread of the Python bindings, which is interleaved between the operations of the node; callbacks that call
  the node again; that the spans in a packet from an earlier \<open>parse\<close> alias the receive buffer (the model keeps the bytes they had);
  joining the polling thread at the end of a program; allocation failures below the maximal
  size of a vector; the macOS variants of conditional code (constants of \<open>errno\<close> are those of Linux);
  \<open>internal/debug.hh\<close> and messages on \<open>std::cerr\<close>, which have no effect on the state, usage texts among them; the text of
  error categories; the registration of the Python classes with \<open>pybind11\<close>; tests. Declarations of classes have no definition of
  their own: the builders, the parser and the abstract base class of the nodes are modelled where they are implemented.
\<close>

unbundle bit_operations_syntax

section \<open>Transactions\<close>

text \<open>C1. A write from one node to another, end to end. The client's \<open>writeAsync\<close> puts one request on
  the wire and returns a future that is not ready. A server that receives this request runs its
  write handler on the packet with the requested address and data, and puts one reply on the wire. When
  the client receives this reply, its completion callback runs, the future becomes ready with
  success, and the transaction identifier is free again. Both backends may cut the byte stream into pieces
  as they like.\<close>

theorem write_transaction:
  fixes nd1 :: "('b, 'u) node" and nd2 :: "('d, 'v) node"
  assumes "tcp_stream B1 live1 pending1 sent1" and "tcp_stream B2 live2 pending2 sent2"
    and "node_inv nd1" and "clock_ok clock" and "first_free nd1 = Some i"
    and "nd_tcp_backend nd1 = Some b1" and "live1 b1"
    and c: "c = write_config t (slot_id nd1 i) a data nd1"
    and "write_wf c" and "path_ok (getReplyAddress t)"
    and "send_room nd1 (WritePacketBuilder_getTotalSize c)"
    and "recv_room (nd_buffer_policy nd1) (length (nd_recv_buf nd1)) (length (getReplyAddress t) + 8)"
    and "recv_room (nd_buffer_policy nd2) (length (nd_recv_buf nd2)) (WritePacketBuilder_getTotalSize c)"
    and "send_room nd2 (length (getReplyAddress t) + 8)"
    and "nd_on_write nd2 = Some f"
    and "f (write_decoded c (nd_packet nd2)) (nd_user nd2) = Some (Returns (), user_s)"
    and "\<And>pk. pk_type pk = PT_WriteReply \<Longrightarrow> pk_transactionID pk = slot_id nd1 i \<Longrightarrow> pk_status pk = 0 \<Longrightarrow>
      oc pk (nd_user nd1) = Some (Returns (), user_c)"
  shows "\<exists>nd1' b1' request. writeAsync B1 clock t a data oc nd1 = Some (length (nd_promises nd1), nd1') \<and>
     nd_tcp_backend nd1' = Some b1' \<and> sent1 b1' = sent1 b1 @ request \<and>
     nd_promises nd1' = nd_promises nd1 @ [None] \<and>
     (\<forall>b2. live2 b2 \<longrightarrow> pending2 b2 = request \<longrightarrow> (\<exists>nd2' b2' reply.
        poll B2 this_s (nd2\<lparr>nd_tcp_backend := Some b2\<rparr>) = Some (Inr True, nd2') \<and> nd_user nd2' = user_s \<and>
        nd_tcp_backend nd2' = Some b2' \<and> sent2 b2' = sent2 b2 @ reply \<and>
        (\<forall>b. live1 b \<longrightarrow> pending1 b = reply \<longrightarrow> (\<exists>nd1''.
           poll B1 this_c (nd1'\<lparr>nd_tcp_backend := Some b\<rparr>) = Some (Inr True, nd1'') \<and> node_inv nd1'' \<and>
           nd_promises nd1'' = nd_promises nd1 @ [Some (Inr ())] \<and>
           nd_available nd1'' = nd_available nd1 \<and> nd_user nd1'' = user_c))))"
proof -
  obtain nd1' b1' reply where x: "startWriteAsyncOperation B1 clock t a data oc nd1 =
      Some (\<lparr>op_future = length (nd_promises nd1), op_transaction_id = Some (slot_id nd1 i)\<rparr>, nd1')"
    "nd_tcp_backend nd1' = Some b1'" "live1 b1'" "pending1 b1' = pending1 b1"
    "sent1 b1' = sent1 b1 @ frame 0 (write_packet c)" "nd_promises nd1' = nd_promises nd1 @ [None]"
    "serves B2 live2 pending2 sent2 this_s nd2 (write_packet c) reply user_s"
    "completes B1 pending1 sent1 this_c nd1 nd1' reply user_c"
    by (rule write_exchange [where oc = oc and user_c = user_c, OF assms])
  have "writeAsync B1 clock t a data oc nd1 = Some (length (nd_promises nd1), nd1')"
    using x(1) by (simp add: writeAsync_def)
  with x(2,5,6) exchange_polls [OF assms(1) x(7,8)] show ?thesis by blast
qed

theorem write_transaction_witness:
  "\<exists>nd1' b1' nd2' b2' nd1''.
     writeAsync (TCPClient_backend pipe_sys) (\<lambda>_. 0) sample_target 0x100 [1, 2] (\<lambda>pk u. Some (Returns (), u)) sample_node =
       Some (0, nd1') \<and> nd_tcp_backend nd1' = Some b1' \<and>
     poll (TCPServer_backend pipe_sys) (SpwRmapTCPServer_methods pipe_sys)
       (sample_server\<lparr>nd_tcp_backend := Some (server_over (pp_out (tc_sys b1')))\<rparr>) = Some (Inr True, nd2') \<and>
     nd_user nd2' = [(0x100, [1, 2])] \<and> nd_tcp_backend nd2' = Some b2' \<and>
     poll (TCPClient_backend pipe_sys) (SpwRmapTCPClient_methods pipe_sys)
       (nd1'\<lparr>nd_tcp_backend := Some (client_over (pp_out (ts_sys b2')))\<rparr>) = Some (Inr True, nd1'') \<and>
     nd_promises nd1'' = [Some (Inr ())] \<and> nd_available nd1'' = [True, True]"
proof -
  define c where "c = write_config sample_target (slot_id sample_node 0) 0x100 [1, 2] sample_node"
  have "write_wf c" "path_ok (getReplyAddress sample_target)"
    "send_room sample_node (WritePacketBuilder_getTotalSize c)"
    "recv_room (nd_buffer_policy sample_node) (length (nd_recv_buf sample_node)) (length (getReplyAddress sample_target) + 8)"
    "recv_room (nd_buffer_policy sample_server) (length (nd_recv_buf sample_server)) (WritePacketBuilder_getTotalSize c)"
    "send_room sample_server (length (getReplyAddress sample_target) + 8)"
    "log_write (write_decoded c (nd_packet sample_server)) (nd_user sample_server) = Some (Returns (), [(0x100, [1, 2])])"
    by (simp_all add: c_def write_wf_def path_ok_def reply_ok_def write_config_def sample_target_def
        getTargetSpaceWireAddress_def getReplyAddress_def getTargetLogicalAddress_def send_room_def recv_room_def
        WritePacketBuilder_getTotalSize_def INT_MAX_def VECTOR_MAX_SIZE_def log_write_def write_decoded_def)
  note facts = this
  have "tc_fd (client_over []) = 3" by simp
  from write_transaction [OF pipe.client.tcp_stream_axioms pipe.server.tcp_stream_axioms sample_node_inv zero_clock
      sample_first_free sample_backend this c_def facts(1-6) sample_server_fields(1) facts(7),
      where oc = "\<lambda>pk u. Some (Returns (), u)" and this_c = "SpwRmapTCPClient_methods pipe_sys" and
        this_s = "SpwRmapTCPServer_methods pipe_sys"]
  obtain nd1' b1' request where w: "writeAsync (TCPClient_backend pipe_sys) (\<lambda>_. 0) sample_target 0x100 [1, 2]
       (\<lambda>pk u. Some (Returns (), u)) sample_node = Some (0, nd1')" "nd_tcp_backend nd1' = Some b1'"
      "pp_out (tc_sys b1') = request"
    and s: "\<forall>b2. ts_client_fd b2 = 3 \<longrightarrow> pp_in (ts_sys b2) = request \<longrightarrow> (\<exists>nd2' b2' reply.
        poll (TCPServer_backend pipe_sys) (SpwRmapTCPServer_methods pipe_sys)
          (sample_server\<lparr>nd_tcp_backend := Some b2\<rparr>) = Some (Inr True, nd2') \<and>
        nd_user nd2' = [(0x100, [1, 2])] \<and> nd_tcp_backend nd2' = Some b2' \<and>
        pp_out (ts_sys b2') = pp_out (ts_sys b2) @ reply \<and>
        (\<forall>b. tc_fd b = 3 \<longrightarrow> pp_in (tc_sys b) = reply \<longrightarrow> (\<exists>nd1''.
           poll (TCPClient_backend pipe_sys) (SpwRmapTCPClient_methods pipe_sys)
             (nd1'\<lparr>nd_tcp_backend := Some b\<rparr>) = Some (Inr True, nd1'') \<and> node_inv nd1'' \<and>
           nd_promises nd1'' = [Some (Inr ())] \<and> nd_available nd1'' = [True, True])))"
    by (auto)
  have "ts_client_fd (server_over request) = 3" "pp_in (ts_sys (server_over request)) = request" by simp_all
  from s [rule_format, OF this] obtain nd2' b2' where p: "poll (TCPServer_backend pipe_sys) (SpwRmapTCPServer_methods pipe_sys)
          (sample_server\<lparr>nd_tcp_backend := Some (server_over request)\<rparr>) = Some (Inr True, nd2')"
        "nd_user nd2' = [(0x100, [1, 2])]" "nd_tcp_backend nd2' = Some b2'"
    and q: "\<forall>b. tc_fd b = 3 \<longrightarrow> pp_in (tc_sys b) = pp_out (ts_sys b2') \<longrightarrow> (\<exists>nd1''.
           poll (TCPClient_backend pipe_sys) (SpwRmapTCPClient_methods pipe_sys)
             (nd1'\<lparr>nd_tcp_backend := Some b\<rparr>) = Some (Inr True, nd1'') \<and> node_inv nd1'' \<and>
           nd_promises nd1'' = [Some (Inr ())] \<and> nd_available nd1'' = [True, True])" by auto
  from q [rule_format, of "client_over (pp_out (ts_sys b2'))"] w p show ?thesis by auto
qed


text \<open>C2. A read of \<open>l\<close> bytes from one node by another, end to end: the server's read handler is asked
  for the requested address and length, and the client's completion callback is handed exactly the
  bytes the handler returned.\<close>

theorem read_transaction:
  fixes nd1 :: "('b, 'u) node" and nd2 :: "('d, 'v) node"
  assumes "tcp_stream B1 live1 pending1 sent1" and "tcp_stream B2 live2 pending2 sent2"
    and "node_inv nd1" and "clock_ok clock" and "first_free nd1 = Some i"
    and "nd_tcp_backend nd1 = Some b1" and "live1 b1"
    and c: "c = read_config t (slot_id nd1 i) a l nd1"
    and "read_wf c" and "path_ok (getReplyAddress t)"
    and "ReadPacketBuilder_getTotalSize c \<le> INT_MAX"
    and "ReadPacketBuilder_getTotalSize c + 12 \<le> length (nd_send_buf nd1)"
    and "recv_room (nd_buffer_policy nd1) (length (nd_recv_buf nd1)) (length (getReplyAddress t) + 13 + length data)"
    and "recv_room (nd_buffer_policy nd2) (length (nd_recv_buf nd2)) (ReadPacketBuilder_getTotalSize c)"
    and "send_room nd2 (length (getReplyAddress t) + 13 + length data)"
    and "nd_on_read nd2 = Some f"
    and "f (read_decoded c (nd_packet nd2)) (nd_user nd2) = Some (Returns data, user_s)"
    and "length data < 2 ^ 24"
    and "\<And>pk. pk_type pk = PT_ReadReply \<Longrightarrow> pk_transactionID pk = slot_id nd1 i \<Longrightarrow> pk_status pk = 0 \<Longrightarrow>
      pk_data pk = data \<Longrightarrow> oc pk (nd_user nd1) = Some (Returns (), user_c)"
  shows "\<exists>nd1' b1' request. readAsync B1 clock t a l oc nd1 = Some (length (nd_promises nd1), nd1') \<and>
     nd_tcp_backend nd1' = Some b1' \<and> sent1 b1' = sent1 b1 @ request \<and>
     nd_promises nd1' = nd_promises nd1 @ [None] \<and>
     (\<forall>b2. live2 b2 \<longrightarrow> pending2 b2 = request \<longrightarrow> (\<exists>nd2' b2' reply.
        poll B2 this_s (nd2\<lparr>nd_tcp_backend := Some b2\<rparr>) = Some (Inr True, nd2') \<and> nd_user nd2' = user_s \<and>
        nd_tcp_backend nd2' = Some b2' \<and> sent2 b2' = sent2 b2 @ reply \<and>
        (\<forall>b. live1 b \<longrightarrow> pending1 b = reply \<longrightarrow> (\<exists>nd1''.
           poll B1 this_c (nd1'\<lparr>nd_tcp_backend := Some b\<rparr>) = Some (Inr True, nd1'') \<and> node_inv nd1'' \<and>
           nd_promises nd1'' = nd_promises nd1 @ [Some (Inr ())] \<and>
           nd_available nd1'' = nd_available nd1 \<and> nd_user nd1'' = user_c))))"
proof -
  obtain nd1' b1' reply where x: "startReadAsyncOperation B1 clock t a l oc nd1 =
      Some (\<lparr>op_future = length (nd_promises nd1), op_transaction_id = Some (slot_id nd1 i)\<rparr>, nd1')"
    "nd_tcp_backend nd1' = Some b1'" "live1 b1'" "pending1 b1' = pending1 b1"
    "sent1 b1' = sent1 b1 @ frame 0 (read_packet c)" "nd_promises nd1' = nd_promises nd1 @ [None]"
    "serves B2 live2 pending2 sent2 this_s nd2 (read_packet c) reply user_s"
    "completes B1 pending1 sent1 this_c nd1 nd1' reply user_c"
    by (rule read_exchange [where oc = oc and user_c = user_c and data = data, OF assms])
  have "readAsync B1 clock t a l oc nd1 = Some (length (nd_promises nd1), nd1')"
    using x(1) by (simp add: readAsync_def)
  with x(2,5,6) exchange_polls [OF assms(1) x(7,8)] show ?thesis by blast
qed

theorem read_transaction_witness:
  "\<exists>nd1' b1' nd2' b2' nd1''.
     readAsync (TCPClient_backend pipe_sys) (\<lambda>_. 0) sample_target 0x100 3
       (\<lambda>pk u. if pk_data pk = [0x5A, 0x5A, 0x5A] then Some (Returns (), u) else None) sample_node = Some (0, nd1') \<and>
     nd_tcp_backend nd1' = Some b1' \<and>
     poll (TCPServer_backend pipe_sys) (SpwRmapTCPServer_methods pipe_sys)
       (sample_server\<lparr>nd_tcp_backend := Some (server_over (pp_out (tc_sys b1')))\<rparr>) = Some (Inr True, nd2') \<and>
     nd_tcp_backend nd2' = Some b2' \<and>
     poll (TCPClient_backend pipe_sys) (SpwRmapTCPClient_methods pipe_sys)
       (nd1'\<lparr>nd_tcp_backend := Some (client_over (pp_out (ts_sys b2')))\<rparr>) = Some (Inr True, nd1'') \<and>
     nd_promises nd1'' = [Some (Inr ())] \<and> nd_available nd1'' = [True, True]"
proof -
  define oc :: "unit completion" where
    oc: "oc = (\<lambda>pk u. if pk_data pk = [0x5A, 0x5A, 0x5A] then Some (Returns (), u) else None)"
  have cb: "oc pk (nd_user sample_node) = Some (Returns (), ())" if "pk_data pk = [0x5A, 0x5A, 0x5A]" for pk
    using that by (simp add: oc)
  define c where "c = read_config sample_target (slot_id sample_node 0) 0x100 3 sample_node"
  have "read_wf c" "path_ok (getReplyAddress sample_target)"
    "ReadPacketBuilder_getTotalSize c \<le> INT_MAX" "ReadPacketBuilder_getTotalSize c + 12 \<le> length (nd_send_buf sample_node)"
    "recv_room (nd_buffer_policy sample_node) (length (nd_recv_buf sample_node))
       (length (getReplyAddress sample_target) + 13 + length [0x5A :: u8, 0x5A, 0x5A])"
    "recv_room (nd_buffer_policy sample_server) (length (nd_recv_buf sample_server)) (ReadPacketBuilder_getTotalSize c)"
    "send_room sample_server (length (getReplyAddress sample_target) + 13 + length [0x5A :: u8, 0x5A, 0x5A])"
    "give_data (read_decoded c (nd_packet sample_server)) (nd_user sample_server) = Some (Returns [0x5A, 0x5A, 0x5A], [])"
    "length [0x5A :: u8, 0x5A, 0x5A] < 2 ^ 24"
    by (simp_all add: c_def read_wf_def path_ok_def reply_ok_def read_config_def sample_target_def
        getTargetSpaceWireAddress_def getReplyAddress_def getTargetLogicalAddress_def send_room_def recv_room_def
        ReadPacketBuilder_getTotalSize_def INT_MAX_def VECTOR_MAX_SIZE_def give_data_def read_decoded_def replicate_3)
  note facts = this
  have "tc_fd (client_over []) = 3" by simp
  from read_transaction [where data = "[0x5A, 0x5A, 0x5A]" and oc = oc and f = give_data and user_c = "()" and
      this_c = "SpwRmapTCPClient_methods pipe_sys" and this_s = "SpwRmapTCPServer_methods pipe_sys",
      OF pipe.client.tcp_stream_axioms pipe.server.tcp_stream_axioms sample_node_inv zero_clock
      sample_first_free sample_backend this c_def facts(1-7) sample_server_fields(2) facts(8,9) cb]
  obtain nd1' b1' request where w: "readAsync (TCPClient_backend pipe_sys) (\<lambda>_. 0) sample_target 0x100 3 oc sample_node =
       Some (0, nd1')" "nd_tcp_backend nd1' = Some b1'" "pp_out (tc_sys b1') = request"
    and s: "\<forall>b2. ts_client_fd b2 = 3 \<longrightarrow> pp_in (ts_sys b2) = request \<longrightarrow> (\<exists>nd2' b2' reply.
        poll (TCPServer_backend pipe_sys) (SpwRmapTCPServer_methods pipe_sys)
          (sample_server\<lparr>nd_tcp_backend := Some b2\<rparr>) = Some (Inr True, nd2') \<and>
        nd_user nd2' = [] \<and> nd_tcp_backend nd2' = Some b2' \<and>
        pp_out (ts_sys b2') = pp_out (ts_sys b2) @ reply \<and>
        (\<forall>b. tc_fd b = 3 \<longrightarrow> pp_in (tc_sys b) = reply \<longrightarrow> (\<exists>nd1''.
           poll (TCPClient_backend pipe_sys) (SpwRmapTCPClient_methods pipe_sys)
             (nd1'\<lparr>nd_tcp_backend := Some b\<rparr>) = Some (Inr True, nd1'') \<and> node_inv nd1'' \<and>
           nd_promises nd1'' = [Some (Inr ())] \<and> nd_available nd1'' = [True, True])))"
    by auto
  have "ts_client_fd (server_over request) = 3" "pp_in (ts_sys (server_over request)) = request" by simp_all
  from s [rule_format, OF this] obtain nd2' b2' where p: "poll (TCPServer_backend pipe_sys) (SpwRmapTCPServer_methods pipe_sys)
          (sample_server\<lparr>nd_tcp_backend := Some (server_over request)\<rparr>) = Some (Inr True, nd2')"
        "nd_tcp_backend nd2' = Some b2'"
    and q: "\<forall>b. tc_fd b = 3 \<longrightarrow> pp_in (tc_sys b) = pp_out (ts_sys b2') \<longrightarrow> (\<exists>nd1''.
           poll (TCPClient_backend pipe_sys) (SpwRmapTCPClient_methods pipe_sys)
             (nd1'\<lparr>nd_tcp_backend := Some b\<rparr>) = Some (Inr True, nd1'') \<and> node_inv nd1'' \<and>
           nd_promises nd1'' = [Some (Inr ())] \<and> nd_available nd1'' = [True, True])" by auto
  from q [rule_format, of "client_over (pp_out (ts_sys b2'))"] w p show ?thesis
    unfolding oc [symmetric] by auto
qed

end
